(* ===== verification/Offset_Prelude.thy ===== *)
theory Offset_Prelude
  imports
    Main
    "HOL-Library.Word"
    "HOL-Library.AList"
    "HOL-Library.Char_ord"
    "HOL-Library.List_Lexorder"
begin

text \<open>
  The shared layer of the development: how the Rust of the repository is read in HOL.

  \<^item> A function that returns \<open>Result<T, E>\<close> and may also panic (an \<open>unwrap\<close>, an
    \<open>assert!\<close> or an \<open>unreachable!\<close>) has the type \<open>('e, 'a) result\<close>, where the
    panic is the third constructor. A function that returns a plain value and may panic has
    the same type, with the error type left free. \<open>and_then\<close> is the \<open>?\<close> operator: it
    stops at the first \<open>Err\<close> or \<open>Panic\<close>.
  \<^item> A \<open>HashMap\<close> is an association list with distinct keys. Its order stands for the
    order in which the source's iterators would visit it, which Rust leaves open, so a
    statement about all such lists is a statement about all iteration orders. Two maps are
    compared by their lookup functions (\<open>hm_eq\<close>), never by their order.
  \<^item> The collections \<open>rust_simps\<close> and \<open>hm_simps\<close> carry the proofs of the components.
\<close>

named_theorems rust_simps \<open>characterisations of the result type and its operations\<close>
named_theorems hm_simps \<open>lookup, insertion and removal on hash maps\<close>

section \<open>Results and panics\<close>

datatype ('e, 'a) result = Ok 'a | Err 'e | Panic

fun and_then :: "('e, 'a) result \<Rightarrow> ('a \<Rightarrow> ('e, 'b) result) \<Rightarrow> ('e, 'b) result" where
  "and_then (Ok x) f = f x"
| "and_then (Err e) f = Err e"
| "and_then Panic f = Panic"

text \<open>\<open>Option::ok_or\<close>, \<open>Option::unwrap\<close>, \<open>assert!\<close> and \<open>Result::map_err\<close>.\<close>

fun ok_or :: "'a option \<Rightarrow> 'e \<Rightarrow> ('e, 'a) result" where
  "ok_or (Some x) e = Ok x"
| "ok_or None e = Err e"

fun unwrap :: "'a option \<Rightarrow> ('e, 'a) result" where
  "unwrap (Some x) = Ok x"
| "unwrap None = Panic"

definition assert_that :: "bool \<Rightarrow> ('e, unit) result" where
  "assert_that b = (if b then Ok () else Panic)"

definition fail_if :: "bool \<Rightarrow> 'e \<Rightarrow> ('e, unit) result" where
  "fail_if b e = (if b then Err e else Ok ())"

fun map_err :: "('e \<Rightarrow> 'f) \<Rightarrow> ('e, 'a) result \<Rightarrow> ('f, 'a) result" where
  "map_err h (Ok x) = Ok x"
| "map_err h (Err e) = Err (h e)"
| "map_err h Panic = Panic"

text \<open>\<open>Result::unwrap\<close>: an error becomes a panic.\<close>

fun unwrap_result :: "('e, 'a) result \<Rightarrow> ('f, 'a) result" where
  "unwrap_result (Ok x) = Ok x"
| "unwrap_result (Err e) = Panic"
| "unwrap_result Panic = Panic"

lemma and_then_Ok_iff [rust_simps]:
  "and_then m f = Ok y \<longleftrightarrow> (\<exists>x. m = Ok x \<and> f x = Ok y)"
  by (cases m) auto

lemma and_then_Err_iff [rust_simps]:
  "and_then m f = Err e \<longleftrightarrow> m = Err e \<or> (\<exists>x. m = Ok x \<and> f x = Err e)"
  by (cases m) auto

lemma and_then_Panic_iff [rust_simps]:
  "and_then m f = Panic \<longleftrightarrow> m = Panic \<or> (\<exists>x. m = Ok x \<and> f x = Panic)"
  by (cases m) auto

lemma and_then_assoc: "and_then (and_then m f) g = and_then m (\<lambda>x. and_then (f x) g)"
  by (cases m) auto

lemma ok_or_iffs [rust_simps]:
  "ok_or x e = Ok y \<longleftrightarrow> x = Some y"
  "ok_or x e = Err d \<longleftrightarrow> x = None \<and> d = e"
  "ok_or x e \<noteq> Panic"
  by (cases x; auto)+

lemma unwrap_iffs [rust_simps]:
  "unwrap x = Ok y \<longleftrightarrow> x = Some y"
  "unwrap x \<noteq> Err d"
  "unwrap x = Panic \<longleftrightarrow> x = None"
  by (cases x; auto)+

lemma assert_that_iffs [rust_simps]:
  "assert_that b = Ok u \<longleftrightarrow> b"
  "assert_that b \<noteq> Err d"
  "assert_that b = Panic \<longleftrightarrow> \<not> b"
  by (auto simp: assert_that_def)

lemma fail_if_iffs [rust_simps]:
  "fail_if b e = Ok u \<longleftrightarrow> \<not> b"
  "fail_if b e = Err d \<longleftrightarrow> b \<and> d = e"
  "fail_if b e \<noteq> Panic"
  by (auto simp: fail_if_def)

lemma map_err_iffs [rust_simps]:
  "map_err h m = Ok y \<longleftrightarrow> m = Ok y"
  "map_err h m = Err d \<longleftrightarrow> (\<exists>e. m = Err e \<and> d = h e)"
  "map_err h m = Panic \<longleftrightarrow> m = Panic"
  by (cases m; auto)+

lemma unwrap_result_iffs [rust_simps]:
  "unwrap_result m = Ok y \<longleftrightarrow> m = Ok y"
  "unwrap_result m \<noteq> Err d"
  "unwrap_result m = Panic \<longleftrightarrow> m = Panic \<or> (\<exists>e. m = Err e)"
  by (cases m; auto)+

text \<open>A loop that threads a state and may stop early.\<close>

fun fold_r :: "('x \<Rightarrow> 's \<Rightarrow> ('e, 's) result) \<Rightarrow> 'x list \<Rightarrow> 's \<Rightarrow> ('e, 's) result" where
  "fold_r f [] s = Ok s"
| "fold_r f (x # xs) s = and_then (f x s) (fold_r f xs)"

lemma fold_r_append: "fold_r f (xs @ ys) s = and_then (fold_r f xs s) (fold_r f ys)"
proof (induction xs arbitrary: s)
  case (Cons x xs)
  then show ?case by (cases "f x s") auto
qed simp

lemma fold_r_invariant:
  assumes "fold_r f xs s = Ok t" and "P s"
    and "\<And>x u v. x \<in> set xs \<Longrightarrow> P u \<Longrightarrow> f x u = Ok v \<Longrightarrow> P v"
  shows "P t"
  using assms by (induction xs arbitrary: s) (auto simp: rust_simps)

section \<open>Hash maps\<close>

type_synonym ('k, 'v) hash_map = "('k \<times> 'v) list"

definition hm_keys :: "('k, 'v) hash_map \<Rightarrow> 'k list" where
  "hm_keys m = map fst m"

definition hm_values :: "('k, 'v) hash_map \<Rightarrow> 'v list" where
  "hm_values m = map snd m"

definition hm_get :: "('k, 'v) hash_map \<Rightarrow> 'k \<Rightarrow> 'v option" where
  "hm_get m k = map_of m k"

definition hm_contains :: "('k, 'v) hash_map \<Rightarrow> 'k \<Rightarrow> bool" where
  "hm_contains m k \<longleftrightarrow> hm_get m k \<noteq> None"

definition hm_insert :: "'k \<Rightarrow> 'v \<Rightarrow> ('k, 'v) hash_map \<Rightarrow> ('k, 'v) hash_map" where
  "hm_insert k v m = AList.update k v m"

definition hm_remove :: "'k \<Rightarrow> ('k, 'v) hash_map \<Rightarrow> ('k, 'v) hash_map" where
  "hm_remove k m = AList.delete k m"

definition hm_wf :: "('k, 'v) hash_map \<Rightarrow> bool" where
  "hm_wf m \<longleftrightarrow> distinct (hm_keys m)"

definition hm_eq :: "('k, 'v) hash_map \<Rightarrow> ('k, 'v) hash_map \<Rightarrow> bool" where
  "hm_eq m n \<longleftrightarrow> hm_get m = hm_get n"

text \<open>\<open>Iterator::collect\<close> into a map: a later pair overwrites an earlier one.\<close>

definition hm_collect :: "('k \<times> 'v) list \<Rightarrow> ('k, 'v) hash_map" where
  "hm_collect kvs = fold (\<lambda>(k, v). hm_insert k v) kvs []"

text \<open>\<open>collect\<close> into a set keeps the first occurrence of each element.\<close>

definition hs_collect :: "'k list \<Rightarrow> 'k list" where
  "hs_collect ks = rev (remdups (rev ks))"

text \<open>The contract that the components rely on when they keep their state in a map.\<close>

locale finite_map_store =
  fixes get :: "'m \<Rightarrow> 'k \<Rightarrow> 'v option"
    and insert_kv :: "'k \<Rightarrow> 'v \<Rightarrow> 'm \<Rightarrow> 'm"
    and remove_k :: "'k \<Rightarrow> 'm \<Rightarrow> 'm"
    and entries :: "'m \<Rightarrow> ('k \<times> 'v) list"
    and wf :: "'m \<Rightarrow> bool"
  assumes get_insert: "get (insert_kv k v m) = (get m)(k \<mapsto> v)"
    and get_remove: "get (remove_k k m) = (get m)(k := None)"
    and get_entries: "wf m \<Longrightarrow> get m = map_of (entries m)"
    and distinct_entries: "wf m \<Longrightarrow> distinct (map fst (entries m))"
    and wf_insert: "wf m \<Longrightarrow> wf (insert_kv k v m)"
    and wf_remove: "wf m \<Longrightarrow> wf (remove_k k m)"
begin

text \<open>
  A total over the values of the map, as the frozen credits of a token channel are. An
  insertion of a fresh key adds its weight, and a removal takes it off.
\<close>

definition total :: "('v \<Rightarrow> int) \<Rightarrow> 'm \<Rightarrow> int" where
  "total w m = (\<Sum>v \<leftarrow> map snd (entries m). w v)"

lemma total_eq_sum_dom:
  assumes "wf m"
  shows "total w m = (\<Sum>k \<in> dom (get m). w (the (get m k)))"
proof -
  let ?es = "entries m"
  have d: "distinct (map fst ?es)" by (rule distinct_entries [OF assms])
  have "total w m = (\<Sum>p \<leftarrow> ?es. w (snd p))"
    by (simp add: total_def comp_def)
  also have "\<dots> = (\<Sum>p \<in> set ?es. w (snd p))"
    using d by (simp add: distinct_map sum_list_distinct_conv_sum_set)
  also have "\<dots> = (\<Sum>p \<in> set ?es. w (the (map_of ?es (fst p))))"
    by (rule sum.cong) (auto simp: map_of_is_SomeI [OF d])
  also have "\<dots> = (\<Sum>k \<in> fst ` set ?es. w (the (map_of ?es k)))"
    using d by (simp add: distinct_map sum.reindex)
  also have "fst ` set ?es = dom (map_of ?es)"
    by (simp add: dom_map_of_conv_image_fst)
  finally show ?thesis by (simp add: get_entries [OF assms])
qed

lemma finite_dom_get: "wf m \<Longrightarrow> finite (dom (get m))"
  by (simp add: get_entries finite_dom_map_of)

lemma total_remove:
  assumes "wf m" and "get m k = Some v"
  shows "total w (remove_k k m) + w v = total w m"
proof -
  have k: "k \<in> dom (get m)" using assms(2) by auto
  have "total w m = (\<Sum>j \<in> dom (get m). w (the (get m j)))"
    by (rule total_eq_sum_dom [OF assms(1)])
  also have "\<dots> = w v + (\<Sum>j \<in> dom (get m) - {k}. w (the (get m j)))"
    using k assms by (subst sum.remove [OF finite_dom_get]) auto
  also have "(\<Sum>j \<in> dom (get m) - {k}. w (the (get m j))) =
      (\<Sum>j \<in> dom (get (remove_k k m)). w (the (get (remove_k k m) j)))"
    by (rule sum.cong) (auto simp: get_remove)
  also have "\<dots> = total w (remove_k k m)"
    by (rule total_eq_sum_dom [OF wf_remove [OF assms(1)], symmetric])
  finally show ?thesis by simp
qed

lemma total_insert_fresh:
  assumes "wf m" and "get m k = None"
  shows "total w (insert_kv k v m) = total w m + w v"
proof -
  have "total w (remove_k k (insert_kv k v m)) + w v = total w (insert_kv k v m)"
    by (rule total_remove) (simp_all add: wf_insert assms get_insert)
  moreover have "get (remove_k k (insert_kv k v m)) = get m"
    using assms(2) by (auto simp: get_remove get_insert fun_eq_iff)
  ultimately show ?thesis
    using assms(1) by (simp add: total_eq_sum_dom wf_insert wf_remove)
qed

lemma total_insert_same_weight:
  assumes "wf m" and "get m k = Some v" and "w v' = w v"
  shows "total w (insert_kv k v' m) = total w m"
proof -
  have "total w (remove_k k (insert_kv k v' m)) + w v' = total w (insert_kv k v' m)"
    by (rule total_remove) (simp_all add: wf_insert assms get_insert)
  moreover have "total w (remove_k k m) + w v = total w m"
    by (rule total_remove [OF assms(1,2)])
  moreover have "get (remove_k k (insert_kv k v' m)) = get (remove_k k m)"
    by (auto simp: get_remove get_insert fun_eq_iff)
  ultimately show ?thesis
    using assms(1,3) by (simp add: total_eq_sum_dom wf_insert wf_remove)
qed

lemma total_nonneg: "wf m \<Longrightarrow> (\<And>v. 0 \<le> w v) \<Longrightarrow> 0 \<le> total w m"
  by (simp add: total_eq_sum_dom sum_nonneg)

lemma weight_le_total:
  assumes "wf m" and "get m k = Some v" and "\<And>v. 0 \<le> w v"
  shows "w v \<le> total w m"
proof -
  have "0 \<le> total w (remove_k k m)"
    by (rule total_nonneg [OF wf_remove [OF assms(1)] assms(3)])
  then show ?thesis using total_remove [OF assms(1,2), of w] by simp
qed

lemma total_cong:
  assumes "wf m" and "wf n" and "get m = get n"
  shows "total w m = total w n"
  using assms by (simp add: total_eq_sum_dom)

end

lemma hm_get_insert [hm_simps]: "hm_get (hm_insert k v m) = (hm_get m)(k \<mapsto> v)"
  by (simp add: hm_get_def hm_insert_def update_conv fun_eq_iff)

lemma hm_get_remove [hm_simps]: "hm_get (hm_remove k m) = (hm_get m)(k := None)"
  by (auto simp: hm_get_def hm_remove_def delete_conv fun_eq_iff)

lemma hm_get_Nil [hm_simps, simp]: "hm_get [] k = None"
  by (simp add: hm_get_def)

lemma hm_wf_Nil [hm_simps, simp]: "hm_wf []"
  by (simp add: hm_wf_def hm_keys_def)

lemma hm_wf_insert [hm_simps, intro]: "hm_wf m \<Longrightarrow> hm_wf (hm_insert k v m)"
  by (simp add: hm_wf_def hm_keys_def hm_insert_def distinct_update)

lemma hm_wf_remove [hm_simps, intro]: "hm_wf m \<Longrightarrow> hm_wf (hm_remove k m)"
  by (simp add: hm_wf_def hm_keys_def hm_remove_def distinct_delete)

lemma hm_contains_iff [hm_simps]: "hm_contains m k \<longleftrightarrow> k \<in> set (hm_keys m)"
  by (auto simp: hm_contains_def hm_get_def hm_keys_def map_of_eq_None_iff)

lemma hm_get_eq_None_iff: "hm_get m k = None \<longleftrightarrow> k \<notin> set (hm_keys m)"
  by (auto simp: hm_get_def hm_keys_def map_of_eq_None_iff)

lemma in_hm_keys_iff: "k \<in> set (hm_keys m) \<longleftrightarrow> (\<exists>v. hm_get m k = Some v)"
  using hm_get_eq_None_iff[of m k] by auto

lemma hm_keys_remove: "set (hm_keys (hm_remove k m)) = set (hm_keys m) - {k}"
  by (auto simp: in_hm_keys_iff hm_simps split: if_splits)

lemma hm_keys_insert: "set (hm_keys (hm_insert k v m)) = insert k (set (hm_keys m))"
  by (auto simp: in_hm_keys_iff hm_simps split: if_splits)

lemma hm_get_SomeI: "hm_wf m \<Longrightarrow> (k, v) \<in> set m \<Longrightarrow> hm_get m k = Some v"
  by (simp add: hm_wf_def hm_keys_def hm_get_def)

lemma hm_get_SomeD: "hm_get m k = Some v \<Longrightarrow> (k, v) \<in> set m"
  by (simp add: hm_get_def map_of_SomeD)

lemma hm_all_iff:
  "hm_wf m \<Longrightarrow> list_all (\<lambda>(k, v). P k v) m \<longleftrightarrow> (\<forall>k v. hm_get m k = Some v \<longrightarrow> P k v)"
  by (auto simp: list_all_iff dest: hm_get_SomeI hm_get_SomeD)

interpretation hm: finite_map_store hm_get hm_insert hm_remove "\<lambda>m. m" hm_wf
  by unfold_locales
    (simp_all add: hm_get_insert hm_get_remove hm_wf_insert hm_wf_remove,
      simp_all add: hm_wf_def hm_keys_def hm_get_def fun_eq_iff)

lemma hm_total_Nil [simp]: "hm.total w [] = 0"
  by (simp add: hm.total_def)

lemma set_hs_collect [simp]: "set (hs_collect ks) = set ks"
  by (simp add: hs_collect_def)

lemma distinct_hs_collect [simp]: "distinct (hs_collect ks)"
  by (simp add: hs_collect_def)

lemma hm_collect_snoc: "hm_collect (kvs @ [(k, v)]) = hm_insert k v (hm_collect kvs)"
  by (simp add: hm_collect_def)

lemma hm_wf_collect [simp]: "hm_wf (hm_collect kvs)"
  by (induction kvs rule: rev_induct) (auto simp: hm_collect_snoc hm_collect_def)

lemma hm_get_collect: "hm_get (hm_collect kvs) = map_of (rev kvs)"
  by (induction kvs rule: rev_induct)
    (auto simp: hm_collect_snoc hm_get_insert hm_collect_def fun_eq_iff)

lemma hm_get_collect_distinct:
  "distinct (map fst kvs) \<Longrightarrow> hm_get (hm_collect kvs) = map_of kvs"
  by (simp add: hm_get_collect map_of_inject_set rev_map [symmetric])

end
