(* ===== verification/Safe_Arithmetic.thy ===== *)
theory Safe_Arithmetic
  imports Offset_Prelude "HOL-Library.Signed_Division"
begin

text \<open>
  \<open>components/common/src/safe_arithmetic.rs\<close>: the traits \<open>SafeSignedArithmetic\<close> and
  \<open>SafeUnsignedArithmetic\<close>, which mix a signed integer with an unsigned one of the same
  width. The macros instantiate them at 8, 16, 32, 64 and 128 bits; here they are defined
  once for every width \<open>'a::len\<close>. Both the signed and the unsigned type of a width are
  \<open>'a word\<close>: \<open>sint\<close> reads the first and \<open>unat\<close> the second.

  The file first models the checked, saturating and wrapping operations of Rust's primitive
  integers, which the traits call, and then the trait methods. The lemmas say that the
  halving tricks of the source compute the exact mathematical sum or difference whenever
  it fits, and fail or saturate exactly when it does not.
\<close>

named_theorems int_simps \<open>the primitive integer operations read through unat and sint\<close>

type_synonym u8 = "8 word"
type_synonym u32 = "32 word"
type_synonym u64 = "64 word"
type_synonym u128 = "128 word"
type_synonym i128 = "128 word"

section \<open>Primitive integers\<close>

definition fits_u :: "nat \<Rightarrow> int \<Rightarrow> bool" where
  "fits_u n k \<longleftrightarrow> 0 \<le> k \<and> k < 2 ^ n"

definition fits_i :: "nat \<Rightarrow> int \<Rightarrow> bool" where
  "fits_i n k \<longleftrightarrow> - (2 ^ (n - 1)) \<le> k \<and> k < 2 ^ (n - 1)"

definition u_checked_add :: "'a::len word \<Rightarrow> 'a word \<Rightarrow> 'a word option" where
  "u_checked_add a b = (if unat a + unat b < 2 ^ LENGTH('a) then Some (a + b) else None)"

definition u_checked_sub :: "'a::len word \<Rightarrow> 'a word \<Rightarrow> 'a word option" where
  "u_checked_sub a b = (if b \<le> a then Some (a - b) else None)"

definition u_saturating_add :: "'a::len word \<Rightarrow> 'a word \<Rightarrow> 'a word" where
  "u_saturating_add a b = (if unat a + unat b < 2 ^ LENGTH('a) then a + b else - 1)"

definition u_saturating_sub :: "'a::len word \<Rightarrow> 'a word \<Rightarrow> 'a word" where
  "u_saturating_sub a b = (if b \<le> a then a - b else 0)"

definition i_checked_add :: "'a::len word \<Rightarrow> 'a word \<Rightarrow> 'a word option" where
  "i_checked_add a b = (if fits_i LENGTH('a) (sint a + sint b) then Some (a + b) else None)"

definition i_checked_sub :: "'a::len word \<Rightarrow> 'a word \<Rightarrow> 'a word option" where
  "i_checked_sub a b = (if fits_i LENGTH('a) (sint a - sint b) then Some (a - b) else None)"

definition i_checked_neg :: "'a::len word \<Rightarrow> 'a word option" where
  "i_checked_neg a = (if fits_i LENGTH('a) (- sint a) then Some (- a) else None)"

text \<open>\<open>i_clamp\<close> is the saturation of an out-of-range sum at \<open>MIN\<close> or \<open>MAX\<close>.\<close>

definition i_clamp :: "int \<Rightarrow> 'a::len word" where
  "i_clamp k = (if k < - (2 ^ (LENGTH('a) - 1)) then word_of_int (- (2 ^ (LENGTH('a) - 1)))
     else if 2 ^ (LENGTH('a) - 1) \<le> k then word_of_int (2 ^ (LENGTH('a) - 1) - 1)
     else word_of_int k)"

definition i_saturating_add :: "'a::len word \<Rightarrow> 'a word \<Rightarrow> 'a word" where
  "i_saturating_add a b = i_clamp (sint a + sint b)"

definition i_saturating_sub :: "'a::len word \<Rightarrow> 'a word \<Rightarrow> 'a word" where
  "i_saturating_sub a b = i_clamp (sint a - sint b)"

section \<open>SafeSignedArithmetic\<close>

definition safe_abs :: "'a::len word \<Rightarrow> 'a word" where
  "safe_abs s = (if 0 \<le> sint s then s
     else (let s_half = word_of_int (sint s sdiv 2); s_rem = word_of_int (sint s smod 2)
           in (- s_half) * 2 + (- s_rem)))"

definition checked_add_unsigned :: "'a::len word \<Rightarrow> 'a word \<Rightarrow> 'a word option" where
  "checked_add_unsigned s u =
     (let u_half = u div 2; u_rem = u mod 2
      in Option.bind (i_checked_add s u_half) (\<lambda>s1.
         Option.bind (i_checked_add s1 u_half) (\<lambda>s2. i_checked_add s2 u_rem)))"

definition checked_sub_unsigned :: "'a::len word \<Rightarrow> 'a word \<Rightarrow> 'a word option" where
  "checked_sub_unsigned s u =
     (let u_half = u div 2; u_rem = u mod 2
      in Option.bind (i_checked_sub s u_half) (\<lambda>s1.
         Option.bind (i_checked_sub s1 u_half) (\<lambda>s2. i_checked_sub s2 u_rem)))"

definition saturating_add_unsigned :: "'a::len word \<Rightarrow> 'a word \<Rightarrow> 'a word" where
  "saturating_add_unsigned s u =
     (let u_half = u div 2; u_rem = u mod 2
      in i_saturating_add (i_saturating_add (i_saturating_add s u_half) u_half) u_rem)"

definition saturating_sub_unsigned :: "'a::len word \<Rightarrow> 'a word \<Rightarrow> 'a word" where
  "saturating_sub_unsigned s u =
     (let u_half = u div 2; u_rem = u mod 2
      in i_saturating_sub (i_saturating_sub (i_saturating_sub s u_half) u_half) u_rem)"

section \<open>SafeUnsignedArithmetic\<close>

definition checked_add_signed :: "'a::len word \<Rightarrow> 'a word \<Rightarrow> 'a word option" where
  "checked_add_signed u s =
     (if 0 \<le> sint s then u_checked_add u s else u_checked_sub u (safe_abs s))"

definition checked_sub_signed :: "'a::len word \<Rightarrow> 'a word \<Rightarrow> 'a word option" where
  "checked_sub_signed u s =
     (if 0 \<le> sint s then u_checked_sub u s else u_checked_add u (safe_abs s))"

definition saturating_add_signed :: "'a::len word \<Rightarrow> 'a word \<Rightarrow> 'a word" where
  "saturating_add_signed u s =
     (if 0 \<le> sint s then u_saturating_add u s else u_saturating_sub u (safe_abs s))"

definition saturating_sub_signed :: "'a::len word \<Rightarrow> 'a word \<Rightarrow> 'a word" where
  "saturating_sub_signed u s =
     (if 0 \<le> sint s then u_saturating_sub u s else u_saturating_add u (safe_abs s))"

section \<open>The primitive operations compute exactly\<close>

lemma unat_lt_2p: "unat (a :: 'a::len word) < 2 ^ LENGTH('a)"
  by (rule unsigned_less)

lemma fits_i_sint: "fits_i LENGTH('a) (sint (a :: 'a::len word))"
  using sint_ge [of a] sint_lt [of a] by (simp add: fits_i_def)

lemma fits_u_uint: "fits_u LENGTH('a) (uint (a :: 'a::len word))"
  by (simp add: fits_u_def)

lemma fits_u_le: "fits_u n a \<Longrightarrow> 0 \<le> k \<Longrightarrow> k \<le> a \<Longrightarrow> fits_u n k"
  by (simp add: fits_u_def)

lemma fits_i_between: "fits_i n a \<Longrightarrow> a \<le> k \<Longrightarrow> k < 2 ^ (n - 1) \<Longrightarrow> fits_i n k"
  by (simp add: fits_i_def)

lemma sint_of_int_fits:
  "fits_i LENGTH('a) k \<Longrightarrow> sint (word_of_int k :: 'a::len word) = k"
  by (simp add: fits_i_def sint_sbintrunc' signed_take_bit_int_eq_self)

lemma sint_inj: "sint a = sint b \<Longrightarrow> a = (b :: 'a::len word)"
  by (rule signed_word_eqI) simp

lemma u_checked_add_Some [int_simps]:
  fixes a b c :: "'a::len word"
  shows "u_checked_add a b = Some c \<longleftrightarrow> uint c = uint a + uint b"
proof -
  have "u_checked_add a b = Some c \<longleftrightarrow> unat c = unat a + unat b"
    by (auto simp: u_checked_add_def unat_word_ariths word_unat_eq_iff) (metis unat_lt_2p)
  then show ?thesis unfolding uint_nat by linarith
qed

lemma u_checked_add_None [int_simps]:
  fixes a b :: "'a::len word"
  shows "u_checked_add a b = None \<longleftrightarrow> \<not> fits_u LENGTH('a) (uint a + uint b)"
proof -
  have "unat a + unat b < 2 ^ LENGTH('a) \<longleftrightarrow> int (unat a + unat b) < 2 ^ LENGTH('a)"
    by (metis of_nat_less_iff of_nat_numeral of_nat_power)
  then show ?thesis
    by (simp add: u_checked_add_def fits_u_def)
qed

lemma u_checked_sub_Some [int_simps]:
  fixes a b c :: "'a::len word"
  shows "u_checked_sub a b = Some c \<longleftrightarrow> uint c = uint a - uint b"
proof -
  have "uint (a - b) = uint a - uint b" if "b \<le> a"
    using that by (simp add: uint_sub_if' word_le_def)
  then show ?thesis
    by (auto simp: u_checked_sub_def word_le_def word_uint_eq_iff) (metis diff_ge_0_iff_ge uint_ge_0)
qed

lemma u_checked_sub_None [int_simps]:
  "u_checked_sub a b = None \<longleftrightarrow> uint a < uint b"
  by (auto simp: u_checked_sub_def word_le_def)

lemma uint_u_saturating_add:
  fixes a b :: "'a::len word"
  shows "uint (u_saturating_add a b) = min (uint a + uint b) (2 ^ LENGTH('a) - 1)"
proof -
  have "unat (u_saturating_add a b) = min (unat a + unat b) (2 ^ LENGTH('a) - 1)"
    by (auto simp: u_saturating_add_def unat_word_ariths unsigned_minus_1_eq_mask
        mask_eq_exp_minus_1)
  then have "int (unat (u_saturating_add a b)) = int (min (unat a + unat b) (2 ^ LENGTH('a) - 1))"
    by simp
  then show ?thesis by (simp add: of_nat_min of_nat_diff)
qed

lemma uint_u_saturating_sub: "uint (u_saturating_sub a b) = max 0 (uint a - uint b)"
  by (auto simp: u_saturating_sub_def uint_sub_if' word_le_def)

lemma i_checked_add_Some [int_simps]:
  fixes a b c :: "'a::len word"
  shows "i_checked_add a b = Some c \<longleftrightarrow> sint c = sint a + sint b"
proof -
  have "word_of_int (sint a + sint b) = a + b" by simp
  then have "sint (a + b) = sint a + sint b" if "fits_i LENGTH('a) (sint a + sint b)"
    using sint_of_int_fits [OF that] by simp
  then show ?thesis
    using fits_i_sint [of c] by (auto simp: i_checked_add_def intro: sint_inj)
qed

lemma i_checked_add_None [int_simps]:
  fixes a b :: "'a::len word"
  shows "i_checked_add a b = None \<longleftrightarrow> \<not> fits_i LENGTH('a) (sint a + sint b)"
  by (simp add: i_checked_add_def)

lemma i_checked_sub_Some [int_simps]:
  fixes a b c :: "'a::len word"
  shows "i_checked_sub a b = Some c \<longleftrightarrow> sint c = sint a - sint b"
proof -
  have "word_of_int (sint a - sint b) = a - b" by simp
  then have "sint (a - b) = sint a - sint b" if "fits_i LENGTH('a) (sint a - sint b)"
    using sint_of_int_fits [OF that] by simp
  then show ?thesis
    using fits_i_sint [of c] by (auto simp: i_checked_sub_def intro: sint_inj)
qed

lemma i_checked_sub_None [int_simps]:
  fixes a b :: "'a::len word"
  shows "i_checked_sub a b = None \<longleftrightarrow> \<not> fits_i LENGTH('a) (sint a - sint b)"
  by (simp add: i_checked_sub_def)

lemma i_checked_neg_Some [int_simps]:
  fixes a c :: "'a::len word"
  shows "i_checked_neg a = Some c \<longleftrightarrow> sint c = - sint a"
proof -
  have "word_of_int (- sint a) = - a" by simp
  then have "sint (- a) = - sint a" if "fits_i LENGTH('a) (- sint a)"
    using sint_of_int_fits [OF that] by simp
  then show ?thesis
    using fits_i_sint [of c] by (auto simp: i_checked_neg_def intro: sint_inj)
qed

lemma i_checked_neg_None [int_simps]:
  fixes a :: "'a::len word"
  shows "i_checked_neg a = None \<longleftrightarrow> \<not> fits_i LENGTH('a) (- sint a)"
  by (simp add: i_checked_neg_def)

lemma sint_i_clamp:
  "sint (i_clamp k :: 'a::len word) =
     max (- (2 ^ (LENGTH('a) - 1))) (min (2 ^ (LENGTH('a) - 1) - 1) k)"
proof -
  let ?h = "2 ^ (LENGTH('a) - 1) :: int"
  have h: "0 < ?h" by simp
  have lo: "sint (word_of_int (- ?h) :: 'a word) = - ?h"
    and hi: "sint (word_of_int (?h - 1) :: 'a word) = ?h - 1"
    using h by (intro sint_of_int_fits; simp add: fits_i_def del: zero_less_power)+
  have "sint (word_of_int k :: 'a word) = k" if "\<not> k < - ?h" "\<not> ?h \<le> k"
    using that by (intro sint_of_int_fits) (simp add: fits_i_def)
  then show ?thesis
    unfolding i_clamp_def
    by (simp only: lo hi if_distrib [of sint] split: if_split) (use h in linarith)
qed

section \<open>The trait methods compute exactly\<close>

lemma sint_small_word:
  fixes w :: "'a::len word"
  assumes "uint w < 2 ^ (LENGTH('a) - 1)"
  shows "sint w = uint w"
proof -
  have "fits_i LENGTH('a) (uint w)"
    using assms uint_ge_0 [of w] order_trans [of "- (2 ^ (LENGTH('a) - 1))" 0 "uint w"]
    by (simp add: fits_i_def)
  from sint_of_int_fits [OF this] show ?thesis by simp
qed

lemma uint_two: "1 < LENGTH('a::len) \<Longrightarrow> uint (2 :: 'a word) = 2"
  by simp

lemma sint_half_word:
  fixes u :: "'a::len word"
  assumes "1 < LENGTH('a)"
  shows "sint (u div 2) = uint u div 2"
proof -
  have half: "uint (u div 2) = uint u div 2"
    by (simp only: uint_div uint_two [OF assms])
  have "uint u < 2 * 2 ^ (LENGTH('a) - 1)"
    using uint_lt2p [of u] by (metis len_gt_0 power_minus_mult mult.commute)
  then have "uint (u div 2) < 2 ^ (LENGTH('a) - 1)"
    unfolding half by simp
  then show ?thesis
    unfolding half [symmetric] by (rule sint_small_word)
qed

lemma sint_parity_word:
  fixes u :: "'a::len word"
  assumes "1 < LENGTH('a)"
  shows "sint (u mod 2) = uint u mod 2"
proof -
  have rem: "uint (u mod 2) = uint u mod 2"
    by (simp only: uint_mod uint_two [OF assms])
  have "(2 :: int) ^ 1 \<le> 2 ^ (LENGTH('a) - 1)"
    using assms by (intro power_increasing) auto
  moreover have "uint u mod 2 < 2" by simp
  ultimately have "uint (u mod 2) < 2 ^ (LENGTH('a) - 1)"
    unfolding rem by simp
  then show ?thesis
    unfolding rem [symmetric] by (rule sint_small_word)
qed

text \<open>
  The three steps of the source (half, half, remainder) move monotonically from \<open>s\<close> to
  the result, so no intermediate value leaves the range unless the result does.
\<close>

lemma checked_add_unsigned_Some:
  fixes s u c :: "'a::len word"
  assumes "1 < LENGTH('a)"
  shows "checked_add_unsigned s u = Some c \<longleftrightarrow> sint c = sint s + uint u"
proof
  let ?h = "(uint u div 2)" and ?r = "(uint u mod 2)"
  have split: "uint u = ?h + ?h + ?r" and pos: "0 \<le> ?h" "0 \<le> ?r"
    by presburger simp_all
  note parts = sint_half_word [OF assms, of u] sint_parity_word [OF assms, of u]
  {
    assume "checked_add_unsigned s u = Some c"
    then have "sint c = sint s + 2 * ?h + ?r"
      by (auto simp: checked_add_unsigned_def Let_def bind_eq_Some_conv int_simps parts)
    then show "sint c = sint s + uint u"
      using split by linarith
  next
    assume c: "sint c = sint s + uint u"
    have fits: "fits_i LENGTH('a) k" if "sint s \<le> k" "k \<le> sint c" for k
      using that fits_i_sint [of s] fits_i_sint [of c] by (auto simp: fits_i_def)
    obtain s1 where s1: "i_checked_add s (u div 2) = Some s1"
      using fits [of "sint s + ?h"] c split pos
      by (cases "i_checked_add s (u div 2)") (auto simp: int_simps parts)
    obtain s2 where s2: "i_checked_add s1 (u div 2) = Some s2"
      using fits [of "sint s + ?h + ?h"] c split pos s1
      by (cases "i_checked_add s1 (u div 2)") (auto simp: int_simps parts)
    have "i_checked_add s2 (u mod 2) = Some c"
      using c split s1 s2 by (simp add: int_simps parts)
    with s1 s2 show "checked_add_unsigned s u = Some c"
      by (simp add: checked_add_unsigned_def)
  }
qed

lemma checked_sub_unsigned_Some:
  fixes s u c :: "'a::len word"
  assumes "1 < LENGTH('a)"
  shows "checked_sub_unsigned s u = Some c \<longleftrightarrow> sint c = sint s - uint u"
proof
  let ?h = "(uint u div 2)" and ?r = "(uint u mod 2)"
  have split: "uint u = ?h + ?h + ?r" and pos: "0 \<le> ?h" "0 \<le> ?r"
    by presburger simp_all
  note parts = sint_half_word [OF assms, of u] sint_parity_word [OF assms, of u]
  {
    assume "checked_sub_unsigned s u = Some c"
    then have "sint c = sint s - 2 * ?h - ?r"
      by (auto simp: checked_sub_unsigned_def Let_def bind_eq_Some_conv int_simps parts)
    then show "sint c = sint s - uint u"
      using split by linarith
  next
    assume c: "sint c = sint s - uint u"
    have fits: "fits_i LENGTH('a) k" if "sint c \<le> k" "k \<le> sint s" for k
      using that fits_i_sint [of s] fits_i_sint [of c] by (auto simp: fits_i_def)
    obtain s1 where s1: "i_checked_sub s (u div 2) = Some s1"
      using fits [of "sint s - ?h"] c split pos
      by (cases "i_checked_sub s (u div 2)") (auto simp: int_simps parts)
    obtain s2 where s2: "i_checked_sub s1 (u div 2) = Some s2"
      using fits [of "sint s - ?h - ?h"] c split pos s1
      by (cases "i_checked_sub s1 (u div 2)") (auto simp: int_simps parts)
    have "i_checked_sub s2 (u mod 2) = Some c"
      using c split s1 s2 by (simp add: int_simps parts) presburger
    with s1 s2 show "checked_sub_unsigned s u = Some c"
      by (simp add: checked_sub_unsigned_def)
  }
qed

lemma sint_ex_iff_fits: "(\<exists>c :: 'a::len word. sint c = k) \<longleftrightarrow> fits_i LENGTH('a) k"
  using fits_i_sint sint_of_int_fits by metis

lemma uint_ex_iff_fits: "(\<exists>c :: 'a::len word. uint c = k) \<longleftrightarrow> fits_u LENGTH('a) k"
proof
  assume "fits_u LENGTH('a) k"
  then have "uint (word_of_int k :: 'a word) = k"
    by (simp add: fits_u_def uint_word_of_int)
  then show "\<exists>c :: 'a word. uint c = k" ..
qed (auto simp: fits_u_def)

lemma checked_add_unsigned_None:
  fixes s u :: "'a::len word"
  assumes "1 < LENGTH('a)"
  shows "checked_add_unsigned s u = None \<longleftrightarrow> \<not> fits_i LENGTH('a) (sint s + uint u)"
  using checked_add_unsigned_Some [OF assms, of s u] sint_ex_iff_fits
  by (metis not_None_eq)

lemma checked_sub_unsigned_None:
  fixes s u :: "'a::len word"
  assumes "1 < LENGTH('a)"
  shows "checked_sub_unsigned s u = None \<longleftrightarrow> \<not> fits_i LENGTH('a) (sint s - uint u)"
  using checked_sub_unsigned_Some [OF assms, of s u] sint_ex_iff_fits
  by (metis not_None_eq)

text \<open>The saturating methods stop at the bound that the exact result has passed.\<close>

lemma sint_saturating_add_unsigned:
  fixes s u :: "'a::len word"
  assumes "1 < LENGTH('a)"
  shows "sint (saturating_add_unsigned s u) = min (2 ^ (LENGTH('a) - 1) - 1) (sint s + uint u)"
proof -
  have step:
    "sint (i_saturating_add a b) = min (2 ^ (LENGTH('a) - 1) - 1) (sint a + sint b)"
    if "0 \<le> sint b" for a b :: "'a word"
    unfolding i_saturating_add_def sint_i_clamp
    using that fits_i_sint [of a, unfolded fits_i_def] by linarith
  define h r where "h = uint u div 2" and "r = uint u mod 2"
  have split: "uint u = h + h + r" and pos: "0 \<le> h" "0 \<le> r"
    unfolding h_def r_def by presburger simp_all
  have parts: "sint (u div 2) = h" "sint (u mod 2) = r"
    using sint_half_word [OF assms, of u] sint_parity_word [OF assms, of u]
    by (simp_all add: h_def r_def)
  show ?thesis
    unfolding saturating_add_unsigned_def Let_def
    by (simp only: step parts pos split) (use pos in linarith)
qed

lemma sint_saturating_sub_unsigned:
  fixes s u :: "'a::len word"
  assumes "1 < LENGTH('a)"
  shows "sint (saturating_sub_unsigned s u) = max (- (2 ^ (LENGTH('a) - 1))) (sint s - uint u)"
proof -
  have step:
    "sint (i_saturating_sub a b) = max (- (2 ^ (LENGTH('a) - 1))) (sint a - sint b)"
    if "0 \<le> sint b" for a b :: "'a word"
    unfolding i_saturating_sub_def sint_i_clamp
    using that fits_i_sint [of a, unfolded fits_i_def] by linarith
  define h r where "h = uint u div 2" and "r = uint u mod 2"
  have split: "uint u = h + h + r" and pos: "0 \<le> h" "0 \<le> r"
    unfolding h_def r_def by presburger simp_all
  have parts: "sint (u div 2) = h" "sint (u mod 2) = r"
    using sint_half_word [OF assms, of u] sint_parity_word [OF assms, of u]
    by (simp_all add: h_def r_def)
  show ?thesis
    unfolding saturating_sub_unsigned_def Let_def
    by (simp only: step parts pos split) (use pos in linarith)
qed

lemma uint_nonneg_sint:
  fixes s :: "'a::len word"
  assumes "0 \<le> sint s"
  shows "uint s = sint s"
proof -
  have "sint s < 2 ^ LENGTH('a)"
    using sint_lt [of s] power_increasing [of "LENGTH('a) - 1" "LENGTH('a)" "2 :: int"] by linarith
  then have "uint (word_of_int (sint s) :: 'a word) = sint s"
    using assms unfolding uint_word_of_int by (simp only: mod_pos_pos_trivial)
  moreover have "(word_of_int (sint s) :: 'a word) = s" by simp
  ultimately show ?thesis by (simp only:)
qed

text \<open>\<open>safe_abs\<close> is the absolute value also at \<open>MIN\<close>, whose negation does not fit.\<close>

lemma uint_safe_abs:
  fixes s :: "'a::len word"
  shows "uint (safe_abs s) = \<bar>sint s\<bar>"
proof (cases "0 \<le> sint s")
  case True
  then show ?thesis
    by (simp add: safe_abs_def uint_nonneg_sint)
next
  case False
  let ?k = "sint s"
  have "safe_abs s = word_of_int (- (?k sdiv 2 * 2 + ?k smod 2))"
    using False by (simp add: safe_abs_def Let_def)
  also have "?k sdiv 2 * 2 + ?k smod 2 = ?k"
    by (simp add: sdiv_mult_smod_eq)
  finally have "uint (safe_abs s) = (- ?k) mod 2 ^ LENGTH('a)"
    by (simp only: uint_word_of_int)
  moreover have "- ?k < 2 ^ LENGTH('a)"
  proof -
    have "(2 :: int) ^ (LENGTH('a) - 1) < 2 ^ LENGTH('a)"
      by (intro power_strict_increasing) auto
    then show ?thesis using fits_i_sint [of s] unfolding fits_i_def by linarith
  qed
  ultimately show ?thesis using False by simp
qed

lemma checked_add_signed_Some:
  "checked_add_signed u s = Some c \<longleftrightarrow> uint c = uint u + sint s"
  by (simp add: checked_add_signed_def int_simps uint_safe_abs uint_nonneg_sint)

lemma checked_sub_signed_Some:
  "checked_sub_signed u s = Some c \<longleftrightarrow> uint c = uint u - sint s"
  by (simp add: checked_sub_signed_def int_simps uint_safe_abs uint_nonneg_sint)

lemma uint_saturating_add_signed:
  fixes u s :: "'a::len word"
  shows "uint (saturating_add_signed u s) = max 0 (min (2 ^ LENGTH('a) - 1) (uint u + sint s))"
  using uint_lt2p [of u] uint_ge_0 [of u]
  unfolding saturating_add_signed_def
  by (cases "0 \<le> sint s";
      simp only: uint_u_saturating_add uint_u_saturating_sub uint_safe_abs uint_nonneg_sint
        if_True if_False; linarith)

lemma uint_saturating_sub_signed:
  fixes u s :: "'a::len word"
  shows "uint (saturating_sub_signed u s) = max 0 (min (2 ^ LENGTH('a) - 1) (uint u - sint s))"
  using uint_lt2p [of u] uint_ge_0 [of u]
  unfolding saturating_sub_signed_def
  by (cases "0 \<le> sint s";
      simp only: uint_u_saturating_add uint_u_saturating_sub uint_safe_abs uint_nonneg_sint
        if_True if_False; linarith)

end
