(* ===== verification/Funder_Messages.thy ===== *)
theory Funder_Messages
  imports Safe_Arithmetic
begin

text \<open>
  \<open>components/proto/src/funder/messages.rs\<close>, with \<open>proto/src/crypto/mod.rs\<close>,
  \<open>proto/src/consts.rs\<close> and the relay addresses of \<open>proto/src/app_server/messages.rs\<close>:
  the messages that two friends exchange, and the methods that the source attaches to them
  (route validity, fees, names of currencies, the flipped view of a token channel).

  A fixed-size byte array is a word of its width, read as a big-endian number: equality,
  ordering and length are those of the array. A \<open>String\<close> is the list of its UTF-8 bytes,
  so \<open>length\<close> is Rust's \<open>len\<close>. Fields carry a prefix, because several structs of the
  source share a field name.
\<close>

named_theorems message_simps \<open>unfolding of the small message operations\<close>

section \<open>Identifiers and constants\<close>

type_synonym hash_result = "256 word"
type_synonym plain_lock = "256 word"
type_synonym hashed_lock = "256 word"
type_synonym public_key = "256 word"
type_synonym invoice_id = "256 word"
type_synonym signature = "512 word"
type_synonym payment_id = "128 word"
type_synonym rand_value = "128 word"
type_synonym uid = "128 word"

definition MAX_OPERATIONS_IN_BATCH :: nat where
  "MAX_OPERATIONS_IN_BATCH = 16"

definition MAX_ROUTE_LEN :: nat where
  "MAX_ROUTE_LEN = 32"

definition MAX_CURRENCY_LEN :: nat where
  "MAX_CURRENCY_LEN = 16"

definition MAX_NODE_RELAYS :: nat where
  "MAX_NODE_RELAYS = 16"

section \<open>Currencies\<close>

datatype currency = Currency (as_str: string)

datatype currency_error = CurrencyNameTooLong

definition currency_try_from :: "string \<Rightarrow> (currency_error, currency) result" where
  "currency_try_from s =
     (if length s > MAX_CURRENCY_LEN then Err CurrencyNameTooLong else Ok (Currency s))"

text \<open>\<open>derive(Ord)\<close> on the single field: the order of the bytes of the name.\<close>

instantiation currency :: linorder
begin

definition less_eq_currency :: "currency \<Rightarrow> currency \<Rightarrow> bool" where
  "a \<le> b \<longleftrightarrow> as_str a \<le> as_str b"

definition less_currency :: "currency \<Rightarrow> currency \<Rightarrow> bool" where
  "a < b \<longleftrightarrow> as_str a < as_str b"

instance
  by standard (auto simp: less_eq_currency_def less_currency_def currency.expand)

end

section \<open>Relay addresses\<close>

record 'b named_relay_address =
  nra_public_key :: public_key
  nra_address :: 'b
  nra_name :: string

record 'b relay_address =
  ra_public_key :: public_key
  ra_address :: 'b

definition relay_address_from :: "'b named_relay_address \<Rightarrow> 'b relay_address" where
  "relay_address_from nra =
     \<lparr> ra_public_key = nra_public_key nra, ra_address = nra_address nra \<rparr>"

section \<open>Operations on a token channel\<close>

text \<open>\<open>FriendsRoute\<close> is a struct with one field that dereferences to it.\<close>

type_synonym friends_route = "public_key list"

record request_send_funds_op =
  rq_request_id :: uid
  rq_src_hashed_lock :: hashed_lock
  rq_route :: friends_route
  rq_dest_payment :: u128
  rq_total_dest_payment :: u128
  rq_invoice_id :: invoice_id
  rq_left_fees :: u128

record response_send_funds_op =
  rs_request_id :: uid
  rs_dest_hashed_lock :: hashed_lock
  rs_is_complete :: bool
  rs_rand_nonce :: rand_value
  rs_signature :: signature

record unsigned_response_send_funds_op =
  urs_request_id :: uid
  urs_dest_hashed_lock :: hashed_lock
  urs_is_complete :: bool
  urs_rand_nonce :: rand_value

record cancel_send_funds_op =
  cn_request_id :: uid

record collect_send_funds_op =
  co_request_id :: uid
  co_src_plain_lock :: plain_lock
  co_dest_plain_lock :: plain_lock

datatype friend_tc_op =
    RequestSendFunds request_send_funds_op
  | ResponseSendFunds response_send_funds_op
  | CancelSendFunds cancel_send_funds_op
  | CollectSendFunds collect_send_funds_op

definition unsigned_response :: "response_send_funds_op \<Rightarrow> unsigned_response_send_funds_op" where
  "unsigned_response r =
     \<lparr> urs_request_id = rs_request_id r, urs_dest_hashed_lock = rs_dest_hashed_lock r,
       urs_is_complete = rs_is_complete r, urs_rand_nonce = rs_rand_nonce r \<rparr>"

record commit =
  cm_response_hash :: hash_result
  cm_src_plain_lock :: plain_lock
  cm_dest_hashed_lock :: hashed_lock
  cm_dest_payment :: u128
  cm_total_dest_payment :: u128
  cm_invoice_id :: invoice_id
  cm_currency :: currency
  cm_signature :: signature

record receipt =
  rc_response_hash :: hash_result
  rc_invoice_id :: invoice_id
  rc_currency :: currency
  rc_src_plain_lock :: plain_lock
  rc_dest_plain_lock :: plain_lock
  rc_is_complete :: bool
  rc_dest_payment :: u128
  rc_total_dest_payment :: u128
  rc_signature :: signature

datatype transaction_stage = Request | Response hashed_lock bool

record pending_transaction =
  pt_request_id :: uid
  pt_route :: friends_route
  pt_dest_payment :: u128
  pt_total_dest_payment :: u128
  pt_invoice_id :: invoice_id
  pt_left_fees :: u128
  pt_src_hashed_lock :: hashed_lock
  pt_stage :: transaction_stage

section \<open>Balances and counters\<close>

record balance_info =
  bi_balance :: i128
  bi_local_pending_debt :: u128
  bi_remote_pending_debt :: u128

record currency_balance_info =
  cbi_currency :: currency
  cbi_balance_info :: balance_info

record mc_info =
  mi_local_public_key :: public_key
  mi_remote_public_key :: public_key
  mi_balances :: "currency_balance_info list"

record counters_info =
  ci_inconsistency_counter :: u64
  ci_move_token_counter :: u128

record token_info =
  ti_mc :: mc_info
  ti_counters :: counters_info

text \<open>
  The flipped view is the one that the other side of the channel has. Flipping a balance
  of \<open>i128::MIN\<close> panics.
\<close>

definition balance_info_flip :: "balance_info \<Rightarrow> ('e, balance_info) result" where
  "balance_info_flip b =
     and_then (unwrap (i_checked_neg (bi_balance b))) (\<lambda>neg.
     Ok \<lparr> bi_balance = neg, bi_local_pending_debt = bi_remote_pending_debt b,
          bi_remote_pending_debt = bi_local_pending_debt b \<rparr>)"

fun flip_balances :: "currency_balance_info list \<Rightarrow> ('e, currency_balance_info list) result" where
  "flip_balances [] = Ok []"
| "flip_balances (c # cs) =
     and_then (balance_info_flip (cbi_balance_info c)) (\<lambda>b.
     and_then (flip_balances cs) (\<lambda>bs.
     Ok (\<lparr> cbi_currency = cbi_currency c, cbi_balance_info = b \<rparr> # bs)))"

definition mc_info_flip :: "mc_info \<Rightarrow> ('e, mc_info) result" where
  "mc_info_flip m =
     and_then (flip_balances (mi_balances m)) (\<lambda>bs.
     Ok \<lparr> mi_local_public_key = mi_remote_public_key m,
          mi_remote_public_key = mi_local_public_key m, mi_balances = bs \<rparr>)"

definition token_info_flip :: "token_info \<Rightarrow> ('e, token_info) result" where
  "token_info_flip t =
     and_then (mc_info_flip (ti_mc t)) (\<lambda>m. Ok \<lparr> ti_mc = m, ti_counters = ti_counters t \<rparr>)"

section \<open>Messages between friends\<close>

record currency_operations =
  cop_currency :: currency
  cop_operations :: "friend_tc_op list"

record 'b move_token =
  mt_old_token :: signature
  mt_currencies_operations :: "currency_operations list"
  mt_opt_local_relays :: "'b relay_address list option"
  mt_opt_active_currencies :: "currency list option"
  mt_info_hash :: hash_result
  mt_rand_nonce :: rand_value
  mt_new_token :: signature

record 'b unsigned_move_token =
  umt_old_token :: signature
  umt_currencies_operations :: "currency_operations list"
  umt_opt_local_relays :: "'b relay_address list option"
  umt_opt_active_currencies :: "currency list option"
  umt_info_hash :: hash_result
  umt_rand_nonce :: rand_value

definition move_token_into_unsigned :: "'b move_token \<Rightarrow> 'b unsigned_move_token" where
  "move_token_into_unsigned m =
     \<lparr> umt_old_token = mt_old_token m,
       umt_currencies_operations = mt_currencies_operations m,
       umt_opt_local_relays = mt_opt_local_relays m,
       umt_opt_active_currencies = mt_opt_active_currencies m,
       umt_info_hash = mt_info_hash m, umt_rand_nonce = mt_rand_nonce m \<rparr>"

record currency_balance =
  cb_currency :: currency
  cb_balance :: i128

record reset_terms =
  rt_reset_token :: signature
  rt_inconsistency_counter :: u64
  rt_balance_for_reset :: "currency_balance list"

record 'b move_token_request =
  mtr_move_token :: "'b move_token"
  mtr_token_wanted :: bool

datatype 'b friend_message =
    MoveTokenRequest "'b move_token_request"
  | InconsistencyError reset_terms

section \<open>Routes\<close>

text \<open>\<open>HashSet::insert\<close> reports whether the element is new; the list is the set.\<close>

fun no_duplicates_loop :: "'a list \<Rightarrow> 'a list \<Rightarrow> bool" where
  "no_duplicates_loop seen [] = True"
| "no_duplicates_loop seen (item # rest) =
     (if item \<in> set seen then False else no_duplicates_loop (item # seen) rest)"

definition no_duplicates :: "'a list \<Rightarrow> bool" where
  "no_duplicates array = no_duplicates_loop [] array"

definition is_route_valid :: "'a list \<Rightarrow> bool" where
  "is_route_valid route =
     (if length route < 2 then False
      else if length route > MAX_ROUTE_LEN then False
      else if last route = route ! 0
           then (if length route > 2 then no_duplicates (drop 1 route) else False)
           else no_duplicates route)"

definition is_route_part_valid :: "'a list \<Rightarrow> bool" where
  "is_route_part_valid route =
     (if length route \<ge> MAX_ROUTE_LEN then False else no_duplicates route)"

definition index_to_pk :: "friends_route \<Rightarrow> nat \<Rightarrow> public_key option" where
  "index_to_pk route index = (if index < length route then Some (route ! index) else None)"

section \<open>Statuses and rates\<close>

datatype friend_status = Enabled | Disabled

datatype requests_status = Open | Closed

fun requests_status_is_open :: "requests_status \<Rightarrow> bool" where
  "requests_status_is_open Open = True"
| "requests_status_is_open Closed = False"

record rate =
  rate_mul :: u32
  rate_add :: u32

definition rate_new :: rate where
  "rate_new = \<lparr> rate_mul = 0, rate_add = 0 \<rparr>"

text \<open>\<open>BigUint\<close> is unbounded; \<open>to_u128\<close> fails above \<open>u128::MAX\<close>.\<close>

definition to_u128 :: "nat \<Rightarrow> u128 option" where
  "to_u128 n = (if n < 2 ^ 128 then Some (of_nat n) else None)"

definition calc_fee :: "rate \<Rightarrow> u128 \<Rightarrow> u128 option" where
  "calc_fee r dest_payment =
     (let mul_res = (unat dest_payment * unat (rate_mul r)) div 2 ^ 32;
          res = mul_res + unat (rate_add r)
      in to_u128 res)"

definition max_payable :: "rate \<Rightarrow> u128 \<Rightarrow> ('e, u128) result" where
  "max_payable r capacity =
     (let long_add = ucast (rate_add r) in
      case u_checked_sub capacity long_add of
        None \<Rightarrow> Ok 0
      | Some c_minus_n \<Rightarrow>
          (let numerator = unat c_minus_n * 2 ^ 32;
               denominator = unat (rate_mul r) + 1 * 2 ^ 32
           in unwrap (to_u128 (numerator div denominator))))"

section \<open>Routes are valid exactly when they repeat no node\<close>

lemma no_duplicates_loop_iff:
  "no_duplicates_loop seen xs \<longleftrightarrow> distinct xs \<and> set xs \<inter> set seen = {}"
  by (induction xs arbitrary: seen) auto

lemma no_duplicates_iff [message_simps]: "no_duplicates xs \<longleftrightarrow> distinct xs"
  by (simp add: no_duplicates_def no_duplicates_loop_iff)

text \<open>
  The accepted routes are the two forms of the documentation: paths without repetition, and
  single cycles that return to the first node.
\<close>

lemma is_route_valid_iff:
  "is_route_valid route \<longleftrightarrow>
     2 \<le> length route \<and> length route \<le> MAX_ROUTE_LEN \<and>
     (distinct route \<or> (2 < length route \<and> hd route = last route \<and> distinct (tl route)))"
proof (cases route)
  case (Cons x xs)
  show ?thesis
    by (cases xs) (auto simp: Cons is_route_valid_def message_simps)
qed (simp add: is_route_valid_def)

lemma is_route_valid_drop:
  assumes "is_route_valid route" and "1 \<le> k"
  shows "is_route_part_valid (drop k route)"
proof -
  obtain j where k: "k = Suc j" using assms(2) by (cases k) auto
  have "distinct (tl route)" and "length route \<le> MAX_ROUTE_LEN"
    using assms(1) by (auto simp: is_route_valid_iff distinct_tl)
  then show ?thesis
    using assms(1)
    by (auto simp: k is_route_part_valid_def message_simps drop_Suc is_route_valid_iff)
qed

section \<open>Fees\<close>

lemma to_u128_Some: "to_u128 n = Some w \<longleftrightarrow> unat w = n"
  using unat_lt_2p [of w] by (auto simp: to_u128_def unat_of_nat word_unat_eq_iff)

lemma calc_fee_Some:
  "calc_fee r p = Some f \<longleftrightarrow>
     uint f = (uint p * uint (rate_mul r)) div 2 ^ 32 + uint (rate_add r)"
proof -
  have "calc_fee r p = Some f \<longleftrightarrow>
      int (unat f) = int ((unat p * unat (rate_mul r)) div 2 ^ 32 + unat (rate_add r))"
    unfolding calc_fee_def Let_def to_u128_Some by linarith
  then show ?thesis by (simp add: zdiv_int)
qed

lemma calc_fee_mono:
  assumes "calc_fee r p = Some f" and "calc_fee r q = Some g" and "p \<le> q"
  shows "f \<le> g"
proof -
  have "uint p * uint (rate_mul r) \<le> uint q * uint (rate_mul r)"
    using assms(3) by (simp add: word_le_def mult_right_mono)
  then have "(uint p * uint (rate_mul r)) div 2 ^ 32 \<le> (uint q * uint (rate_mul r)) div 2 ^ 32"
    by (rule zdiv_mono1) simp
  then show ?thesis
    using assms(1,2) by (simp add: calc_fee_Some word_le_def)
qed

lemma max_payable_eq:
  fixes r :: rate and c :: u128
  defines "m \<equiv> uint (rate_mul r)" and "n \<equiv> uint (rate_add r)"
  shows "\<exists>x. max_payable r c = Ok x \<and>
    uint x = (if uint c < n then 0 else ((uint c - n) * 2 ^ 32) div (m + 2 ^ 32))"
proof (cases "u_checked_sub c (ucast (rate_add r) :: u128)")
  case None
  moreover from None have "uint c < n"
    by (simp add: int_simps n_def uint_up_ucast is_up)
  ultimately show ?thesis
    by (simp add: max_payable_def)
next
  case (Some d)
  then have d: "uint d = uint c - n"
    by (simp add: int_simps n_def uint_up_ucast is_up)
  let ?q = "unat d * 2 ^ 32 div (unat (rate_mul r) + 1 * 2 ^ 32)"
  have "?q \<le> unat d * 2 ^ 32 div 2 ^ 32"
    by (rule div_le_mono2) auto
  then have "?q < 2 ^ 128"
    using unat_lt_2p [of d] by simp
  then obtain x where x: "to_u128 ?q = Some x"
    by (simp add: to_u128_def)
  then have "int (unat x) = int ?q"
    by (simp only: to_u128_Some)
  then have "uint x = (uint d * 2 ^ 32) div (m + 2 ^ 32)"
    by (simp add: zdiv_int m_def)
  moreover have "max_payable r c = Ok x"
    using Some x by (simp add: max_payable_def Let_def)
  ultimately show ?thesis
    using d uint_ge_0 [of d] by auto
qed

lemma fee_bracket:
  fixes d m :: int
  assumes "0 \<le> d" and "0 \<le> m"
  defines "x \<equiv> (d * 2 ^ 32) div (m + 2 ^ 32)"
  shows "x + (x * m) div 2 ^ 32 \<le> d"
    and "y + (y * m) div 2 ^ 32 \<le> d \<Longrightarrow> y \<le> x + 1"
proof -
  have pos: "0 < m + 2 ^ 32" using assms(2) by simp
  define r where "r = (d * 2 ^ 32) mod (m + 2 ^ 32)"
  have "d * 2 ^ 32 = x * (m + 2 ^ 32) + r"
    unfolding x_def r_def by (simp only: div_mult_mod_eq)
  moreover have "0 \<le> r" "r < m + 2 ^ 32"
    unfolding r_def using pos by simp_all
  ultimately have le: "x * (m + 2 ^ 32) \<le> d * 2 ^ 32"
    and gt: "d * 2 ^ 32 < (x + 1) * (m + 2 ^ 32)"
    by (simp_all add: distrib_right)
  have "x * m \<le> (d - x) * 2 ^ 32"
    using le by (simp add: algebra_simps)
  then have "(x * m) div 2 ^ 32 \<le> ((d - x) * 2 ^ 32) div 2 ^ 32"
    by (rule zdiv_mono1) simp
  then show "x + (x * m) div 2 ^ 32 \<le> d" by simp
  show "y \<le> x + 1" if y: "y + (y * m) div 2 ^ 32 \<le> d"
  proof (rule ccontr)
    assume "\<not> y \<le> x + 1"
    then have "(x + 1) * (m + 2 ^ 32) \<le> (y - 1) * (m + 2 ^ 32)"
      using pos by (intro mult_right_mono) auto
    moreover have "y * m < (y * m) div 2 ^ 32 * 2 ^ 32 + 2 ^ 32"
      by simp
    moreover have "(y * m) div 2 ^ 32 * 2 ^ 32 \<le> (d - y) * 2 ^ 32"
      using y by simp
    ultimately show False
      using gt assms(2) by (simp add: algebra_simps)
  qed
qed



text \<open>
  The returned amount is not always the maximum that the documentation of
  \<open>max_payable\<close> announces: with a multiplier of one and no flat rate, a capacity of one
  credit can carry a payment of one credit, whose fee rounds down to zero, and the method
  returns zero.
\<close>

theorem max_payable_not_maximal:
  "max_payable \<lparr> rate_mul = 1, rate_add = 0 \<rparr> 1 = Ok 0 \<and>
   calc_fee \<lparr> rate_mul = 1, rate_add = 0 \<rparr> 1 = Some 0"
  by (simp add: max_payable_def calc_fee_def to_u128_def u_checked_sub_def)

section \<open>The flipped view\<close>

lemma balance_info_flip_flip:
  "balance_info_flip b = Ok c \<Longrightarrow> balance_info_flip c = Ok b"
  by (cases b) (auto simp: balance_info_flip_def rust_simps int_simps)

lemma flip_balances_flip:
  "flip_balances bs = Ok cs \<Longrightarrow> flip_balances cs = Ok bs"
proof (induction bs arbitrary: cs)
  case (Cons b bs)
  then show ?case
    by (cases b) (auto simp: rust_simps dest: balance_info_flip_flip)
qed auto

lemma token_info_flip_flip:
  "token_info_flip t = Ok u \<Longrightarrow> token_info_flip u = Ok t"
  by (cases t, cases "ti_mc t")
    (auto simp: token_info_flip_def mc_info_flip_def rust_simps dest: flip_balances_flip)

end
