(* ===== verification/Canonical.thy ===== *)
theory Canonical
  imports Funder_Messages
begin

text \<open>
  \<open>components/signature/src/canonical.rs\<close>: the byte strings that are hashed and signed. Each
  \<open>impl CanonicalSerialize\<close> is one \<open>ser_\<close> function. The serialisation of the address
  type \<open>B\<close>, which the source leaves generic, is an argument.

  The locale \<open>prefix_code\<close> is the contract that makes a serialisation unambiguous inside a
  longer buffer: no code word is a prefix of another. It is shown for fixed-width values,
  routes and all token channel operations. A currency is written without its length
  and does not satisfy it.
\<close>

unbundle bit_operations_syntax

section \<open>Byte strings\<close>

text \<open>The bytes of a fixed array, and \<open>write_u64\<close> and \<open>write_u128\<close> in big-endian order.\<close>

definition to_be_bytes :: "'a::len word \<Rightarrow> u8 list" where
  "to_be_bytes w = map (\<lambda>i. ucast (drop_bit (8 * i) w)) (rev [0..<LENGTH('a) div 8])"

definition string_bytes :: "string \<Rightarrow> u8 list" where
  "string_bytes s = map (\<lambda>c. of_nat (of_char c)) s"

definition ser_option :: "('a \<Rightarrow> u8 list) \<Rightarrow> 'a option \<Rightarrow> u8 list" where
  "ser_option ser x = (case x of None \<Rightarrow> [0] | Some t \<Rightarrow> 1 # ser t)"

text \<open>\<open>usize_to_u64\<close> never fails, because no vector has \<open>2 ^ 64\<close> elements.\<close>

definition ser_vec :: "('a \<Rightarrow> u8 list) \<Rightarrow> 'a list \<Rightarrow> u8 list" where
  "ser_vec ser xs = to_be_bytes (of_nat (length xs) :: u64) @ concat (map ser xs)"

definition ser_bool :: "bool \<Rightarrow> u8 list" where
  "ser_bool b = (if b then [1] else [0])"

definition ser_currency :: "currency \<Rightarrow> u8 list" where
  "ser_currency c = string_bytes (as_str c)"

definition ser_friends_route :: "friends_route \<Rightarrow> u8 list" where
  "ser_friends_route r = to_be_bytes (of_nat (length r) :: u64) @ concat (map to_be_bytes r)"

definition ser_request_send_funds_op :: "request_send_funds_op \<Rightarrow> u8 list" where
  "ser_request_send_funds_op r =
     to_be_bytes (rq_request_id r) @ to_be_bytes (rq_src_hashed_lock r) @
     ser_friends_route (rq_route r) @ to_be_bytes (rq_dest_payment r) @
     to_be_bytes (rq_total_dest_payment r) @ to_be_bytes (rq_invoice_id r) @
     to_be_bytes (rq_left_fees r)"

definition ser_response_send_funds_op :: "response_send_funds_op \<Rightarrow> u8 list" where
  "ser_response_send_funds_op r =
     to_be_bytes (rs_request_id r) @ to_be_bytes (rs_dest_hashed_lock r) @
     ser_bool (rs_is_complete r) @ to_be_bytes (rs_rand_nonce r) @ to_be_bytes (rs_signature r)"

definition ser_cancel_send_funds_op :: "cancel_send_funds_op \<Rightarrow> u8 list" where
  "ser_cancel_send_funds_op c = to_be_bytes (cn_request_id c)"

definition ser_collect_send_funds_op :: "collect_send_funds_op \<Rightarrow> u8 list" where
  "ser_collect_send_funds_op c =
     to_be_bytes (co_request_id c) @ to_be_bytes (co_src_plain_lock c) @
     to_be_bytes (co_dest_plain_lock c)"

fun ser_friend_tc_op :: "friend_tc_op \<Rightarrow> u8 list" where
  "ser_friend_tc_op (RequestSendFunds r) = 0 # ser_request_send_funds_op r"
| "ser_friend_tc_op (ResponseSendFunds r) = 1 # ser_response_send_funds_op r"
| "ser_friend_tc_op (CancelSendFunds c) = 2 # ser_cancel_send_funds_op c"
| "ser_friend_tc_op (CollectSendFunds c) = 3 # ser_collect_send_funds_op c"

definition ser_currency_operations :: "currency_operations \<Rightarrow> u8 list" where
  "ser_currency_operations c =
     ser_currency (cop_currency c) @ ser_vec ser_friend_tc_op (cop_operations c)"

definition ser_relay_address :: "('b \<Rightarrow> u8 list) \<Rightarrow> 'b relay_address \<Rightarrow> u8 list" where
  "ser_relay_address ser_b r = to_be_bytes (ra_public_key r) @ ser_b (ra_address r)"

definition ser_balance_info :: "balance_info \<Rightarrow> u8 list" where
  "ser_balance_info b =
     to_be_bytes (bi_balance b) @ to_be_bytes (bi_local_pending_debt b) @
     to_be_bytes (bi_remote_pending_debt b)"

definition ser_currency_balance_info :: "currency_balance_info \<Rightarrow> u8 list" where
  "ser_currency_balance_info c =
     ser_currency (cbi_currency c) @ ser_balance_info (cbi_balance_info c)"

definition ser_mc_info :: "mc_info \<Rightarrow> u8 list" where
  "ser_mc_info m =
     to_be_bytes (mi_local_public_key m) @ to_be_bytes (mi_remote_public_key m) @
     ser_vec ser_currency_balance_info (mi_balances m)"

definition ser_counters_info :: "counters_info \<Rightarrow> u8 list" where
  "ser_counters_info c =
     to_be_bytes (ci_inconsistency_counter c) @ to_be_bytes (ci_move_token_counter c)"

definition ser_token_info :: "token_info \<Rightarrow> u8 list" where
  "ser_token_info t = ser_mc_info (ti_mc t) @ ser_counters_info (ti_counters t)"

text \<open>
  The operations whose lists have a length that a \<open>usize\<close> can hold, which every value
  of the program has.
\<close>

fun tc_op_sized :: "friend_tc_op \<Rightarrow> bool" where
  "tc_op_sized (RequestSendFunds r) = (length (rq_route r) < 2 ^ 64)"
| "tc_op_sized _ = True"

section \<open>Prefix codes\<close>

locale prefix_code =
  fixes enc :: "'a \<Rightarrow> u8 list"
    and valid :: "'a \<Rightarrow> bool"
  assumes prefix_free:
    "enc x @ xs = enc y @ ys \<Longrightarrow> valid x \<Longrightarrow> valid y \<Longrightarrow> x = y \<and> xs = ys"
begin

lemma enc_inject: "valid x \<Longrightarrow> valid y \<Longrightarrow> enc x = enc y \<Longrightarrow> x = y"
  using prefix_free [of x "[]" y "[]"] by simp

lemma enc_append_iff:
  "valid x \<Longrightarrow> valid y \<Longrightarrow> enc x @ xs = enc y @ ys \<longleftrightarrow> x = y \<and> xs = ys"
  using prefix_free [of x xs y ys] by auto

lemma concat_prefix_free:
  assumes "concat (map enc as) @ xs = concat (map enc bs) @ ys"
    and "length as = length bs" and "list_all valid as" and "list_all valid bs"
  shows "as = bs \<and> xs = ys"
  using assms(2,1,3,4)
  by (induction as bs rule: list_induct2) (auto simp: enc_append_iff)

end

text \<open>A fixed width and injectivity give a prefix code.\<close>

locale fixed_width_code =
  fixes enc :: "'a \<Rightarrow> u8 list"
    and width :: nat
  assumes length_enc: "length (enc x) = width"
    and enc_inj: "enc x = enc y \<Longrightarrow> x = y"

sublocale fixed_width_code \<subseteq> prefix_code enc "\<lambda>_. True"
  by unfold_locales (auto simp: length_enc dest: enc_inj)

lemma length_to_be_bytes [simp]: "length (to_be_bytes (w :: 'a::len word)) = LENGTH('a) div 8"
  by (simp add: to_be_bytes_def)

lemma to_be_bytes_inj:
  fixes v w :: "'a::len word"
  assumes "8 dvd LENGTH('a)" and "to_be_bytes v = to_be_bytes w"
  shows "v = w"
proof (rule bit_word_eqI)
  fix n assume n: "n < LENGTH('a)"
  let ?byte = "\<lambda>w :: 'a word. ucast (drop_bit (8 * (n div 8)) w) :: u8"
  have "n div 8 < LENGTH('a) div 8"
    using n assms(1) by (metis div_less_iff_less_mult dvd_div_mult_self zero_less_numeral)
  then have "?byte v = ?byte w"
    using assms(2) by (auto simp: to_be_bytes_def)
  then have "bit (?byte v) (n mod 8) = bit (?byte w) (n mod 8)"
    by simp
  then show "bit v n = bit w n"
    by (simp add: bit_simps)
qed

interpretation be64: fixed_width_code "to_be_bytes :: 64 word \<Rightarrow> _" 8
  by unfold_locales (auto intro: to_be_bytes_inj)

interpretation be128: fixed_width_code "to_be_bytes :: 128 word \<Rightarrow> _" 16
  by unfold_locales (auto intro: to_be_bytes_inj)

interpretation be256: fixed_width_code "to_be_bytes :: 256 word \<Rightarrow> _" 32
  by unfold_locales (auto intro: to_be_bytes_inj)

interpretation be512: fixed_width_code "to_be_bytes :: 512 word \<Rightarrow> _" 64
  by unfold_locales (auto intro: to_be_bytes_inj)

interpretation bool: fixed_width_code ser_bool 1
  by unfold_locales (auto simp: ser_bool_def split: if_splits)

lemmas word_code_iffs =
  be64.enc_append_iff [simplified] be128.enc_append_iff [simplified]
  be256.enc_append_iff [simplified] be512.enc_append_iff [simplified]
  bool.enc_append_iff [simplified]
  inj_eq [OF injI, OF be64.enc_inj] inj_eq [OF injI, OF be128.enc_inj]
  inj_eq [OF injI, OF be256.enc_inj] inj_eq [OF injI, OF be512.enc_inj]

lemma of_nat_length_inj:
  "of_nat m = (of_nat n :: u64) \<Longrightarrow> m < 2 ^ 64 \<Longrightarrow> n < 2 ^ 64 \<Longrightarrow> m = n"
  by (drule arg_cong [where f = unat]) (simp add: unat_of_nat)

context prefix_code
begin

lemma vec_prefix_free:
  assumes "ser_vec enc as @ xs = ser_vec enc bs @ ys"
    and "length as < 2 ^ 64" and "length bs < 2 ^ 64" and "list_all valid as" and "list_all valid bs"
  shows "as = bs \<and> xs = ys"
proof -
  have "of_nat (length as) = (of_nat (length bs) :: u64)"
    and rest: "concat (map enc as) @ xs = concat (map enc bs) @ ys"
    using assms(1) by (simp_all add: ser_vec_def word_code_iffs)
  from of_nat_length_inj [OF this(1) assms(2,3)] show ?thesis
    by (rule concat_prefix_free [OF rest _ assms(4,5)])
qed

end

lemma ser_friends_route_eq: "ser_friends_route r = ser_vec to_be_bytes r"
  by (simp add: ser_friends_route_def ser_vec_def)

interpretation route: prefix_code ser_friends_route "\<lambda>r. length r < 2 ^ 64"
  by unfold_locales
    (auto simp: ser_friends_route_eq dest: be256.vec_prefix_free simp: list_all_iff)

interpretation tc_op: prefix_code ser_friend_tc_op tc_op_sized
proof
  fix x y xs ys
  assume "ser_friend_tc_op x @ xs = ser_friend_tc_op y @ ys" "tc_op_sized x" "tc_op_sized y"
  then show "x = y \<and> xs = ys"
    by (cases x; cases y)
      (auto simp: ser_request_send_funds_op_def ser_response_send_funds_op_def
        ser_cancel_send_funds_op_def ser_collect_send_funds_op_def word_code_iffs
        route.enc_append_iff
        intro: request_send_funds_op.equality response_send_funds_op.equality
          cancel_send_funds_op.equality collect_send_funds_op.equality)
qed

end
