(* ===== verification/Signatures.thy ===== *)
theory Signatures
  imports Canonical
begin

text \<open>
  \<open>components/signature/src/signature_buff.rs\<close> and \<open>verify.rs\<close>, with the parts of
  \<open>components/crypto/src\<close> they call (\<open>hash.rs\<close>, \<open>hash_lock.rs\<close>, \<open>identity.rs\<close>), and
  \<open>components/funder/src/handler/prepare.rs\<close>, which makes receipts and commits.

  The hash function and the signature scheme belong to the crates \<open>sha2\<close> and
  \<open>ed25519_dalek\<close>. They are fields of the record \<open>env\<close>, together with the serialisation
  of the address type \<open>B\<close>, and every definition that reaches them takes the record as an
  argument.
\<close>

section \<open>The environment\<close>

record 'b env =
  sha512_trunc256 :: "u8 list \<Rightarrow> hash_result"
  dalek_public_key_ok :: "public_key \<Rightarrow> bool"
  dalek_signature_ok :: "signature \<Rightarrow> bool"
  dalek_verify :: "public_key \<Rightarrow> u8 list \<Rightarrow> signature \<Rightarrow> bool"
  env_ser_b :: "'b \<Rightarrow> u8 list"

definition sha_512_256 :: "'b env \<Rightarrow> u8 list \<Rightarrow> hash_result" where
  "sha_512_256 env data = sha512_trunc256 env data"

definition hash_lock :: "'b env \<Rightarrow> plain_lock \<Rightarrow> hashed_lock" where
  "hash_lock env plain = sha512_trunc256 env (to_be_bytes plain)"

datatype ordering = Less | Equal | Greater

definition cmp :: "'a::linorder \<Rightarrow> 'a \<Rightarrow> ordering" where
  "cmp a b = (if a < b then Less else if a = b then Equal else Greater)"

definition compare_public_key :: "'b env \<Rightarrow> public_key \<Rightarrow> public_key \<Rightarrow> ordering" where
  "compare_public_key env pk1 pk2 =
     cmp (sha_512_256 env (to_be_bytes pk1)) (sha_512_256 env (to_be_bytes pk2))"

definition verify_signature :: "'b env \<Rightarrow> u8 list \<Rightarrow> public_key \<Rightarrow> signature \<Rightarrow> bool" where
  "verify_signature env message pk sig =
     (if \<not> dalek_public_key_ok env pk then False
      else if \<not> dalek_signature_ok env sig then False
      else dalek_verify env pk message sig)"

section \<open>Signature buffers\<close>

definition FUNDS_RESPONSE_PREFIX :: "u8 list" where
  "FUNDS_RESPONSE_PREFIX = string_bytes ''FUND_RESPONSE''"

definition TOKEN_NEXT :: "u8 list" where
  "TOKEN_NEXT = string_bytes ''NEXT''"

definition create_response_signature_buffer ::
  "'b env \<Rightarrow> currency \<Rightarrow> unsigned_response_send_funds_op \<Rightarrow> pending_transaction \<Rightarrow> u8 list"
where
  "create_response_signature_buffer env cur response pt =
     to_be_bytes (sha_512_256 env FUNDS_RESPONSE_PREFIX) @
     to_be_bytes (sha_512_256 env
       (to_be_bytes (pt_request_id pt) @ to_be_bytes (urs_rand_nonce response))) @
     to_be_bytes (pt_src_hashed_lock pt) @
     to_be_bytes (urs_dest_hashed_lock response) @
     ser_bool (urs_is_complete response) @
     to_be_bytes (pt_dest_payment pt) @
     to_be_bytes (pt_total_dest_payment pt) @
     to_be_bytes (pt_invoice_id pt) @
     ser_currency cur"

definition operations_hash :: "'b env \<Rightarrow> 'b unsigned_move_token \<Rightarrow> hash_result" where
  "operations_hash env mt =
     sha_512_256 env (ser_vec ser_currency_operations (umt_currencies_operations mt))"

definition local_address_hash :: "'b env \<Rightarrow> 'b unsigned_move_token \<Rightarrow> hash_result" where
  "local_address_hash env mt =
     sha_512_256 env
       (ser_option (ser_vec (ser_relay_address (env_ser_b env))) (umt_opt_local_relays mt))"

definition hash_token_info :: "'b env \<Rightarrow> token_info \<Rightarrow> hash_result" where
  "hash_token_info env t = sha_512_256 env (ser_token_info t)"

definition prefix_hash :: "'b env \<Rightarrow> 'b unsigned_move_token \<Rightarrow> hash_result" where
  "prefix_hash env mt =
     sha_512_256 env
       (to_be_bytes (umt_old_token mt) @
        ser_vec ser_currency_operations (umt_currencies_operations mt) @
        ser_option (ser_vec (ser_relay_address (env_ser_b env))) (umt_opt_local_relays mt) @
        ser_option (ser_vec ser_currency) (umt_opt_active_currencies mt))"

definition move_token_signature_buff :: "'b env \<Rightarrow> 'b unsigned_move_token \<Rightarrow> u8 list" where
  "move_token_signature_buff env mt =
     to_be_bytes (sha_512_256 env TOKEN_NEXT) @ to_be_bytes (prefix_hash env mt) @
     to_be_bytes (umt_info_hash mt) @ to_be_bytes (umt_rand_nonce mt)"

section \<open>Verification\<close>

definition verify_receipt :: "'b env \<Rightarrow> receipt \<Rightarrow> public_key \<Rightarrow> bool" where
  "verify_receipt env r pk =
     verify_signature env
       (to_be_bytes (sha_512_256 env FUNDS_RESPONSE_PREFIX) @
        to_be_bytes (rc_response_hash r) @
        to_be_bytes (hash_lock env (rc_src_plain_lock r)) @
        to_be_bytes (hash_lock env (rc_dest_plain_lock r)) @
        ser_bool (rc_is_complete r) @
        to_be_bytes (rc_dest_payment r) @
        to_be_bytes (rc_total_dest_payment r) @
        to_be_bytes (rc_invoice_id r) @
        ser_currency (rc_currency r))
       pk (rc_signature r)"

definition verify_commit_signature :: "'b env \<Rightarrow> commit \<Rightarrow> public_key \<Rightarrow> bool" where
  "verify_commit_signature env c pk =
     verify_signature env
       (to_be_bytes (sha_512_256 env FUNDS_RESPONSE_PREFIX) @
        to_be_bytes (cm_response_hash c) @
        to_be_bytes (hash_lock env (cm_src_plain_lock c)) @
        to_be_bytes (cm_dest_hashed_lock c) @
        ser_bool True @
        to_be_bytes (cm_dest_payment c) @
        to_be_bytes (cm_total_dest_payment c) @
        to_be_bytes (cm_invoice_id c) @
        ser_currency (cm_currency c))
       pk (cm_signature c)"

definition verify_commit :: "'b env \<Rightarrow> commit \<Rightarrow> public_key \<Rightarrow> bool" where
  "verify_commit env c pk =
     (if cm_total_dest_payment c < cm_dest_payment c then False
      else verify_commit_signature env c pk)"

definition verify_move_token :: "'b env \<Rightarrow> 'b move_token \<Rightarrow> public_key \<Rightarrow> bool" where
  "verify_move_token env mt pk =
     verify_signature env (move_token_signature_buff env (move_token_into_unsigned mt))
       pk (mt_new_token mt)"

section \<open>Receipts and commits\<close>

definition prepare_receipt ::
  "'b env \<Rightarrow> currency \<Rightarrow> collect_send_funds_op \<Rightarrow> response_send_funds_op \<Rightarrow>
   pending_transaction \<Rightarrow> ('e, receipt) result"
where
  "prepare_receipt env cur collect response pt =
     (let response_hash = sha_512_256 env
            (to_be_bytes (pt_request_id pt) @ to_be_bytes (rs_rand_nonce response)) in
      case pt_stage pt of
        Request \<Rightarrow> Panic
      | Response dest_hashed_lock is_complete \<Rightarrow>
          Ok \<lparr> rc_response_hash = response_hash,
               rc_invoice_id = pt_invoice_id pt,
               rc_currency = cur,
               rc_src_plain_lock = co_src_plain_lock collect,
               rc_dest_plain_lock = co_dest_plain_lock collect,
               rc_is_complete = is_complete,
               rc_dest_payment = pt_dest_payment pt,
               rc_total_dest_payment = pt_total_dest_payment pt,
               rc_signature = rs_signature response \<rparr>)"

definition prepare_commit ::
  "'b env \<Rightarrow> currency \<Rightarrow> response_send_funds_op \<Rightarrow> pending_transaction \<Rightarrow> plain_lock \<Rightarrow>
   ('e, commit) result"
where
  "prepare_commit env cur response pt src_plain_lock =
     and_then (assert_that (rs_is_complete response)) (\<lambda>_.
     Ok \<lparr> cm_response_hash = sha_512_256 env
            (to_be_bytes (pt_request_id pt) @ to_be_bytes (rs_rand_nonce response)),
          cm_src_plain_lock = src_plain_lock,
          cm_dest_hashed_lock = rs_dest_hashed_lock response,
          cm_dest_payment = pt_dest_payment pt,
          cm_total_dest_payment = pt_total_dest_payment pt,
          cm_invoice_id = pt_invoice_id pt,
          cm_currency = cur,
          cm_signature = rs_signature response \<rparr>)"

section \<open>A concrete environment\<close>

text \<open>
  An environment with a polynomial checksum for the hash and a keyed checksum for the
  signature. It satisfies what the theorems assume of the environment, and makes their
  hypotheses computable.
\<close>

definition sample_hash :: "u8 list \<Rightarrow> hash_result" where
  "sample_hash bs = foldl (\<lambda>h b. h * 257 + ucast b + 1) 0 bs"

definition sample_sign :: "public_key \<Rightarrow> u8 list \<Rightarrow> signature" where
  "sample_sign pk msg = ucast (sample_hash msg) + push_bit 256 (ucast pk)"

definition sample_env :: "unit env" where
  "sample_env =
     \<lparr> sha512_trunc256 = sample_hash, dalek_public_key_ok = (\<lambda>_. True),
       dalek_signature_ok = (\<lambda>_. True),
       dalek_verify = (\<lambda>pk msg sig. sig = sample_sign pk msg), env_ser_b = (\<lambda>_. []) \<rparr>"

section \<open>What a response signature binds\<close>

lemma ser_currency_inject [simp]: "ser_currency a = ser_currency b \<longleftrightarrow> a = b"
proof
  assume "ser_currency a = ser_currency b"
  moreover have "inj (\<lambda>c :: char. of_nat (of_char c) :: u8)"
  proof (rule injI)
    fix c d :: char assume "of_nat (of_char c) = (of_nat (of_char d) :: u8)"
    then have "unat (of_nat (of_char c) :: u8) = unat (of_nat (of_char d) :: u8)"
      by (simp only:)
    then show "c = d" by (simp add: unat_of_nat)
  qed
  ultimately show "a = b"
    by (cases a; cases b) (simp add: ser_currency_def string_bytes_def inj_map_eq_map)
qed simp

lemma verify_sample_sign [simp]: "verify_signature sample_env msg pk (sample_sign pk msg)"
  by (simp add: verify_signature_def sample_env_def)

lemma cmp_less_iff [simp]: "cmp a b = Less \<longleftrightarrow> a < b"
  by (simp add: cmp_def)

lemmas signature_buffer_defs =
  create_response_signature_buffer_def verify_receipt_def verify_commit_signature_def

lemma response_buffer_stage [simp]:
  "create_response_signature_buffer env cur u (pt \<lparr> pt_stage := st \<rparr>) =
     create_response_signature_buffer env cur u pt"
  by (simp add: create_response_signature_buffer_def)

lemma verify_receipt_prepared:
  assumes "verify_signature env
      (create_response_signature_buffer env cur (unsigned_response response) pt)
      pk (rs_signature response)"
    and "pt_stage pt = Response (rs_dest_hashed_lock response) (rs_is_complete response)"
    and "hash_lock env (co_src_plain_lock collect) = pt_src_hashed_lock pt"
    and "hash_lock env (co_dest_plain_lock collect) = rs_dest_hashed_lock response"
  shows "\<exists>r. prepare_receipt env cur collect response pt = Ok r \<and> verify_receipt env r pk"
  using assms
  by (simp add: prepare_receipt_def signature_buffer_defs unsigned_response_def)

text \<open>
  C26. The buffer that is signed in a response determines every value that it protects:
  equal buffers come from the same hash of request id and nonce, the same two hash locks,
  completeness flag, amounts, invoice and currency.
\<close>

theorem response_buffer_binds:
  assumes "create_response_signature_buffer env cur u pt =
    create_response_signature_buffer env cur' u' pt'"
  shows "sha_512_256 env (to_be_bytes (pt_request_id pt) @ to_be_bytes (urs_rand_nonce u)) =
      sha_512_256 env (to_be_bytes (pt_request_id pt') @ to_be_bytes (urs_rand_nonce u')) \<and>
    pt_src_hashed_lock pt = pt_src_hashed_lock pt' \<and>
    urs_dest_hashed_lock u = urs_dest_hashed_lock u' \<and>
    urs_is_complete u = urs_is_complete u' \<and>
    pt_dest_payment pt = pt_dest_payment pt' \<and>
    pt_total_dest_payment pt = pt_total_dest_payment pt' \<and>
    pt_invoice_id pt = pt_invoice_id pt' \<and> cur = cur'"
  using assms by (simp add: create_response_signature_buffer_def word_code_iffs)

theorem response_buffer_binds_witness:
  "let pt = \<lparr> pt_request_id = 1, pt_route = [7], pt_dest_payment = 10,
         pt_total_dest_payment = 20, pt_invoice_id = 2, pt_left_fees = 3,
         pt_src_hashed_lock = 4, pt_stage = Request \<rparr>;
       pt' = pt \<lparr> pt_route := [8, 7], pt_left_fees := 5 \<rparr>;
       u = \<lparr> urs_request_id = 1, urs_dest_hashed_lock = 5, urs_is_complete = True,
         urs_rand_nonce = 6 \<rparr>
   in create_response_signature_buffer sample_env (Currency ''FST'') u pt =
        create_response_signature_buffer sample_env (Currency ''FST'') u pt' \<and>
      pt_dest_payment pt = pt_dest_payment pt'"
proof -
  define pt u where "pt = \<lparr> pt_request_id = 1, pt_route = [7], pt_dest_payment = 10,
      pt_total_dest_payment = 20, pt_invoice_id = 2, pt_left_fees = 3,
      pt_src_hashed_lock = 4, pt_stage = Request \<rparr>"
    and "u = \<lparr> urs_request_id = 1, urs_dest_hashed_lock = 5, urs_is_complete = True,
      urs_rand_nonce = 6 \<rparr>"
  have eq: "create_response_signature_buffer sample_env (Currency ''FST'') u pt =
      create_response_signature_buffer sample_env (Currency ''FST'') u
        (pt \<lparr> pt_route := [8, 7], pt_left_fees := 5 \<rparr>)"
    by (simp add: create_response_signature_buffer_def)
  from eq response_buffer_binds [OF eq] show ?thesis
    unfolding Let_def pt_def u_def by blast
qed

text \<open>
  C25. A commit prepared from a complete response whose signature is valid passes
  \<open>verify_commit\<close>, when the payment does not exceed the total. The receipt that the buyer
  prepares once the destination lock is opened then passes \<open>verify_receipt\<close> for the same
  key: the two verifications are in sync.
\<close>

theorem prepared_commit_and_receipt_verify:
  assumes "verify_signature env
      (create_response_signature_buffer env cur (unsigned_response response) pt)
      pk (rs_signature response)"
    and "rs_is_complete response"
    and "pt_dest_payment pt \<le> pt_total_dest_payment pt"
    and "hash_lock env src_plain = pt_src_hashed_lock pt"
    and "hash_lock env dest_plain = rs_dest_hashed_lock response"
    and "pt_stage pt = Response (rs_dest_hashed_lock response) True"
  shows "(\<exists>c. prepare_commit env cur response pt src_plain = Ok c \<and> verify_commit env c pk) \<and>
    (\<exists>r. prepare_receipt env cur
        \<lparr> co_request_id = pt_request_id pt, co_src_plain_lock = src_plain,
          co_dest_plain_lock = dest_plain \<rparr> response pt = Ok r \<and> verify_receipt env r pk)"
proof
  show "\<exists>c. prepare_commit env cur response pt src_plain = Ok c \<and> verify_commit env c pk"
    using assms
    by (simp add: prepare_commit_def assert_that_def verify_commit_def signature_buffer_defs
        unsigned_response_def not_less)
  show "\<exists>r. prepare_receipt env cur
        \<lparr> co_request_id = pt_request_id pt, co_src_plain_lock = src_plain,
          co_dest_plain_lock = dest_plain \<rparr> response pt = Ok r \<and> verify_receipt env r pk"
    using assms by (intro verify_receipt_prepared) simp_all
qed

theorem prepared_commit_and_receipt_verify_witness:
  "let pt = \<lparr> pt_request_id = 1, pt_route = [7], pt_dest_payment = 10,
         pt_total_dest_payment = 20, pt_invoice_id = 2, pt_left_fees = 3,
         pt_src_hashed_lock = hash_lock sample_env 4,
         pt_stage = Response (hash_lock sample_env 5) True \<rparr>;
       u = \<lparr> urs_request_id = 1, urs_dest_hashed_lock = hash_lock sample_env 5,
         urs_is_complete = True, urs_rand_nonce = 6 \<rparr>;
       response = \<lparr> rs_request_id = 1, rs_dest_hashed_lock = hash_lock sample_env 5,
         rs_is_complete = True, rs_rand_nonce = 6,
         rs_signature = sample_sign 7
           (create_response_signature_buffer sample_env (Currency ''FST'') u pt) \<rparr>
   in (\<exists>c. prepare_commit sample_env (Currency ''FST'') response pt 4 = Ok c \<and>
         verify_commit sample_env c 7) \<and>
      (\<exists>r. prepare_receipt sample_env (Currency ''FST'')
          \<lparr> co_request_id = pt_request_id pt, co_src_plain_lock = 4, co_dest_plain_lock = 5 \<rparr>
          response pt = Ok r \<and> verify_receipt sample_env r 7)"
  unfolding Let_def
  by (rule prepared_commit_and_receipt_verify) (simp_all add: unsigned_response_def)

text \<open>
  The serialisation of the operations of one currency in a move token message is
  unambiguous: two lists of operations with the same bytes are the same list.
\<close>

theorem operations_serialization_injective:
  assumes "ser_vec ser_friend_tc_op ops = ser_vec ser_friend_tc_op ops'"
    and "length ops < 2 ^ 64" and "length ops' < 2 ^ 64"
    and "list_all tc_op_sized ops" and "list_all tc_op_sized ops'"
  shows "ops = ops'"
  using tc_op.vec_prefix_free [of ops "[]" ops' "[]"] assms by simp

theorem operations_serialization_injective_witness:
  "ser_vec ser_friend_tc_op [CancelSendFunds \<lparr> cn_request_id = 3 \<rparr>] \<noteq>
   ser_vec ser_friend_tc_op [CancelSendFunds \<lparr> cn_request_id = 4 \<rparr>]"
  using operations_serialization_injective
    [of "[CancelSendFunds \<lparr> cn_request_id = 3 \<rparr>]" "[CancelSendFunds \<lparr> cn_request_id = 4 \<rparr>]"]
  by auto


end
