(* ===== verification/Funder_Types.thy ===== *)
theory Funder_Types
  imports Signatures
begin

text \<open>
  \<open>components/funder/src/types.rs\<close>: the constructors of signed messages. The identity
  server is reached through \<open>request_signature\<close>, whose answer is the argument \<open>sign\<close>.
\<close>

definition sign_move_token ::
  "'b env \<Rightarrow> (u8 list \<Rightarrow> signature) \<Rightarrow> 'b unsigned_move_token \<Rightarrow> 'b move_token"
where
  "sign_move_token env sign u =
     \<lparr> mt_old_token = umt_old_token u,
       mt_currencies_operations = umt_currencies_operations u,
       mt_opt_local_relays = umt_opt_local_relays u,
       mt_opt_active_currencies = umt_opt_active_currencies u,
       mt_info_hash = umt_info_hash u,
       mt_rand_nonce = umt_rand_nonce u,
       mt_new_token = sign (move_token_signature_buff env u) \<rparr>"

definition create_response_send_funds ::
  "'b env \<Rightarrow> (u8 list \<Rightarrow> signature) \<Rightarrow> currency \<Rightarrow> pending_transaction \<Rightarrow> hashed_lock \<Rightarrow> bool \<Rightarrow>
   rand_value \<Rightarrow> response_send_funds_op"
where
  "create_response_send_funds env sign cur pt dest_hashed_lock is_complete rand_nonce =
     (let u = \<lparr> urs_request_id = pt_request_id pt, urs_dest_hashed_lock = dest_hashed_lock,
                urs_is_complete = is_complete, urs_rand_nonce = rand_nonce \<rparr>
      in \<lparr> rs_request_id = urs_request_id u, rs_dest_hashed_lock = urs_dest_hashed_lock u,
           rs_is_complete = urs_is_complete u, rs_rand_nonce = urs_rand_nonce u,
           rs_signature = sign (create_response_signature_buffer env cur u pt) \<rparr>)"

definition create_cancel_send_funds :: "uid \<Rightarrow> cancel_send_funds_op" where
  "create_cancel_send_funds request_id = \<lparr> cn_request_id = request_id \<rparr>"

definition create_pending_transaction :: "request_send_funds_op \<Rightarrow> pending_transaction" where
  "create_pending_transaction r =
     \<lparr> pt_request_id = rq_request_id r, pt_route = rq_route r,
       pt_dest_payment = rq_dest_payment r, pt_total_dest_payment = rq_total_dest_payment r,
       pt_invoice_id = rq_invoice_id r, pt_left_fees = rq_left_fees r,
       pt_src_hashed_lock = rq_src_hashed_lock r, pt_stage = Request \<rparr>"

record move_token_hashed =
  mth_prefix_hash :: hash_result
  mth_token_info :: token_info
  mth_rand_nonce :: rand_value
  mth_new_token :: signature

definition create_unsigned_move_token ::
  "'b env \<Rightarrow> currency_operations list \<Rightarrow> 'b relay_address list option \<Rightarrow> currency list option \<Rightarrow>
   token_info \<Rightarrow> signature \<Rightarrow> rand_value \<Rightarrow> 'b unsigned_move_token"
where
  "create_unsigned_move_token env ops opt_local_relays opt_active_currencies info old_token nonce =
     \<lparr> umt_old_token = old_token, umt_currencies_operations = ops,
       umt_opt_local_relays = opt_local_relays,
       umt_opt_active_currencies = opt_active_currencies,
       umt_info_hash = hash_token_info env info, umt_rand_nonce = nonce \<rparr>"

definition create_hashed :: "'b env \<Rightarrow> 'b move_token \<Rightarrow> token_info \<Rightarrow> move_token_hashed" where
  "create_hashed env mt info =
     \<lparr> mth_prefix_hash = prefix_hash env (move_token_into_unsigned mt),
       mth_token_info = info, mth_rand_nonce = mt_rand_nonce mt,
       mth_new_token = mt_new_token mt \<rparr>"

text \<open>Signing and forgetting the signature gives the unsigned message back.\<close>

lemma unsigned_sign_move_token [simp]:
  "move_token_into_unsigned (sign_move_token env sign u) = u"
  by (simp add: move_token_into_unsigned_def sign_move_token_def)

lemma verify_sign_move_token:
  assumes "\<And>msg. verify_signature env msg pk (sign msg)"
  shows "verify_move_token env (sign_move_token env sign u) pk"
  using assms by (simp add: verify_move_token_def) (simp add: sign_move_token_def)

end
