(* ===== verification/Mutable_State.thy ===== *)
theory Mutable_State
  imports Offset_Prelude
begin

text \<open>
  \<open>components/common/src/mutable_state.rs\<close>: the pattern by which every stateful component of
  the funder is written. A component applies a mutation to its working copy and at the same
  time pushes it on a list, and the list is later applied to the original, or to the copy
  in the database. The locale \<open>mutable_state\<close> shows once that the pushed mutations replay
  to the working copy.
\<close>

text \<open>The idiom \<open>state.mutate(&m); mutations.push(m);\<close> of the source.\<close>

definition mutate_push ::
  "('m \<Rightarrow> 's \<Rightarrow> ('e, 's) result) \<Rightarrow> 'm \<Rightarrow> 's \<times> 'm list \<Rightarrow> ('e, 's \<times> 'm list) result"
where
  "mutate_push mutate m sm =
     (case sm of (s, ms) \<Rightarrow> and_then (mutate m s) (\<lambda>s'. Ok (s', ms @ [m])))"

text \<open>Applying a list of mutations in order.\<close>

definition replay :: "('m \<Rightarrow> 's \<Rightarrow> ('e, 's) result) \<Rightarrow> 'm list \<Rightarrow> 's \<Rightarrow> ('e, 's) result" where
  "replay mutate ms s = fold_r mutate ms s"

lemma replay_Nil [simp]: "replay mutate [] s = Ok s"
  by (simp add: replay_def)

lemma replay_Cons [simp]: "replay mutate (m # ms) s = and_then (mutate m s) (replay mutate ms)"
  by (simp add: replay_def [abs_def])

lemma replay_append: "replay mutate (ms @ ns) s = and_then (replay mutate ms s) (replay mutate ns)"
  by (simp add: replay_def [abs_def] fold_r_append)

lemma mutate_push_Ok_iff [rust_simps]:
  "mutate_push mutate m (s, ms) = Ok (s', ms') \<longleftrightarrow> mutate m s = Ok s' \<and> ms' = ms @ [m]"
  by (auto simp: mutate_push_def rust_simps)

lemma mutate_push_Panic_iff [rust_simps]:
  "mutate_push mutate m (s, ms) = Panic \<longleftrightarrow> mutate m s = Panic"
  by (auto simp: mutate_push_def rust_simps)

lemma mutate_push_Err_iff [rust_simps]:
  "mutate_push mutate m (s, ms) = Err e \<longleftrightarrow> mutate m s = Err e"
  by (auto simp: mutate_push_def rust_simps)

text \<open>A successful replay does not depend on the error type, which a mutation never uses.\<close>

lemma replay_cast:
  assumes "replay mutate ms s = Ok s'"
    and "\<And>m s s'. mutate m s = Ok s' \<Longrightarrow> mutate' m s = Ok s'"
  shows "replay mutate' ms s = Ok s'"
  using assms(1) by (induction ms arbitrary: s) (auto simp: rust_simps dest: assms(2))

locale mutable_state =
  fixes mutate :: "'m \<Rightarrow> 's \<Rightarrow> ('e, 's) result"
    and wf :: "'s \<Rightarrow> bool"
  assumes mutate_wf: "mutate m s = Ok s' \<Longrightarrow> wf s \<Longrightarrow> wf s'"
begin

lemma replay_wf: "replay mutate ms s = Ok s' \<Longrightarrow> wf s \<Longrightarrow> wf s'"
  unfolding replay_def by (erule fold_r_invariant) (auto intro: mutate_wf)

lemma push_replay:
  assumes "mutate_push mutate m (s, ms) = Ok (s', ms')" and "replay mutate ms s0 = Ok s"
  shows "replay mutate ms' s0 = Ok s'"
  using assms by (auto simp: replay_append rust_simps)

lemma push_all_replay:
  assumes "fold_r (\<lambda>x. mutate_push mutate (f x)) xs (s, ms) = Ok (s', ms')"
    and "replay mutate ms s0 = Ok s"
  shows "replay mutate ms' s0 = Ok s'"
  using assms
proof (induction xs arbitrary: s ms)
  case (Cons x xs)
  then obtain s1 ms1 where 1: "mutate_push mutate (f x) (s, ms) = Ok (s1, ms1)"
    "fold_r (\<lambda>x. mutate_push mutate (f x)) xs (s1, ms1) = Ok (s', ms')"
    by (auto simp: rust_simps)
  show ?case
    by (rule Cons.IH [OF 1(2) push_replay [OF 1(1) Cons.prems(2)]])
qed simp

end

end
