(* ===== verification/Mutual_Credit.thy ===== *)
theory Mutual_Credit
  imports Funder_Types Mutable_State
begin

text \<open>
  \<open>components/funder/src/mutual_credit/types.rs\<close>: the state that two friends keep about one
  currency, and the mutations of that state. The invariant \<open>mc_inv\<close> says that the two
  pending debts are exactly the credits frozen by the pending transactions, and that the
  credits the remote side owes, with those it has frozen, stay within an \<open>i128\<close>.
\<close>

named_theorems mc_simps \<open>fields of a mutual credit after a mutation\<close>

record mc_idents =
  idt_local_public_key :: public_key
  idt_remote_public_key :: public_key

record mc_balance =
  mcb_balance :: i128
  mcb_local_pending_debt :: u128
  mcb_remote_pending_debt :: u128

definition mc_balance_new :: "i128 \<Rightarrow> mc_balance" where
  "mc_balance_new b =
     \<lparr> mcb_balance = b, mcb_local_pending_debt = 0, mcb_remote_pending_debt = 0 \<rparr>"

type_synonym pending_map = "(uid, pending_transaction) hash_map"

record mc_pending_transactions =
  mpt_local :: pending_map
  mpt_remote :: pending_map

definition mc_pending_transactions_new :: mc_pending_transactions where
  "mc_pending_transactions_new = \<lparr> mpt_local = [], mpt_remote = [] \<rparr>"

record mutual_credit =
  mc_idents :: mc_idents
  mc_currency :: currency
  mc_balance :: mc_balance
  mc_pending_transactions :: mc_pending_transactions

datatype mc_mutation =
    SetBalance i128
  | InsertLocalPendingTransaction pending_transaction
  | RemoveLocalPendingTransaction uid
  | SetLocalPendingTransactionStage uid transaction_stage
  | InsertRemotePendingTransaction pending_transaction
  | RemoveRemotePendingTransaction uid
  | SetRemotePendingTransactionStage uid transaction_stage
  | SetLocalPendingDebt u128
  | SetRemotePendingDebt u128

definition mutual_credit_new :: "public_key \<Rightarrow> public_key \<Rightarrow> currency \<Rightarrow> i128 \<Rightarrow> mutual_credit" where
  "mutual_credit_new local_pk remote_pk cur balance =
     \<lparr> mc_idents = \<lparr> idt_local_public_key = local_pk, idt_remote_public_key = remote_pk \<rparr>,
       mc_currency = cur,
       mc_balance = mc_balance_new balance,
       mc_pending_transactions = mc_pending_transactions_new \<rparr>"

definition balance_for_reset :: "mutual_credit \<Rightarrow> ('e, i128) result" where
  "balance_for_reset mc =
     unwrap (checked_add_unsigned (mcb_balance (mc_balance mc))
       (mcb_remote_pending_debt (mc_balance mc)))"

definition set_balance :: "i128 \<Rightarrow> mutual_credit \<Rightarrow> mutual_credit" where
  "set_balance b mc = mc \<lparr> mc_balance := (mc_balance mc) \<lparr> mcb_balance := b \<rparr> \<rparr>"

definition set_local :: "pending_map \<Rightarrow> mutual_credit \<Rightarrow> mutual_credit" where
  "set_local m mc =
     mc \<lparr> mc_pending_transactions := (mc_pending_transactions mc) \<lparr> mpt_local := m \<rparr> \<rparr>"

definition set_remote :: "pending_map \<Rightarrow> mutual_credit \<Rightarrow> mutual_credit" where
  "set_remote m mc =
     mc \<lparr> mc_pending_transactions := (mc_pending_transactions mc) \<lparr> mpt_remote := m \<rparr> \<rparr>"

abbreviation mc_local :: "mutual_credit \<Rightarrow> pending_map" where
  "mc_local mc \<equiv> mpt_local (mc_pending_transactions mc)"

abbreviation mc_remote :: "mutual_credit \<Rightarrow> pending_map" where
  "mc_remote mc \<equiv> mpt_remote (mc_pending_transactions mc)"

definition insert_local_pending_transaction ::
  "pending_transaction \<Rightarrow> mutual_credit \<Rightarrow> mutual_credit" where
  "insert_local_pending_transaction p mc =
     set_local (hm_insert (pt_request_id p) p (mc_local mc)) mc"

definition remove_local_pending_transaction :: "uid \<Rightarrow> mutual_credit \<Rightarrow> mutual_credit" where
  "remove_local_pending_transaction request_id mc =
     set_local (hm_remove request_id (mc_local mc)) mc"

definition insert_remote_pending_transaction ::
  "pending_transaction \<Rightarrow> mutual_credit \<Rightarrow> mutual_credit" where
  "insert_remote_pending_transaction p mc =
     set_remote (hm_insert (pt_request_id p) p (mc_remote mc)) mc"

definition remove_remote_pending_transaction :: "uid \<Rightarrow> mutual_credit \<Rightarrow> mutual_credit" where
  "remove_remote_pending_transaction request_id mc =
     set_remote (hm_remove request_id (mc_remote mc)) mc"

definition set_local_pending_debt :: "u128 \<Rightarrow> mutual_credit \<Rightarrow> mutual_credit" where
  "set_local_pending_debt d mc =
     mc \<lparr> mc_balance := (mc_balance mc) \<lparr> mcb_local_pending_debt := d \<rparr> \<rparr>"

definition set_remote_pending_debt :: "u128 \<Rightarrow> mutual_credit \<Rightarrow> mutual_credit" where
  "set_remote_pending_debt d mc =
     mc \<lparr> mc_balance := (mc_balance mc) \<lparr> mcb_remote_pending_debt := d \<rparr> \<rparr>"

definition set_local_pending_transaction_stage ::
  "uid \<Rightarrow> transaction_stage \<Rightarrow> mutual_credit \<Rightarrow> ('e, mutual_credit) result" where
  "set_local_pending_transaction_stage request_id stage mc =
     and_then (unwrap (hm_get (mc_local mc) request_id)) (\<lambda>p.
     Ok (set_local (hm_insert request_id (p \<lparr> pt_stage := stage \<rparr>) (mc_local mc)) mc))"

definition set_remote_pending_transaction_stage ::
  "uid \<Rightarrow> transaction_stage \<Rightarrow> mutual_credit \<Rightarrow> ('e, mutual_credit) result" where
  "set_remote_pending_transaction_stage request_id stage mc =
     and_then (unwrap (hm_get (mc_remote mc) request_id)) (\<lambda>p.
     Ok (set_remote (hm_insert request_id (p \<lparr> pt_stage := stage \<rparr>) (mc_remote mc)) mc))"

fun mc_mutate :: "mc_mutation \<Rightarrow> mutual_credit \<Rightarrow> ('e, mutual_credit) result" where
  "mc_mutate (SetBalance b) mc = Ok (set_balance b mc)"
| "mc_mutate (InsertLocalPendingTransaction p) mc = Ok (insert_local_pending_transaction p mc)"
| "mc_mutate (RemoveLocalPendingTransaction u) mc = Ok (remove_local_pending_transaction u mc)"
| "mc_mutate (SetLocalPendingTransactionStage u st) mc =
     set_local_pending_transaction_stage u st mc"
| "mc_mutate (InsertRemotePendingTransaction p) mc = Ok (insert_remote_pending_transaction p mc)"
| "mc_mutate (RemoveRemotePendingTransaction u) mc = Ok (remove_remote_pending_transaction u mc)"
| "mc_mutate (SetRemotePendingTransactionStage u st) mc =
     set_remote_pending_transaction_stage u st mc"
| "mc_mutate (SetLocalPendingDebt d) mc = Ok (set_local_pending_debt d mc)"
| "mc_mutate (SetRemotePendingDebt d) mc = Ok (set_remote_pending_debt d mc)"

section \<open>The invariant\<close>

text \<open>The credits that a pending transaction freezes.\<close>

definition frozen :: "pending_transaction \<Rightarrow> int" where
  "frozen p = uint (pt_dest_payment p) + uint (pt_left_fees p)"

definition pending_ok :: "uid \<Rightarrow> pending_transaction \<Rightarrow> bool" where
  "pending_ok k p \<longleftrightarrow>
     pt_request_id p = k \<and> pt_dest_payment p \<le> pt_total_dest_payment p \<and>
     is_route_part_valid (pt_route p)"

definition mc_wf :: "mutual_credit \<Rightarrow> bool" where
  "mc_wf mc \<longleftrightarrow> hm_wf (mc_local mc) \<and> hm_wf (mc_remote mc)"

definition pending_map_ok :: "pending_map \<Rightarrow> u128 \<Rightarrow> bool" where
  "pending_map_ok m debt \<longleftrightarrow>
     hm_wf m \<and> uint debt = hm.total frozen m \<and> list_all (\<lambda>(k, p). pending_ok k p) m"

definition mc_inv :: "mutual_credit \<Rightarrow> bool" where
  "mc_inv mc \<longleftrightarrow>
     pending_map_ok (mc_local mc) (mcb_local_pending_debt (mc_balance mc)) \<and>
     pending_map_ok (mc_remote mc) (mcb_remote_pending_debt (mc_balance mc)) \<and>
     sint (mcb_balance (mc_balance mc)) + uint (mcb_remote_pending_debt (mc_balance mc)) < 2 ^ 127"

section \<open>Lemmas\<close>

lemmas mc_field_defs =
  set_balance_def set_local_def set_remote_def insert_local_pending_transaction_def
  remove_local_pending_transaction_def insert_remote_pending_transaction_def
  remove_remote_pending_transaction_def set_local_pending_debt_def set_remote_pending_debt_def
  set_local_pending_transaction_stage_def set_remote_pending_transaction_stage_def

lemma frozen_nonneg [simp]: "0 \<le> frozen p"
  by (simp add: frozen_def)

lemma create_pending_transaction_simps [simp]:
  "pt_request_id (create_pending_transaction r) = rq_request_id r"
  "pt_route (create_pending_transaction r) = rq_route r"
  "pt_stage (create_pending_transaction r) = Request"
  "frozen (create_pending_transaction r) = uint (rq_dest_payment r) + uint (rq_left_fees r)"
  "pending_ok k (create_pending_transaction r) \<longleftrightarrow> rq_request_id r = k \<and>
     rq_dest_payment r \<le> rq_total_dest_payment r \<and> is_route_part_valid (rq_route r)"
  by (simp_all add: create_pending_transaction_def frozen_def pending_ok_def)

lemma frozen_stage [simp]: "frozen (p \<lparr> pt_stage := st \<rparr>) = frozen p"
  by (simp add: frozen_def)

lemma pending_ok_stage [simp]: "pending_ok k (p \<lparr> pt_stage := st \<rparr>) = pending_ok k p"
  by (simp add: pending_ok_def)

lemma mc_balance_after [mc_simps]:
  "mc_balance (insert_local_pending_transaction p mc) = mc_balance mc"
  "mc_balance (remove_local_pending_transaction u mc) = mc_balance mc"
  "mc_balance (insert_remote_pending_transaction p mc) = mc_balance mc"
  "mc_balance (remove_remote_pending_transaction u mc) = mc_balance mc"
  "mc_balance (set_local m mc) = mc_balance mc"
  "mc_balance (set_remote m mc) = mc_balance mc"
  "mcb_balance (mc_balance (set_balance b mc)) = b"
  "mcb_balance (mc_balance (set_local_pending_debt d mc)) = mcb_balance (mc_balance mc)"
  "mcb_balance (mc_balance (set_remote_pending_debt d mc)) = mcb_balance (mc_balance mc)"
  "mcb_local_pending_debt (mc_balance (set_balance b mc)) = mcb_local_pending_debt (mc_balance mc)"
  "mcb_local_pending_debt (mc_balance (set_local_pending_debt d mc)) = d"
  "mcb_local_pending_debt (mc_balance (set_remote_pending_debt d mc)) =
     mcb_local_pending_debt (mc_balance mc)"
  "mcb_remote_pending_debt (mc_balance (set_balance b mc)) = mcb_remote_pending_debt (mc_balance mc)"
  "mcb_remote_pending_debt (mc_balance (set_local_pending_debt d mc)) =
     mcb_remote_pending_debt (mc_balance mc)"
  "mcb_remote_pending_debt (mc_balance (set_remote_pending_debt d mc)) = d"
  by (simp_all add: mc_field_defs)

lemma mc_maps_after [mc_simps]:
  "mc_local (insert_local_pending_transaction p mc) = hm_insert (pt_request_id p) p (mc_local mc)"
  "mc_local (remove_local_pending_transaction u mc) = hm_remove u (mc_local mc)"
  "mc_local (insert_remote_pending_transaction p mc) = mc_local mc"
  "mc_local (remove_remote_pending_transaction u mc) = mc_local mc"
  "mc_local (set_balance b mc) = mc_local mc"
  "mc_local (set_local_pending_debt d mc) = mc_local mc"
  "mc_local (set_remote_pending_debt d mc) = mc_local mc"
  "mc_local (set_local m mc) = m"
  "mc_local (set_remote m mc) = mc_local mc"
  "mc_remote (insert_local_pending_transaction p mc) = mc_remote mc"
  "mc_remote (remove_local_pending_transaction u mc) = mc_remote mc"
  "mc_remote (insert_remote_pending_transaction p mc) = hm_insert (pt_request_id p) p (mc_remote mc)"
  "mc_remote (remove_remote_pending_transaction u mc) = hm_remove u (mc_remote mc)"
  "mc_remote (set_balance b mc) = mc_remote mc"
  "mc_remote (set_local_pending_debt d mc) = mc_remote mc"
  "mc_remote (set_remote_pending_debt d mc) = mc_remote mc"
  "mc_remote (set_local m mc) = mc_remote mc"
  "mc_remote (set_remote m mc) = m"
  by (simp_all add: mc_field_defs)

lemma mc_idents_after [mc_simps]:
  "mc_idents (insert_local_pending_transaction p mc) = mc_idents mc"
  "mc_idents (remove_local_pending_transaction u mc) = mc_idents mc"
  "mc_idents (insert_remote_pending_transaction p mc) = mc_idents mc"
  "mc_idents (remove_remote_pending_transaction u mc) = mc_idents mc"
  "mc_idents (set_balance b mc) = mc_idents mc"
  "mc_idents (set_local_pending_debt d mc) = mc_idents mc"
  "mc_idents (set_remote_pending_debt d mc) = mc_idents mc"
  "mc_idents (set_local m mc) = mc_idents mc"
  "mc_idents (set_remote m mc) = mc_idents mc"
  by (simp_all add: mc_field_defs)

lemma mc_currency_after [mc_simps]:
  "mc_currency (insert_local_pending_transaction p mc) = mc_currency mc"
  "mc_currency (remove_local_pending_transaction u mc) = mc_currency mc"
  "mc_currency (insert_remote_pending_transaction p mc) = mc_currency mc"
  "mc_currency (remove_remote_pending_transaction u mc) = mc_currency mc"
  "mc_currency (set_balance b mc) = mc_currency mc"
  "mc_currency (set_local_pending_debt d mc) = mc_currency mc"
  "mc_currency (set_remote_pending_debt d mc) = mc_currency mc"
  "mc_currency (set_local m mc) = mc_currency mc"
  "mc_currency (set_remote m mc) = mc_currency mc"
  by (simp_all add: mc_field_defs)

lemma stage_lock_iffs [rust_simps]:
  "(case st of Request \<Rightarrow> Err e | Response h c \<Rightarrow> Ok h) = Ok y \<longleftrightarrow> (\<exists>c. st = Response y c)"
  "(case st of Request \<Rightarrow> Err e | Response h c \<Rightarrow> Ok h) = Err d \<longleftrightarrow> st = Request \<and> d = e"
  "(case st of Request \<Rightarrow> Err e | Response h c \<Rightarrow> Ok h) \<noteq> Panic"
  by (cases st; auto)+

lemma mc_mutate_wf: "mc_mutate m mc = Ok mc' \<Longrightarrow> mc_wf mc \<Longrightarrow> mc_wf mc'"
  by (cases m) (auto simp: mc_wf_def mc_field_defs rust_simps)

interpretation mcj: mutable_state mc_mutate mc_wf
  by unfold_locales (rule mc_mutate_wf)

text \<open>How the three changes of a map of pending transactions keep it in step with its debt.\<close>

lemma pending_map_ok_empty [simp]: "pending_map_ok [] 0"
  by (simp add: pending_map_ok_def)

lemma pending_map_okD:
  assumes "pending_map_ok m d" and "hm_get m k = Some p"
  shows "pending_ok k p" and "frozen p \<le> uint d"
  using assms hm.weight_le_total [of m k p frozen]
  by (auto simp: pending_map_ok_def hm_all_iff)

lemma pending_map_ok_insert:
  assumes "pending_map_ok m d" and "hm_get m k = None" and "pending_ok k p"
    and "uint d' = uint d + frozen p"
  shows "pending_map_ok (hm_insert k p m) d'"
  using assms
  by (auto simp: pending_map_ok_def hm_all_iff hm_wf_insert hm.total_insert_fresh hm_get_insert)

lemma pending_map_ok_remove:
  assumes "pending_map_ok m d" and "hm_get m k = Some p" and "uint d' = uint d - frozen p"
  shows "pending_map_ok (hm_remove k m) d'"
  using assms hm.total_remove [of m k p frozen]
  by (auto simp: pending_map_ok_def hm_all_iff hm_wf_remove hm_get_remove)

lemma pending_map_ok_stage:
  assumes "pending_map_ok m d" and "hm_get m k = Some p"
  shows "pending_map_ok (hm_insert k (p \<lparr> pt_stage := st \<rparr>) m) d"
  using assms
  by (auto simp: pending_map_ok_def hm_all_iff hm_wf_insert hm_get_insert
      hm.total_insert_same_weight)

lemma mc_inv_wf: "mc_inv mc \<Longrightarrow> mc_wf mc"
  by (simp add: mc_inv_def mc_wf_def pending_map_ok_def)

lemma mc_inv_new: "mc_inv (mutual_credit_new a b cur balance)"
  using sint_lt [of balance]
  by (simp add: mc_inv_def mutual_credit_new_def mc_balance_new_def mc_pending_transactions_new_def)

lemma uint_checked_add_frozen:
  "u_checked_add (pt_dest_payment p) (pt_left_fees p) = Some f \<longleftrightarrow> uint f = frozen p"
  by (simp add: int_simps frozen_def)

lemma frozen_fits:
  assumes "pending_map_ok m d" and "hm_get m k = Some p"
  shows "\<exists>f. u_checked_add (pt_dest_payment p) (pt_left_fees p) = Some f \<and> uint f = frozen p \<and>
    (\<exists>d'. u_checked_sub d f = Some d' \<and> uint d' = uint d - frozen p)"
proof -
  have le: "frozen p \<le> uint d" by (rule pending_map_okD [OF assms])
  then have "fits_u 128 (frozen p)" "fits_u 128 (uint d - frozen p)"
    using fits_u_le [OF fits_u_uint [of d]] by simp_all
  then obtain f d' :: u128 where "uint f = frozen p" "uint d' = uint d - frozen p"
    using uint_ex_iff_fits [where 'a = 128 and k = "frozen p"]
      uint_ex_iff_fits [where 'a = 128 and k = "uint d - frozen p"] by auto
  then show ?thesis
    by (intro exI [of _ f] exI [of _ d'] conjI) (simp_all add: int_simps frozen_def)
qed

text \<open>
  \<open>balance_for_reset\<close> does not overflow, because the invariant keeps the sum in range.
\<close>

lemma balance_for_reset_Ok:
  assumes "mc_inv mc"
  shows "\<exists>b. balance_for_reset mc = Ok b \<and>
    sint b = sint (mcb_balance (mc_balance mc)) + uint (mcb_remote_pending_debt (mc_balance mc))"
proof -
  let ?b = "mcb_balance (mc_balance mc)" and ?d = "mcb_remote_pending_debt (mc_balance mc)"
  have "fits_i 128 (sint ?b + uint ?d)"
    using assms fits_i_between [OF fits_i_sint [of ?b]] by (simp add: mc_inv_def)
  then obtain b :: i128 where "sint b = sint ?b + uint ?d"
    using sint_ex_iff_fits [where 'a = 128] by auto
  then show ?thesis
    by (auto simp: balance_for_reset_def rust_simps checked_add_unsigned_Some)
qed

end
