(* ===== verification/Mc_Outgoing.thy ===== *)
theory Mc_Outgoing
  imports Mutual_Credit
begin

text \<open>
  \<open>components/funder/src/mutual_credit/outgoing.rs\<close>: the operations that the local side puts
  into a message. \<open>OutgoingMc\<close> is a copy of the mutual credit, so its methods are functions
  from a mutual credit to a new one and the mutations that were made.
\<close>

datatype queue_operation_error =
    Q_RemoteMaxDebtTooLarge | Q_InvalidRoute | Q_PkPairNotInRoute | Q_CreditsCalcOverflow
  | Q_RequestAlreadyExists | Q_RequestDoesNotExist | Q_InvalidResponseSignature
  | Q_NotExpectingResponse | Q_NotExpectingCollect | Q_InvalidSrcPlainLock
  | Q_InvalidDestPlainLock | Q_DestPaymentExceedsTotal

type_synonym queue_result =
  "(queue_operation_error, mutual_credit \<times> mc_mutation list) result"

definition queue_request_send_funds :: "request_send_funds_op \<Rightarrow> mutual_credit \<Rightarrow> queue_result" where
  "queue_request_send_funds request mc =
     and_then (fail_if (\<not> is_route_part_valid (rq_route request)) Q_InvalidRoute) (\<lambda>_.
     and_then (fail_if (rq_dest_payment request > rq_total_dest_payment request)
       Q_DestPaymentExceedsTotal) (\<lambda>_.
     and_then (ok_or (u_checked_add (rq_dest_payment request) (rq_left_fees request))
       Q_CreditsCalcOverflow) (\<lambda>own_freeze_credits.
     and_then (ok_or (u_checked_add (mcb_local_pending_debt (mc_balance mc)) own_freeze_credits)
       Q_CreditsCalcOverflow) (\<lambda>new_local_pending_debt.
     and_then (fail_if (hm_contains (mc_local mc) (rq_request_id request))
       Q_RequestAlreadyExists) (\<lambda>_.
     and_then (mutate_push mc_mutate
       (InsertLocalPendingTransaction (create_pending_transaction request)) (mc, [])) (\<lambda>s.
     mutate_push mc_mutate (SetLocalPendingDebt new_local_pending_debt) s))))))"

definition queue_response_send_funds ::
  "'b env \<Rightarrow> response_send_funds_op \<Rightarrow> mutual_credit \<Rightarrow> queue_result"
where
  "queue_response_send_funds env response mc =
     and_then (ok_or (hm_get (mc_remote mc) (rs_request_id response))
       Q_RequestDoesNotExist) (\<lambda>pending_transaction.
     let response_signature_buffer =
           create_response_signature_buffer env (mc_currency mc) (unsigned_response response)
             pending_transaction;
         dest_public_key =
           (if pt_route pending_transaction = [] then idt_local_public_key (mc_idents mc)
            else last (pt_route pending_transaction)) in
     and_then (fail_if (\<not> verify_signature env response_signature_buffer dest_public_key
       (rs_signature response)) Q_InvalidResponseSignature) (\<lambda>_.
     and_then (fail_if (pt_stage pending_transaction \<noteq> Request) Q_NotExpectingResponse) (\<lambda>_.
     mutate_push mc_mutate (SetRemotePendingTransactionStage (rs_request_id response)
       (Response (rs_dest_hashed_lock response) (rs_is_complete response))) (mc, []))))"

definition queue_cancel_send_funds :: "cancel_send_funds_op \<Rightarrow> mutual_credit \<Rightarrow> queue_result" where
  "queue_cancel_send_funds cancel mc =
     and_then (ok_or (hm_get (mc_remote mc) (cn_request_id cancel))
       Q_RequestDoesNotExist) (\<lambda>pending_transaction.
     and_then (unwrap (u_checked_add (pt_dest_payment pending_transaction)
       (pt_left_fees pending_transaction))) (\<lambda>freeze_credits.
     and_then (mutate_push mc_mutate (RemoveRemotePendingTransaction (cn_request_id cancel))
       (mc, [])) (\<lambda>(mc, mc_mutations).
     and_then (unwrap (u_checked_sub (mcb_remote_pending_debt (mc_balance mc)) freeze_credits))
       (\<lambda>new_remote_pending_debt.
     mutate_push mc_mutate (SetRemotePendingDebt new_remote_pending_debt) (mc, mc_mutations)))))"

definition queue_collect_send_funds ::
  "'b env \<Rightarrow> collect_send_funds_op \<Rightarrow> mutual_credit \<Rightarrow> queue_result"
where
  "queue_collect_send_funds env collect mc =
     and_then (ok_or (hm_get (mc_remote mc) (co_request_id collect))
       Q_RequestDoesNotExist) (\<lambda>pending_transaction.
     and_then (case pt_stage pending_transaction of
         Response dest_hashed_lock is_complete \<Rightarrow> Ok dest_hashed_lock
       | Request \<Rightarrow> Err Q_NotExpectingCollect) (\<lambda>dest_hashed_lock.
     and_then (fail_if (hash_lock env (co_src_plain_lock collect) \<noteq>
       pt_src_hashed_lock pending_transaction) Q_InvalidSrcPlainLock) (\<lambda>_.
     and_then (fail_if (hash_lock env (co_dest_plain_lock collect) \<noteq> dest_hashed_lock)
       Q_InvalidDestPlainLock) (\<lambda>_.
     and_then (unwrap (u_checked_add (pt_dest_payment pending_transaction)
       (pt_left_fees pending_transaction))) (\<lambda>freeze_credits.
     and_then (mutate_push mc_mutate (RemoveRemotePendingTransaction (co_request_id collect))
       (mc, [])) (\<lambda>(mc, mc_mutations).
     and_then (unwrap (u_checked_sub (mcb_remote_pending_debt (mc_balance mc)) freeze_credits))
       (\<lambda>new_remote_pending_debt.
     and_then (mutate_push mc_mutate (SetRemotePendingDebt new_remote_pending_debt)
       (mc, mc_mutations)) (\<lambda>(mc, mc_mutations).
     and_then (unwrap (checked_add_unsigned (mcb_balance (mc_balance mc)) freeze_credits))
       (\<lambda>new_balance.
     mutate_push mc_mutate (SetBalance new_balance) (mc, mc_mutations))))))))))"

fun queue_operation :: "'b env \<Rightarrow> friend_tc_op \<Rightarrow> mutual_credit \<Rightarrow> queue_result" where
  "queue_operation env (RequestSendFunds r) mc = queue_request_send_funds r mc"
| "queue_operation env (ResponseSendFunds r) mc = queue_response_send_funds env r mc"
| "queue_operation env (CancelSendFunds c) mc = queue_cancel_send_funds c mc"
| "queue_operation env (CollectSendFunds c) mc = queue_collect_send_funds env c mc"

section \<open>What the outgoing operations do\<close>

text \<open>
  When an operation succeeds, its checks hold and the new state is the old one with the
  named fields changed.
\<close>

lemma queue_request_OkD:
  assumes "queue_request_send_funds r mc = Ok (mc', ms)"
  shows "is_route_part_valid (rq_route r)" and "rq_dest_payment r \<le> rq_total_dest_payment r"
    and "hm_get (mc_local mc) (rq_request_id r) = None"
    and "\<exists>d. uint d = uint (mcb_local_pending_debt (mc_balance mc)) +
        frozen (create_pending_transaction r) \<and>
      mc' = set_local_pending_debt d
        (insert_local_pending_transaction (create_pending_transaction r) mc)"
  using assms
  by (auto simp: queue_request_send_funds_def rust_simps int_simps not_less hm_contains_def)

lemma queue_response_OkD:
  assumes "queue_response_send_funds env r mc = Ok (mc', ms)"
  shows "\<exists>p. hm_get (mc_remote mc) (rs_request_id r) = Some p \<and> pt_stage p = Request \<and>
      verify_signature env
        (create_response_signature_buffer env (mc_currency mc) (unsigned_response r) p)
        (if pt_route p = [] then idt_local_public_key (mc_idents mc) else last (pt_route p))
        (rs_signature r) \<and>
      mc' = set_remote (hm_insert (rs_request_id r)
        (p \<lparr> pt_stage := Response (rs_dest_hashed_lock r) (rs_is_complete r) \<rparr>) (mc_remote mc)) mc"
  using assms
  by (auto simp: queue_response_send_funds_def rust_simps Let_def
      set_remote_pending_transaction_stage_def)

lemma queue_cancel_OkD:
  assumes "queue_cancel_send_funds c mc = Ok (mc', ms)"
  shows "\<exists>p d. hm_get (mc_remote mc) (cn_request_id c) = Some p \<and>
      uint d = uint (mcb_remote_pending_debt (mc_balance mc)) - frozen p \<and>
      mc' = set_remote_pending_debt d (remove_remote_pending_transaction (cn_request_id c) mc)"
  using assms
  by (fastforce simp: queue_cancel_send_funds_def rust_simps int_simps frozen_def mc_simps)

lemma queue_collect_OkD:
  assumes "queue_collect_send_funds env c mc = Ok (mc', ms)"
  shows "\<exists>p h cpl d b. hm_get (mc_remote mc) (co_request_id c) = Some p \<and>
      pt_stage p = Response h cpl \<and>
      hash_lock env (co_src_plain_lock c) = pt_src_hashed_lock p \<and>
      hash_lock env (co_dest_plain_lock c) = h \<and>
      uint d = uint (mcb_remote_pending_debt (mc_balance mc)) - frozen p \<and>
      sint b = sint (mcb_balance (mc_balance mc)) + frozen p \<and>
      mc' = set_balance b (set_remote_pending_debt d
        (remove_remote_pending_transaction (co_request_id c) mc))"
  using assms
  by (fastforce simp: queue_collect_send_funds_def rust_simps int_simps frozen_def
      checked_add_unsigned_Some mc_simps)

text \<open>The mutations that an operation returns replay to the state that it returns.\<close>

lemma queue_operation_replay:
  assumes "queue_operation env op mc = Ok (mc', ms)"
  shows "replay mc_mutate ms mc = (Ok mc' :: ('e, mutual_credit) result)"
  using assms
  by (cases op)
    (auto simp: queue_request_send_funds_def queue_response_send_funds_def
      queue_cancel_send_funds_def queue_collect_send_funds_def rust_simps Let_def
      set_remote_pending_transaction_stage_def)

text \<open>Under the invariant no \<open>unwrap\<close> fails, and the invariant is kept.\<close>

lemma collect_balance_fits:
  assumes "mc_inv mc" and "hm_get (mc_remote mc) k = Some p" and "uint f = frozen p"
  shows "\<exists>b. checked_add_unsigned (mcb_balance (mc_balance mc)) f = Some b"
proof -
  have "frozen p \<le> uint (mcb_remote_pending_debt (mc_balance mc))"
    using assms by (auto simp: mc_inv_def dest: pending_map_okD)
  then have "fits_i 128 (sint (mcb_balance (mc_balance mc)) + frozen p)"
    using assms(1) fits_i_between [OF fits_i_sint [of "mcb_balance (mc_balance mc)"]]
    by (simp add: mc_inv_def)
  then show ?thesis
    using assms(3) checked_add_unsigned_None [of "mcb_balance (mc_balance mc)" f] by auto
qed

lemma queue_operation_no_panic:
  assumes "mc_inv mc"
  shows "queue_operation env op mc \<noteq> Panic"
proof (cases op)
  case (RequestSendFunds r)
  then show ?thesis by (auto simp: queue_request_send_funds_def rust_simps)
next
  case (ResponseSendFunds r)
  then show ?thesis
    by (auto simp: queue_response_send_funds_def rust_simps Let_def
        set_remote_pending_transaction_stage_def)
next
  case (CancelSendFunds c)
  then show ?thesis
    using assms frozen_fits [of "mc_remote mc" "mcb_remote_pending_debt (mc_balance mc)"]
    by (fastforce simp: queue_cancel_send_funds_def rust_simps mc_inv_def mc_simps)
next
  case (CollectSendFunds c)
  then show ?thesis
    using assms frozen_fits [of "mc_remote mc" "mcb_remote_pending_debt (mc_balance mc)"]
      collect_balance_fits [OF assms, of "co_request_id c"]
    by (fastforce simp: queue_collect_send_funds_def rust_simps mc_inv_def mc_simps)
qed

lemma queue_operation_inv:
  assumes "queue_operation env op mc = Ok (mc', ms)" and "mc_inv mc"
  shows "mc_inv mc'"
proof (cases op)
  case (RequestSendFunds r)
  then show ?thesis
    using assms queue_request_OkD [of r mc mc' ms]
    by (auto simp: mc_inv_def mc_simps intro!: pending_map_ok_insert)
next
  case (ResponseSendFunds r)
  then show ?thesis
    using assms queue_response_OkD [of env r mc mc' ms]
    by (auto simp: mc_inv_def mc_simps intro: pending_map_ok_stage)
next
  case (CancelSendFunds c)
  then obtain p d where "hm_get (mc_remote mc) (cn_request_id c) = Some p"
    "uint d = uint (mcb_remote_pending_debt (mc_balance mc)) - frozen p"
    "mc' = set_remote_pending_debt d (remove_remote_pending_transaction (cn_request_id c) mc)"
    using assms(1) queue_cancel_OkD [of c mc mc' ms] by auto
  then show ?thesis
    using assms(2) frozen_nonneg [of p]
    by (auto simp: mc_inv_def mc_simps intro: pending_map_ok_remove simp del: frozen_nonneg)
next
  case (CollectSendFunds c)
  then show ?thesis
    using assms queue_collect_OkD [of env c mc mc' ms]
    by (auto simp: mc_inv_def mc_simps intro: pending_map_ok_remove)
qed

end
