(* ===== verification/Mc_Incoming.thy ===== *)
theory Mc_Incoming
  imports Mutual_Credit
begin

text \<open>
  \<open>components/funder/src/mutual_credit/incoming.rs\<close>: the operations that arrive from the
  remote side. Each takes the mutual credit and returns the new one with the message to act
  on and the mutations that were made.
\<close>

datatype incoming_message =
    IncomingRequest request_send_funds_op
  | IncomingRequestCancel request_send_funds_op
  | IncomingResponse pending_transaction response_send_funds_op
  | IncomingCancel pending_transaction cancel_send_funds_op
  | IncomingCollect pending_transaction collect_send_funds_op

record process_operation_output =
  po_incoming_message :: "incoming_message option"
  po_mc_mutations :: "mc_mutation list"

datatype process_operation_error =
    P_InvalidRoute | P_CreditsCalcOverflow | P_RequestAlreadyExists | P_RequestDoesNotExist
  | P_InvalidResponseSignature | P_NotExpectingResponse | P_InvalidSrcPlainLock
  | P_InvalidDestPlainLock | P_NotExpectingCollect | P_DestPaymentExceedsTotal

record process_trans_list_error =
  pte_index :: nat
  pte_process_trans_error :: process_operation_error

type_synonym process_result =
  "(process_operation_error, mutual_credit \<times> process_operation_output) result"

definition process_output ::
  "incoming_message \<Rightarrow> mutual_credit \<times> mc_mutation list \<Rightarrow> process_result" where
  "process_output msg s =
     (case s of (mc, ms) \<Rightarrow> Ok (mc, \<lparr> po_incoming_message = Some msg, po_mc_mutations = ms \<rparr>))"

definition process_request_send_funds ::
  "request_send_funds_op \<Rightarrow> u128 \<Rightarrow> mutual_credit \<Rightarrow> process_result"
where
  "process_request_send_funds request remote_max_debt mc =
     and_then (fail_if (\<not> is_route_part_valid (rq_route request)) P_InvalidRoute) (\<lambda>_.
     and_then (fail_if (rq_dest_payment request > rq_total_dest_payment request)
       P_DestPaymentExceedsTotal) (\<lambda>_.
     and_then (fail_if (hm_contains (mc_remote mc) (rq_request_id request))
       P_RequestAlreadyExists) (\<lambda>_.
     and_then (ok_or (u_checked_add (rq_dest_payment request) (rq_left_fees request))
       P_CreditsCalcOverflow) (\<lambda>own_freeze_credits.
     and_then (ok_or (u_checked_add (mcb_remote_pending_debt (mc_balance mc)) own_freeze_credits)
       P_CreditsCalcOverflow) (\<lambda>new_remote_pending_debt.
     and_then (ok_or (checked_add_unsigned (mcb_balance (mc_balance mc)) new_remote_pending_debt)
       P_CreditsCalcOverflow) (\<lambda>add.
     and_then (ok_or (checked_sub_unsigned add remote_max_debt) P_CreditsCalcOverflow) (\<lambda>diff.
     let incoming_message =
           (if sint diff > 0 then IncomingRequestCancel request else IncomingRequest request) in
     and_then (mutate_push mc_mutate
       (InsertRemotePendingTransaction (create_pending_transaction request)) (mc, [])) (\<lambda>s.
     and_then (mutate_push mc_mutate (SetRemotePendingDebt new_remote_pending_debt) s)
       (process_output incoming_message)))))))))"

definition process_response_send_funds ::
  "'b env \<Rightarrow> response_send_funds_op \<Rightarrow> mutual_credit \<Rightarrow> process_result"
where
  "process_response_send_funds env response mc =
     and_then (ok_or (hm_get (mc_local mc) (rs_request_id response))
       P_RequestDoesNotExist) (\<lambda>pending_transaction.
     let dest_public_key =
           (if pt_route pending_transaction = [] then idt_remote_public_key (mc_idents mc)
            else last (pt_route pending_transaction));
         response_signature_buffer =
           create_response_signature_buffer env (mc_currency mc) (unsigned_response response)
             pending_transaction in
     and_then (fail_if (\<not> verify_signature env response_signature_buffer dest_public_key
       (rs_signature response)) P_InvalidResponseSignature) (\<lambda>_.
     and_then (fail_if (pt_stage pending_transaction \<noteq> Request) P_NotExpectingResponse) (\<lambda>_.
     and_then (mutate_push mc_mutate (SetLocalPendingTransactionStage (rs_request_id response)
       (Response (rs_dest_hashed_lock response) (rs_is_complete response))) (mc, []))
       (process_output (IncomingResponse pending_transaction response)))))"

definition process_cancel_send_funds :: "cancel_send_funds_op \<Rightarrow> mutual_credit \<Rightarrow> process_result" where
  "process_cancel_send_funds cancel mc =
     and_then (ok_or (hm_get (mc_local mc) (cn_request_id cancel))
       P_RequestDoesNotExist) (\<lambda>pending_transaction.
     and_then (mutate_push mc_mutate (RemoveLocalPendingTransaction (cn_request_id cancel))
       (mc, [])) (\<lambda>(mc, mc_mutations).
     and_then (unwrap (u_checked_add (pt_dest_payment pending_transaction)
       (pt_left_fees pending_transaction))) (\<lambda>freeze_credits.
     and_then (unwrap (u_checked_sub (mcb_local_pending_debt (mc_balance mc)) freeze_credits))
       (\<lambda>new_local_pending_debt.
     and_then (mutate_push mc_mutate (SetLocalPendingDebt new_local_pending_debt)
       (mc, mc_mutations)) (process_output (IncomingCancel pending_transaction cancel))))))"

definition process_collect_send_funds ::
  "'b env \<Rightarrow> collect_send_funds_op \<Rightarrow> mutual_credit \<Rightarrow> process_result"
where
  "process_collect_send_funds env collect mc =
     and_then (ok_or (hm_get (mc_local mc) (co_request_id collect))
       P_RequestDoesNotExist) (\<lambda>pending_transaction.
     and_then (case pt_stage pending_transaction of
         Response dest_hashed_lock is_complete \<Rightarrow> Ok dest_hashed_lock
       | Request \<Rightarrow> Err P_NotExpectingCollect) (\<lambda>dest_hashed_lock.
     and_then (fail_if (hash_lock env (co_src_plain_lock collect) \<noteq>
       pt_src_hashed_lock pending_transaction) P_InvalidSrcPlainLock) (\<lambda>_.
     and_then (fail_if (hash_lock env (co_dest_plain_lock collect) \<noteq> dest_hashed_lock)
       P_InvalidDestPlainLock) (\<lambda>_.
     and_then (unwrap (u_checked_add (pt_dest_payment pending_transaction)
       (pt_left_fees pending_transaction))) (\<lambda>freeze_credits.
     and_then (mutate_push mc_mutate (RemoveLocalPendingTransaction (co_request_id collect))
       (mc, [])) (\<lambda>(mc, mc_mutations).
     and_then (unwrap (u_checked_sub (mcb_local_pending_debt (mc_balance mc)) freeze_credits))
       (\<lambda>new_local_pending_debt.
     and_then (mutate_push mc_mutate (SetLocalPendingDebt new_local_pending_debt)
       (mc, mc_mutations)) (\<lambda>(mc, mc_mutations).
     and_then (unwrap (checked_sub_unsigned (mcb_balance (mc_balance mc)) freeze_credits))
       (\<lambda>new_balance.
     and_then (mutate_push mc_mutate (SetBalance new_balance) (mc, mc_mutations))
       (process_output (IncomingCollect pending_transaction collect)))))))))))"

fun process_operation :: "'b env \<Rightarrow> friend_tc_op \<Rightarrow> u128 \<Rightarrow> mutual_credit \<Rightarrow> process_result" where
  "process_operation env (RequestSendFunds r) remote_max_debt mc =
     process_request_send_funds r remote_max_debt mc"
| "process_operation env (ResponseSendFunds r) remote_max_debt mc =
     process_response_send_funds env r mc"
| "process_operation env (CancelSendFunds c) remote_max_debt mc =
     process_cancel_send_funds c mc"
| "process_operation env (CollectSendFunds c) remote_max_debt mc =
     process_collect_send_funds env c mc"

text \<open>The loop counts the operations, to name the one that failed.\<close>

fun process_operations_from ::
  "'b env \<Rightarrow> nat \<Rightarrow> friend_tc_op list \<Rightarrow> u128 \<Rightarrow> mutual_credit \<times> process_operation_output list \<Rightarrow>
   (process_trans_list_error, mutual_credit \<times> process_operation_output list) result"
where
  "process_operations_from env index [] remote_max_debt s = Ok s"
| "process_operations_from env index (op # ops) remote_max_debt (mc, outputs) =
     and_then (map_err (\<lambda>e. \<lparr> pte_index = index, pte_process_trans_error = e \<rparr>)
       (process_operation env op remote_max_debt mc)) (\<lambda>(mc', out).
     process_operations_from env (index + 1) ops remote_max_debt (mc', outputs @ [out]))"

definition process_operations_list ::
  "'b env \<Rightarrow> friend_tc_op list \<Rightarrow> u128 \<Rightarrow> mutual_credit \<Rightarrow>
   (process_trans_list_error, mutual_credit \<times> process_operation_output list) result"
where
  "process_operations_list env ops remote_max_debt mc =
     process_operations_from env 0 ops remote_max_debt (mc, [])"

section \<open>What the incoming operations do\<close>

lemma process_output_iffs [rust_simps]:
  "process_output msg (mc, ms) = Ok (mc', out) \<longleftrightarrow>
     mc' = mc \<and> out = \<lparr> po_incoming_message = Some msg, po_mc_mutations = ms \<rparr>"
  "process_output msg s \<noteq> Err e"
  "process_output msg s \<noteq> Panic"
  by (auto simp: process_output_def split: prod.splits)

lemma checked_sub_ge_zero_iff:
  fixes a :: i128
  assumes "checked_sub_unsigned a u = Some d"
  shows "0 < sint d \<longleftrightarrow> uint u < sint a"
  using assms by (simp add: checked_sub_unsigned_Some)

lemma process_request_OkD:
  assumes "process_request_send_funds r rmd mc = Ok (mc', out)"
  shows "is_route_part_valid (rq_route r)" and "rq_dest_payment r \<le> rq_total_dest_payment r"
    and "hm_get (mc_remote mc) (rq_request_id r) = None"
    and "\<exists>d. uint d = uint (mcb_remote_pending_debt (mc_balance mc)) +
        frozen (create_pending_transaction r) \<and>
      fits_i 128 (sint (mcb_balance (mc_balance mc)) + uint d) \<and>
      po_incoming_message out = Some
        (if uint rmd < sint (mcb_balance (mc_balance mc)) + uint d
         then IncomingRequestCancel r else IncomingRequest r) \<and>
      mc' = set_remote_pending_debt d
        (insert_remote_pending_transaction (create_pending_transaction r) mc)"
proof -
  from assms obtain f d add diff where
    "u_checked_add (rq_dest_payment r) (rq_left_fees r) = Some f" and
    "u_checked_add (mcb_remote_pending_debt (mc_balance mc)) f = Some d" and
    add: "checked_add_unsigned (mcb_balance (mc_balance mc)) d = Some add" and
    diff: "checked_sub_unsigned add rmd = Some diff" and
    out: "po_incoming_message out =
      Some (if sint diff > 0 then IncomingRequestCancel r else IncomingRequest r)" and
    mc': "mc' = set_remote_pending_debt d
      (insert_remote_pending_transaction (create_pending_transaction r) mc)"
    by (fastforce simp: process_request_send_funds_def rust_simps Let_def)
  then have "uint d = uint (mcb_remote_pending_debt (mc_balance mc)) +
      frozen (create_pending_transaction r)"
    and "sint add = sint (mcb_balance (mc_balance mc)) + uint d"
    by (simp_all add: int_simps checked_add_unsigned_Some)
  with out mc' diff show "\<exists>d. uint d = uint (mcb_remote_pending_debt (mc_balance mc)) +
        frozen (create_pending_transaction r) \<and>
      fits_i 128 (sint (mcb_balance (mc_balance mc)) + uint d) \<and>
      po_incoming_message out = Some
        (if uint rmd < sint (mcb_balance (mc_balance mc)) + uint d
         then IncomingRequestCancel r else IncomingRequest r) \<and>
      mc' = set_remote_pending_debt d
        (insert_remote_pending_transaction (create_pending_transaction r) mc)"
    using fits_i_sint [of add] by (intro exI [of _ d]) (simp add: checked_sub_ge_zero_iff)
qed (use assms in \<open>auto simp: process_request_send_funds_def rust_simps not_less hm_contains_def\<close>)

lemma process_response_OkD:
  assumes "process_response_send_funds env r mc = Ok (mc', out)"
  shows "\<exists>p. hm_get (mc_local mc) (rs_request_id r) = Some p \<and> pt_stage p = Request \<and>
       verify_signature env
         (create_response_signature_buffer env (mc_currency mc) (unsigned_response r) p)
         (if pt_route p = [] then idt_remote_public_key (mc_idents mc) else last (pt_route p))
         (rs_signature r) \<and>
       mc' = set_local (hm_insert (rs_request_id r)
         (p \<lparr> pt_stage := Response (rs_dest_hashed_lock r) (rs_is_complete r) \<rparr>) (mc_local mc)) mc \<and>
       out = \<lparr> po_incoming_message = Some (IncomingResponse p r),
         po_mc_mutations = [SetLocalPendingTransactionStage (rs_request_id r)
           (Response (rs_dest_hashed_lock r) (rs_is_complete r))] \<rparr>"
  using assms
  by (fastforce simp: process_response_send_funds_def rust_simps Let_def
      set_local_pending_transaction_stage_def)

lemma process_cancel_OkD:
  assumes "process_cancel_send_funds c mc = Ok (mc', out)"
  shows "\<exists>p f d. hm_get (mc_local mc) (cn_request_id c) = Some p \<and>
       u_checked_add (pt_dest_payment p) (pt_left_fees p) = Some f \<and>
       u_checked_sub (mcb_local_pending_debt (mc_balance mc)) f = Some d \<and>
       mc' = set_local_pending_debt d (remove_local_pending_transaction (cn_request_id c) mc) \<and>
       out = \<lparr> po_incoming_message = Some (IncomingCancel p c),
         po_mc_mutations =
           [RemoveLocalPendingTransaction (cn_request_id c), SetLocalPendingDebt d] \<rparr>"
  using assms
  by (fastforce simp: process_cancel_send_funds_def rust_simps mc_simps)

lemma process_collect_OkD:
  assumes "process_collect_send_funds env c mc = Ok (mc', out)"
  shows "\<exists>p cpl f d b. hm_get (mc_local mc) (co_request_id c) = Some p \<and>
       pt_stage p = Response (hash_lock env (co_dest_plain_lock c)) cpl \<and>
       hash_lock env (co_src_plain_lock c) = pt_src_hashed_lock p \<and>
       u_checked_add (pt_dest_payment p) (pt_left_fees p) = Some f \<and>
       u_checked_sub (mcb_local_pending_debt (mc_balance mc)) f = Some d \<and>
       checked_sub_unsigned (mcb_balance (mc_balance mc)) f = Some b \<and>
       mc' = set_balance b (set_local_pending_debt d
         (remove_local_pending_transaction (co_request_id c) mc)) \<and>
       out = \<lparr> po_incoming_message = Some (IncomingCollect p c),
         po_mc_mutations = [RemoveLocalPendingTransaction (co_request_id c),
           SetLocalPendingDebt d, SetBalance b] \<rparr>"
  using assms
  by (fastforce simp: process_collect_send_funds_def rust_simps mc_simps)

text \<open>Conversely, an operation succeeds when its checks and its arithmetic do.\<close>

lemma process_request_OkI:
  assumes "is_route_part_valid (rq_route r)" and "rq_dest_payment r \<le> rq_total_dest_payment r"
    and "hm_get (mc_remote mc) (rq_request_id r) = None"
    and "u_checked_add (rq_dest_payment r) (rq_left_fees r) = Some f"
    and "u_checked_add (mcb_remote_pending_debt (mc_balance mc)) f = Some d"
    and "checked_add_unsigned (mcb_balance (mc_balance mc)) d = Some add"
    and "checked_sub_unsigned add rmd = Some diff"
  shows "\<exists>out. process_request_send_funds r rmd mc = Ok (set_remote_pending_debt d
    (insert_remote_pending_transaction (create_pending_transaction r) mc), out)"
  using assms
  by (simp add: process_request_send_funds_def fail_if_def hm_contains_def mutate_push_def
      process_output_def)

lemma process_response_OkI:
  assumes "hm_get (mc_local mc) (rs_request_id r) = Some p" and "pt_stage p = Request"
    and "verify_signature env
      (create_response_signature_buffer env (mc_currency mc) (unsigned_response r) p)
      (if pt_route p = [] then idt_remote_public_key (mc_idents mc) else last (pt_route p))
      (rs_signature r)"
  shows "\<exists>out. process_response_send_funds env r mc = Ok (set_local (hm_insert (rs_request_id r)
    (p \<lparr> pt_stage := Response (rs_dest_hashed_lock r) (rs_is_complete r) \<rparr>) (mc_local mc)) mc, out)"
  using assms
  by (simp add: process_response_send_funds_def fail_if_def mutate_push_def process_output_def
      set_local_pending_transaction_stage_def)

lemma process_cancel_OkI:
  assumes "hm_get (mc_local mc) (cn_request_id c) = Some p"
    and "u_checked_add (pt_dest_payment p) (pt_left_fees p) = Some f"
    and "u_checked_sub (mcb_local_pending_debt (mc_balance mc)) f = Some d"
  shows "\<exists>out. process_cancel_send_funds c mc =
    Ok (set_local_pending_debt d (remove_local_pending_transaction (cn_request_id c) mc), out)"
  using assms
  by (simp add: process_cancel_send_funds_def mutate_push_def process_output_def mc_simps)

lemma process_collect_OkI:
  assumes "hm_get (mc_local mc) (co_request_id c) = Some p"
    and "pt_stage p = Response (hash_lock env (co_dest_plain_lock c)) cpl"
    and "hash_lock env (co_src_plain_lock c) = pt_src_hashed_lock p"
    and "u_checked_add (pt_dest_payment p) (pt_left_fees p) = Some f"
    and "u_checked_sub (mcb_local_pending_debt (mc_balance mc)) f = Some d"
    and "checked_sub_unsigned (mcb_balance (mc_balance mc)) f = Some b"
  shows "\<exists>out. process_collect_send_funds env c mc = Ok (set_balance b
    (set_local_pending_debt d (remove_local_pending_transaction (co_request_id c) mc)), out)"
  using assms
  by (simp add: process_collect_send_funds_def fail_if_def mutate_push_def process_output_def
      mc_simps)

section \<open>The invariant is kept\<close>

lemma process_operation_replay:
  assumes "process_operation env op rmd mc = Ok (mc', out)"
  shows "replay mc_mutate (po_mc_mutations out) mc = (Ok mc' :: ('e, mutual_credit) result)"
  using assms
  by (cases op)
    (auto simp: process_request_send_funds_def process_response_send_funds_def
      process_cancel_send_funds_def process_collect_send_funds_def rust_simps Let_def
      set_local_pending_transaction_stage_def)

lemma process_operation_inv:
  assumes "process_operation env op rmd mc = Ok (mc', out)" and "mc_inv mc"
  shows "mc_inv mc'"
proof (cases op)
  case (RequestSendFunds r)
  then have ok: "process_request_send_funds r rmd mc = Ok (mc', out)"
    using assms(1) by simp
  show ?thesis
    using assms(2) process_request_OkD [OF ok]
    by (auto simp: mc_inv_def mc_simps fits_i_def intro!: pending_map_ok_insert)
next
  case (ResponseSendFunds r)
  then show ?thesis
    using assms process_response_OkD [of env r mc mc' out]
    by (auto simp: mc_inv_def mc_simps intro: pending_map_ok_stage)
next
  case (CancelSendFunds c)
  then show ?thesis
    using assms process_cancel_OkD [of c mc mc' out]
    by (auto simp: mc_inv_def mc_simps uint_checked_add_frozen u_checked_sub_Some
        intro: pending_map_ok_remove)
next
  case (CollectSendFunds c)
  then have "process_collect_send_funds env c mc = Ok (mc', out)"
    using assms(1) by simp
  from process_collect_OkD [OF this] obtain p f d b
    where p: "hm_get (mc_local mc) (co_request_id c) = Some p"
    and ops: "u_checked_add (pt_dest_payment p) (pt_left_fees p) = Some f"
      "u_checked_sub (mcb_local_pending_debt (mc_balance mc)) f = Some d"
      "checked_sub_unsigned (mcb_balance (mc_balance mc)) f = Some b"
    and mc': "mc' = set_balance b (set_local_pending_debt d
         (remove_local_pending_transaction (co_request_id c) mc))"
    by blast
  then have f: "uint f = frozen p" "uint d = uint (mcb_local_pending_debt (mc_balance mc)) - uint f"
    and b: "sint b = sint (mcb_balance (mc_balance mc)) - uint f"
    by (simp_all add: uint_checked_add_frozen u_checked_sub_Some checked_sub_unsigned_Some)
  have "pending_map_ok (hm_remove (co_request_id c) (mc_local mc)) d"
    using assms(2) p f by (intro pending_map_ok_remove) (auto simp: mc_inv_def)
  moreover have "sint b + uint (mcb_remote_pending_debt (mc_balance mc)) < 2 ^ 127"
    using assms(2) b uint_ge_0 [of f] unfolding mc_inv_def by linarith
  ultimately show ?thesis
    using assms(2) by (simp add: mc' mc_inv_def mc_simps)
qed

lemma process_operation_panic:
  assumes "mc_inv mc" and "process_operation env op rmd mc = Panic"
  shows "\<exists>c p. op = CollectSendFunds c \<and> hm_get (mc_local mc) (co_request_id c) = Some p \<and>
    sint (mcb_balance (mc_balance mc)) - frozen p < - (2 ^ 127)"
proof -
  note fits = frozen_fits [of "mc_local mc" "mcb_local_pending_debt (mc_balance mc)"]
  have inv: "pending_map_ok (mc_local mc) (mcb_local_pending_debt (mc_balance mc))"
    using assms(1) by (simp add: mc_inv_def)
  show ?thesis
  proof (cases op)
    case (CollectSendFunds c)
    then obtain p f where p: "hm_get (mc_local mc) (co_request_id c) = Some p"
      and f: "uint f = frozen p"
      and "checked_sub_unsigned (mcb_balance (mc_balance mc)) f = None"
      using assms(2) fits [OF inv, of "co_request_id c"]
      by (fastforce simp: process_collect_send_funds_def rust_simps mc_simps)
    then have "\<not> fits_i 128 (sint (mcb_balance (mc_balance mc)) - frozen p)"
      by (simp add: checked_sub_unsigned_None)
    moreover have "sint (mcb_balance (mc_balance mc)) - frozen p < 2 ^ 127"
      using sint_lt [of "mcb_balance (mc_balance mc)"] frozen_nonneg [of p]
      by (simp del: frozen_nonneg)
    ultimately show ?thesis
      using CollectSendFunds p by (auto simp: fits_i_def)
  next
    case (CancelSendFunds c)
    then show ?thesis
      using assms(2) fits [OF inv, of "cn_request_id c"]
      by (fastforce simp: process_cancel_send_funds_def rust_simps mc_simps)
  qed (use assms(2) in \<open>auto simp: process_request_send_funds_def process_response_send_funds_def
      rust_simps Let_def set_local_pending_transaction_stage_def\<close>)
qed

end
