(* ===== verification/Mc_Agreement.thy ===== *)
theory Mc_Agreement
  imports Mc_Outgoing Mc_Incoming
begin

text \<open>
  The two sides of a mutual credit. \<open>mc_mirror a b\<close> says that \<open>b\<close> is what the remote
  friend keeps when \<open>a\<close> is kept locally: identities swapped, balance negated, local and
  remote parts exchanged. The locale \<open>two_party\<close> is the contract between a sending and a
  receiving operation, and carries it over to whole batches. The main result is that the
  operations which one side queues, processed by the other side, lead to mirrored states.
\<close>

definition mc_mirror :: "mutual_credit \<Rightarrow> mutual_credit \<Rightarrow> bool" where
  "mc_mirror a b \<longleftrightarrow>
     idt_local_public_key (mc_idents a) = idt_remote_public_key (mc_idents b) \<and>
     idt_remote_public_key (mc_idents a) = idt_local_public_key (mc_idents b) \<and>
     mc_currency a = mc_currency b \<and>
     sint (mcb_balance (mc_balance a)) = - sint (mcb_balance (mc_balance b)) \<and>
     mcb_local_pending_debt (mc_balance a) = mcb_remote_pending_debt (mc_balance b) \<and>
     mcb_remote_pending_debt (mc_balance a) = mcb_local_pending_debt (mc_balance b) \<and>
     hm_eq (mc_local a) (mc_remote b) \<and> hm_eq (mc_remote a) (mc_local b)"

text \<open>The operations without their outputs.\<close>

definition queue_state ::
  "'b env \<Rightarrow> friend_tc_op \<Rightarrow> mutual_credit \<Rightarrow> (queue_operation_error, mutual_credit) result" where
  "queue_state env op mc = and_then (queue_operation env op mc) (\<lambda>(mc', _). Ok mc')"

definition process_state ::
  "'b env \<Rightarrow> u128 \<Rightarrow> friend_tc_op \<Rightarrow> mutual_credit \<Rightarrow>
   (process_operation_error, mutual_credit) result" where
  "process_state env rmd op mc = and_then (process_operation env op rmd mc) (\<lambda>(mc', _). Ok mc')"

text \<open>
  The life of a mutual credit: it starts with an initial balance, and then operations are
  queued by the local side or arrive from the remote side, in any order.
\<close>

datatype mc_event = Queued friend_tc_op | Processed friend_tc_op u128

fun mc_run :: "'b env \<Rightarrow> mc_event \<Rightarrow> mutual_credit \<Rightarrow> (unit, mutual_credit) result" where
  "mc_run env (Queued op) mc = map_err (\<lambda>_. ()) (queue_state env op mc)"
| "mc_run env (Processed op rmd) mc = map_err (\<lambda>_. ()) (process_state env rmd op mc)"

inductive mc_reachable :: "'b env \<Rightarrow> mutual_credit \<Rightarrow> bool" for env where
  start: "mc_reachable env (mutual_credit_new pk pk' cur balance)"
| step: "mc_reachable env mc \<Longrightarrow> mc_run env ev mc = Ok mc' \<Longrightarrow> mc_reachable env mc'"

fun op_request_id :: "friend_tc_op \<Rightarrow> uid" where
  "op_request_id (RequestSendFunds r) = rq_request_id r"
| "op_request_id (ResponseSendFunds r) = rs_request_id r"
| "op_request_id (CancelSendFunds c) = cn_request_id c"
| "op_request_id (CollectSendFunds c) = co_request_id c"

fun event_request_id :: "mc_event \<Rightarrow> uid" where
  "event_request_id (Queued op) = op_request_id op"
| "event_request_id (Processed op rmd) = op_request_id op"

text \<open>A transaction of 100 credits and a fee of 3 between the friends 1 and 2.\<close>

definition sample_currency :: currency where
  "sample_currency = Currency ''FST''"

definition sample_request :: "u128 \<Rightarrow> request_send_funds_op" where
  "sample_request amount =
     \<lparr> rq_request_id = 5, rq_src_hashed_lock = hash_lock sample_env 11, rq_route = [],
       rq_dest_payment = amount, rq_total_dest_payment = amount, rq_invoice_id = 9,
       rq_left_fees = 3 \<rparr>"

definition sample_response :: "u128 \<Rightarrow> response_send_funds_op" where
  "sample_response amount =
     create_response_send_funds sample_env (sample_sign 2) sample_currency
       (create_pending_transaction (sample_request amount)) (hash_lock sample_env 12) True 13"

definition sample_collect :: collect_send_funds_op where
  "sample_collect = \<lparr> co_request_id = 5, co_src_plain_lock = 11, co_dest_plain_lock = 12 \<rparr>"

definition sample_mc :: mutual_credit where
  "sample_mc = mutual_credit_new 1 2 sample_currency 0"

section \<open>Two-party contracts\<close>

locale two_party =
  fixes send :: "'op \<Rightarrow> 's \<Rightarrow> ('e, 's) result"
    and recv :: "'op \<Rightarrow> 's \<Rightarrow> ('f, 's) result"
    and mirror :: "'s \<Rightarrow> 's \<Rightarrow> bool"
    and inv :: "'s \<Rightarrow> bool"
    and refusal :: "'f \<Rightarrow> bool"
  assumes send_inv: "send op a = Ok a' \<Longrightarrow> inv a \<Longrightarrow> inv a'"
    and recv_inv: "recv op b = Ok b' \<Longrightarrow> inv b \<Longrightarrow> inv b'"
    and step: "send op a = Ok a' \<Longrightarrow> mirror a b \<Longrightarrow> inv a \<Longrightarrow> inv b \<Longrightarrow>
      (\<exists>b'. recv op b = Ok b' \<and> mirror a' b') \<or> (\<exists>e. recv op b = Err e \<and> refusal e)"
begin

lemma batch_inv: "fold_r send ops a = Ok a' \<Longrightarrow> inv a \<Longrightarrow> inv a'"
  by (erule fold_r_invariant) (auto intro: send_inv)

lemma batch:
  assumes "fold_r send ops a = Ok a'" and "mirror a b" and "inv a" and "inv b"
  shows "(\<exists>b'. fold_r recv ops b = Ok b' \<and> mirror a' b' \<and> inv b') \<or>
    (\<exists>e. fold_r recv ops b = Err e \<and> refusal e)"
  using assms
proof (induction ops arbitrary: a b)
  case (Cons op ops)
  from Cons.prems(1) obtain a1 where a1: "send op a = Ok a1" "fold_r send ops a1 = Ok a'"
    by (auto simp: rust_simps)
  from step [OF a1(1) Cons.prems(2-4)] show ?case
  proof
    assume "\<exists>b'. recv op b = Ok b' \<and> mirror a1 b'"
    then obtain b1 where b1: "recv op b = Ok b1" "mirror a1 b1" by blast
    from Cons.IH [OF a1(2) b1(2) send_inv [OF a1(1) Cons.prems(3)]
        recv_inv [OF b1(1) Cons.prems(4)]] b1(1)
    show ?case by simp
  next
    assume "\<exists>e. recv op b = Err e \<and> refusal e"
    then show ?case by auto
  qed
qed simp

end

section \<open>Mutual credit satisfies the contract\<close>

lemma mc_mirror_sym: "mc_mirror a b \<Longrightarrow> mc_mirror b a"
  by (auto simp: mc_mirror_def hm_eq_def)

lemma mc_mirror_new: 
  "sint b' = - sint b \<Longrightarrow>
   mc_mirror (mutual_credit_new pk pk' cur b) (mutual_credit_new pk' pk cur b')"
  by (simp add: mc_mirror_def mutual_credit_new_def mc_balance_new_def
      mc_pending_transactions_new_def hm_eq_def)

lemma mirror_request:
  assumes "queue_request_send_funds r a = Ok (a', ms)" and "mc_mirror a b"
  shows "(\<exists>b' out. process_request_send_funds r rmd b = Ok (b', out) \<and> mc_mirror a' b') \<or>
    process_request_send_funds r rmd b = Err P_CreditsCalcOverflow"
proof -
  note q = queue_request_OkD [OF assms(1)]
  obtain d where d: "uint d = uint (mcb_remote_pending_debt (mc_balance b)) +
      (uint (rq_dest_payment r) + uint (rq_left_fees r))"
    and a': "a' = set_local_pending_debt d
      (insert_local_pending_transaction (create_pending_transaction r) a)"
    using q(4) assms(2) by (auto simp: mc_mirror_def)
  have fresh: "hm_get (mc_remote b) (rq_request_id r) = None"
    using q(3) assms(2) by (simp add: mc_mirror_def hm_eq_def)
  have "fits_u 128 (uint (rq_dest_payment r) + uint (rq_left_fees r))"
    using d fits_u_le [OF fits_u_uint [of d]] by simp
  then obtain f :: u128 where f: "uint f = uint (rq_dest_payment r) + uint (rq_left_fees r)"
    using uint_ex_iff_fits
      [where 'a = 128 and k = "uint (rq_dest_payment r) + uint (rq_left_fees r)"] by auto
  have sums: "u_checked_add (rq_dest_payment r) (rq_left_fees r) = Some f"
    "u_checked_add (mcb_remote_pending_debt (mc_balance b)) f = Some d"
    using d f by (simp_all add: int_simps)
  show ?thesis
  proof (cases "Option.bind (checked_add_unsigned (mcb_balance (mc_balance b)) d)
      (\<lambda>add. checked_sub_unsigned add rmd)")
    case None
    then show ?thesis
      using q(1,2) fresh sums
      by (cases "checked_add_unsigned (mcb_balance (mc_balance b)) d")
        (simp_all add: process_request_send_funds_def fail_if_def hm_contains_def)
  next
    case (Some diff)
    then obtain add where "checked_add_unsigned (mcb_balance (mc_balance b)) d = Some add"
      "checked_sub_unsigned add rmd = Some diff"
      by (auto simp: bind_eq_Some_conv)
    from process_request_OkI [OF q(1,2) fresh sums this] show ?thesis
      using assms(2) by (auto simp: a' mc_mirror_def mc_simps hm_eq_def hm_get_insert)
  qed
qed

lemma mirror_response:
  assumes "queue_response_send_funds env r a = Ok (a', ms)" and "mc_mirror a b"
  shows "\<exists>b' out. process_response_send_funds env r b = Ok (b', out) \<and> mc_mirror a' b'"
proof -
  from queue_response_OkD [OF assms(1)] obtain p where
    p: "hm_get (mc_remote a) (rs_request_id r) = Some p" "pt_stage p = Request"
    and v: "verify_signature env
        (create_response_signature_buffer env (mc_currency a) (unsigned_response r) p)
        (if pt_route p = [] then idt_local_public_key (mc_idents a) else last (pt_route p))
        (rs_signature r)"
    and a': "a' = set_remote (hm_insert (rs_request_id r)
        (p \<lparr> pt_stage := Response (rs_dest_hashed_lock r) (rs_is_complete r) \<rparr>) (mc_remote a)) a"
    by blast
  have pb: "hm_get (mc_local b) (rs_request_id r) = Some p"
    using p(1) assms(2) by (simp add: mc_mirror_def hm_eq_def)
  have "verify_signature env
      (create_response_signature_buffer env (mc_currency b) (unsigned_response r) p)
      (if pt_route p = [] then idt_remote_public_key (mc_idents b) else last (pt_route p))
      (rs_signature r)"
    using v assms(2) by (simp add: mc_mirror_def cong: if_cong)
  from process_response_OkI [OF pb p(2) this] show ?thesis
    using assms(2) by (auto simp: a' mc_mirror_def mc_simps hm_eq_def hm_get_insert)
qed

lemma mirror_cancel:
  assumes "queue_cancel_send_funds c a = Ok (a', ms)" and "mc_mirror a b" and "mc_inv b"
  shows "\<exists>b' out. process_cancel_send_funds c b = Ok (b', out) \<and> mc_mirror a' b'"
proof -
  from queue_cancel_OkD [OF assms(1)] obtain p d where
    p: "hm_get (mc_remote a) (cn_request_id c) = Some p"
    and d: "uint d = uint (mcb_remote_pending_debt (mc_balance a)) - frozen p"
    and a': "a' = set_remote_pending_debt d (remove_remote_pending_transaction (cn_request_id c) a)"
    by blast
  have pb: "hm_get (mc_local b) (cn_request_id c) = Some p"
    using p assms(2) by (simp add: mc_mirror_def hm_eq_def)
  obtain f where f: "u_checked_add (pt_dest_payment p) (pt_left_fees p) = Some f" "uint f = frozen p"
    using frozen_fits [OF _ pb] assms(3) by (auto simp: mc_inv_def)
  then have "u_checked_sub (mcb_local_pending_debt (mc_balance b)) f = Some d"
    using d assms(2) by (simp add: int_simps mc_mirror_def)
  from process_cancel_OkI [OF pb f(1) this] show ?thesis
    using assms(2) by (auto simp: a' mc_mirror_def mc_simps hm_eq_def hm_get_remove)
qed

lemma mirror_collect:
  assumes "queue_collect_send_funds env c a = Ok (a', ms)" and "mc_mirror a b" and "mc_inv b"
  shows "\<exists>b' out. process_collect_send_funds env c b = Ok (b', out) \<and> mc_mirror a' b'"
proof -
  from queue_collect_OkD [OF assms(1)] obtain p cpl d bal where
    p: "hm_get (mc_remote a) (co_request_id c) = Some p"
      "pt_stage p = Response (hash_lock env (co_dest_plain_lock c)) cpl"
      "hash_lock env (co_src_plain_lock c) = pt_src_hashed_lock p"
    and d: "uint d = uint (mcb_remote_pending_debt (mc_balance a)) - frozen p"
    and bal: "sint bal = sint (mcb_balance (mc_balance a)) + frozen p"
    and a': "a' = set_balance bal (set_remote_pending_debt d
        (remove_remote_pending_transaction (co_request_id c) a))"
    by blast
  have pb: "hm_get (mc_local b) (co_request_id c) = Some p"
    using p(1) assms(2) by (simp add: mc_mirror_def hm_eq_def)
  obtain f where f: "u_checked_add (pt_dest_payment p) (pt_left_fees p) = Some f" "uint f = frozen p"
    using frozen_fits [OF _ pb] assms(3) by (auto simp: mc_inv_def)
  then have sub: "u_checked_sub (mcb_local_pending_debt (mc_balance b)) f = Some d"
    using d assms(2) by (simp add: int_simps mc_mirror_def)
  have "- sint bal = sint (mcb_balance (mc_balance b)) - frozen p"
    using bal assms(2) by (simp add: mc_mirror_def)
  moreover have "- (2 ^ 127) \<le> - sint bal"
    using sint_lt [of bal] by simp
  moreover have "sint (mcb_balance (mc_balance b)) < 2 ^ 127"
    using sint_lt [of "mcb_balance (mc_balance b)"] by simp
  ultimately have "fits_i 128 (sint (mcb_balance (mc_balance b)) - frozen p)"
    using frozen_nonneg [of p] unfolding fits_i_def by (simp del: frozen_nonneg)
  then obtain nb where nb: "checked_sub_unsigned (mcb_balance (mc_balance b)) f = Some nb"
    using f(2) checked_sub_unsigned_None [of "mcb_balance (mc_balance b)" f] by auto
  then have "sint nb = - sint bal"
    using bal f(2) assms(2) by (simp add: checked_sub_unsigned_Some mc_mirror_def)
  with process_collect_OkI [OF pb p(2,3) f(1) sub nb] show ?thesis
    using assms(2) by (auto simp: a' mc_mirror_def mc_simps hm_eq_def hm_get_remove)
qed

lemma process_state_iffs:
  "process_state env rmd op mc = Ok mc' \<longleftrightarrow> (\<exists>out. process_operation env op rmd mc = Ok (mc', out))"
  "process_state env rmd op mc = Err e \<longleftrightarrow> process_operation env op rmd mc = Err e"
  "process_state env rmd op mc = Panic \<longleftrightarrow> process_operation env op rmd mc = Panic"
  by (auto simp: process_state_def rust_simps)

lemma queue_state_Ok_iff:
  "queue_state env op mc = Ok mc' \<longleftrightarrow> (\<exists>ms. queue_operation env op mc = Ok (mc', ms))"
  by (auto simp: queue_state_def rust_simps)

lemma mirror_step:
  assumes "queue_operation env op a = Ok (a', ms)" and "mc_mirror a b" and "mc_inv b"
  shows "(\<exists>b' out. process_operation env op rmd b = Ok (b', out) \<and> mc_mirror a' b') \<or>
    process_operation env op rmd b = Err P_CreditsCalcOverflow"
proof (cases op)
  case (RequestSendFunds r)
  then show ?thesis using assms mirror_request [of r a a' ms b rmd] by simp
next
  case (ResponseSendFunds r)
  then show ?thesis using assms mirror_response [of env r a a' ms b] by simp
next
  case (CancelSendFunds c)
  then show ?thesis using assms mirror_cancel [of c a a' ms b] by simp
next
  case (CollectSendFunds c)
  then show ?thesis using assms mirror_collect [of env c a a' ms b] by simp
qed

interpretation mc2: two_party "queue_state env" "process_state env rmd" mc_mirror mc_inv
    "\<lambda>e. e = P_CreditsCalcOverflow" for env :: "'b env" and rmd :: u128
proof
  show "mc_inv a'" if "queue_state env op a = Ok a'" "mc_inv a" for op a a'
    using that by (auto simp: queue_state_Ok_iff intro: queue_operation_inv)
  show "mc_inv b'" if "process_state env rmd op b = Ok b'" "mc_inv b" for op b b'
    using that by (auto simp: process_state_iffs intro: process_operation_inv)
  show "(\<exists>b'. process_state env rmd op b = Ok b' \<and> mc_mirror a' b') \<or>
      (\<exists>e. process_state env rmd op b = Err e \<and> e = P_CreditsCalcOverflow)"
    if "queue_state env op a = Ok a'" "mc_mirror a b" "mc_inv a" "mc_inv b" for op a a' b
    using that mirror_step [of env op a a' _ b rmd] by (fastforce simp: queue_state_Ok_iff process_state_iffs)
qed

section \<open>Batches\<close>

lemma process_operations_from_iffs:
  "(\<exists>outs'. process_operations_from env i ops rmd (mc, outs) = Ok (mc', outs')) \<longleftrightarrow>
     fold_r (process_state env rmd) ops mc = Ok mc'"
  "(\<exists>j. process_operations_from env i ops rmd (mc, outs) =
       Err \<lparr> pte_index = j, pte_process_trans_error = e \<rparr>) \<longleftrightarrow>
     fold_r (process_state env rmd) ops mc = Err e"
proof (induction ops arbitrary: i mc outs)
  case (Cons op ops)
  have step: "process_state env rmd op mc =
      (case process_operation env op rmd mc of
        Ok (mc', out) \<Rightarrow> Ok mc' | Err e \<Rightarrow> Err e | Panic \<Rightarrow> Panic)" for mc
    by (cases "process_operation env op rmd mc") (auto simp: process_state_def)
  {
    case 1
    show ?case
      by (cases "process_operation env op rmd mc") (simp_all add: step Cons.IH(1) split: prod.split)
  next
    case 2
    show ?case
      by (cases "process_operation env op rmd mc") (simp_all add: step Cons.IH(2) split: prod.split)
  }
qed auto

lemmas process_operations_list_iffs =
  process_operations_from_iffs [of _ 0 _ _ _ "[]", folded process_operations_list_def]

section \<open>Reachable states\<close>

lemma mc_run_inv: "mc_run env ev mc = Ok mc' \<Longrightarrow> mc_inv mc \<Longrightarrow> mc_inv mc'"
  by (cases ev)
    (auto simp: rust_simps queue_state_Ok_iff process_state_iffs
      intro: queue_operation_inv process_operation_inv)

lemma mc_reachable_inv: "mc_reachable env mc \<Longrightarrow> mc_inv mc"
  by (induction rule: mc_reachable.induct) (auto intro: mc_inv_new mc_run_inv)

lemma queue_operation_frame:
  assumes "queue_operation env op mc = Ok (mc', ms)" and "k \<noteq> op_request_id op"
  shows "mc_currency mc' = mc_currency mc \<and> mc_idents mc' = mc_idents mc \<and>
    hm_get (mc_local mc') k = hm_get (mc_local mc) k"
proof (cases op)
  case (RequestSendFunds r)
  then show ?thesis
    using assms queue_request_OkD(4) [of r mc mc' ms] by (auto simp: mc_simps hm_get_insert)
next
  case (ResponseSendFunds r)
  then show ?thesis
    using assms queue_response_OkD [of env r mc mc' ms] by (auto simp: mc_simps)
next
  case (CancelSendFunds c)
  then show ?thesis
    using assms queue_cancel_OkD [of c mc mc' ms] by (auto simp: mc_simps)
next
  case (CollectSendFunds c)
  then show ?thesis
    using assms queue_collect_OkD [of env c mc mc' ms] by (auto simp: mc_simps)
qed

lemma process_operation_frame:
  assumes "process_operation env op rmd mc = Ok (mc', out)" and "k \<noteq> op_request_id op"
  shows "mc_currency mc' = mc_currency mc \<and> mc_idents mc' = mc_idents mc \<and>
    hm_get (mc_local mc') k = hm_get (mc_local mc) k"
proof (cases op)
  case (RequestSendFunds r)
  then show ?thesis
    using assms process_request_OkD(4) [of r rmd mc mc' out] by (auto simp: mc_simps)
next
  case (ResponseSendFunds r)
  then show ?thesis
    using assms process_response_OkD [of env r mc mc' out] by (auto simp: mc_simps hm_get_insert)
next
  case (CancelSendFunds c)
  then show ?thesis
    using assms process_cancel_OkD [of c mc mc' out] by (auto simp: mc_simps hm_get_remove)
next
  case (CollectSendFunds c)
  then show ?thesis
    using assms process_collect_OkD [of env c mc mc' out] by (auto simp: mc_simps hm_get_remove)
qed

lemma mc_run_frame:
  assumes "mc_run env ev mc = Ok mc'" and "k \<noteq> event_request_id ev"
  shows "mc_currency mc' = mc_currency mc \<and> mc_idents mc' = mc_idents mc \<and>
    hm_get (mc_local mc') k = hm_get (mc_local mc) k"
proof (cases ev)
  case (Queued op)
  then obtain ms where "queue_operation env op mc = Ok (mc', ms)"
    using assms(1) by (auto simp: rust_simps queue_state_Ok_iff)
  then show ?thesis using Queued assms(2) by (auto dest: queue_operation_frame)
next
  case (Processed op rmd)
  then obtain out where "process_operation env op rmd mc = Ok (mc', out)"
    using assms(1) by (auto simp: rust_simps process_state_iffs)
  then show ?thesis using Processed assms(2) by (auto dest: process_operation_frame)
qed

lemma mc_runs_frame:
  assumes "fold_r (mc_run env) evs mc = Ok mc'" and "k \<notin> event_request_id ` set evs"
  shows "mc_currency mc' = mc_currency mc \<and> mc_idents mc' = mc_idents mc \<and>
    hm_get (mc_local mc') k = hm_get (mc_local mc) k"
  using assms
proof (induction evs arbitrary: mc)
  case (Cons ev evs)
  then obtain mc1 where "mc_run env ev mc = Ok mc1" "fold_r (mc_run env) evs mc1 = Ok mc'"
    by (auto simp: rust_simps)
  with Cons mc_run_frame [of env ev mc mc1 k] show ?case by simp
qed simp

section \<open>A sample transaction\<close>

lemma sample_request_simps [simp]:
  "rq_request_id (sample_request n) = 5" "rq_route (sample_request n) = []"
  "rq_dest_payment (sample_request n) = n" "rq_total_dest_payment (sample_request n) = n"
  "rq_left_fees (sample_request n) = 3"
  "rq_src_hashed_lock (sample_request n) = hash_lock sample_env 11"
  by (simp_all add: sample_request_def)

lemma sample_response_simps [simp]:
  "rs_request_id (sample_response n) = 5"
  "rs_dest_hashed_lock (sample_response n) = hash_lock sample_env 12"
  "rs_is_complete (sample_response n) = True"
  by (simp_all add: sample_response_def create_response_send_funds_def Let_def)

lemma sample_response_verifies [simp]:
  "verify_signature sample_env
     (create_response_signature_buffer sample_env sample_currency
       (unsigned_response (sample_response n)) (create_pending_transaction (sample_request n)))
     2 (rs_signature (sample_response n))"
  by (simp add: sample_response_def create_response_send_funds_def Let_def unsigned_response_def)

lemma sample_mc_simps [simp]:
  "mc_local sample_mc = []" "mc_remote sample_mc = []" "mc_currency sample_mc = sample_currency"
  "mcb_local_pending_debt (mc_balance sample_mc) = 0"
  "mcb_remote_pending_debt (mc_balance sample_mc) = 0" "mcb_balance (mc_balance sample_mc) = 0"
  "idt_remote_public_key (mc_idents sample_mc) = 2"
  by (simp_all add: sample_mc_def mutual_credit_new_def mc_balance_new_def
      mc_pending_transactions_new_def)

lemma sample_queue:
  assumes "u_checked_add n 3 = Some f"
  shows "queue_operation sample_env (RequestSendFunds (sample_request n)) sample_mc =
    Ok (set_local_pending_debt f
        (insert_local_pending_transaction (create_pending_transaction (sample_request n)) sample_mc),
      [InsertLocalPendingTransaction (create_pending_transaction (sample_request n)),
       SetLocalPendingDebt f])"
proof -
  have "u_checked_add 0 f = Some f" by (simp add: int_simps)
  then show ?thesis
    using assms
    by (simp add: queue_request_send_funds_def is_route_part_valid_def MAX_ROUTE_LEN_def
        message_simps fail_if_def hm_contains_def mutate_push_def)
qed

definition sample_mc_requested :: "u128 \<Rightarrow> u128 \<Rightarrow> mutual_credit" where
  "sample_mc_requested n f = set_local_pending_debt f
     (insert_local_pending_transaction (create_pending_transaction (sample_request n)) sample_mc)"

definition sample_mc_responded :: "u128 \<Rightarrow> u128 \<Rightarrow> mutual_credit" where
  "sample_mc_responded n f = set_local (hm_insert 5 (create_pending_transaction (sample_request n)
       \<lparr> pt_stage := Response (hash_lock sample_env 12) True \<rparr>)
     (mc_local (sample_mc_requested n f))) (sample_mc_requested n f)"

lemma sample_responded:
  "\<exists>out. process_operation sample_env (ResponseSendFunds (sample_response n)) rmd
    (sample_mc_requested n f) = Ok (sample_mc_responded n f, out)"
  using process_response_OkI [of "sample_mc_requested n f" "sample_response n"
      "create_pending_transaction (sample_request n)" sample_env]
  by (simp add: sample_mc_responded_def sample_mc_requested_def mc_simps hm_get_insert)

section \<open>Properties\<close>

text \<open>
  C3. Two friends agree. If their views of a mutual credit mirror each other and one of them
  queues a batch of operations, then the other one, processing the batch, either reaches the
  mirrored view, with the balances still opposite and the same transactions pending, or refuses
  it with the error of an overflowing credit calculation. It never panics and never ends in a
  view that differs.
\<close>

theorem mc_batch_agreement:
  assumes "fold_r (queue_state env) ops a = Ok a'"
    and "mc_mirror a b" and "mc_inv a" and "mc_inv b"
  shows "(\<exists>b' outs. process_operations_list env ops rmd b = Ok (b', outs) \<and>
      mc_mirror a' b' \<and> mc_inv a' \<and> mc_inv b') \<or>
    (\<exists>i. process_operations_list env ops rmd b =
      Err \<lparr> pte_index = i, pte_process_trans_error = P_CreditsCalcOverflow \<rparr>)"
  using mc2.batch [OF assms, of rmd] mc2.batch_inv [OF assms(1,3)]
  by (auto simp: process_operations_list_iffs [symmetric])

theorem mc_batch_agreement_witness:
  "\<exists>a'. fold_r (queue_state sample_env) [RequestSendFunds (sample_request 100)] sample_mc = Ok a' \<and>
    ((\<exists>b' outs. process_operations_list sample_env [RequestSendFunds (sample_request 100)] 1000
        (mutual_credit_new 2 1 sample_currency 0) = Ok (b', outs) \<and> mc_mirror a' b') \<or>
     (\<exists>i. process_operations_list sample_env [RequestSendFunds (sample_request 100)] 1000
        (mutual_credit_new 2 1 sample_currency 0) =
        Err \<lparr> pte_index = i, pte_process_trans_error = P_CreditsCalcOverflow \<rparr>))"
proof -
  have "u_checked_add 100 3 = Some (103 :: u128)" by (simp add: int_simps)
  then have q: "fold_r (queue_state sample_env) [RequestSendFunds (sample_request 100)] sample_mc =
      Ok (sample_mc_requested 100 103)"
    by (simp add: queue_state_def sample_queue sample_mc_requested_def del: queue_operation.simps)
  have "mc_mirror sample_mc (mutual_credit_new 2 1 sample_currency 0)" "mc_inv sample_mc"
    "mc_inv (mutual_credit_new 2 1 sample_currency 0)"
    unfolding sample_mc_def by (simp_all add: mc_mirror_new mc_inv_new)
  from mc_batch_agreement [OF q this, of 1000] q show ?thesis by blast
qed

text \<open>
  C4. In every state that a mutual credit can reach, by operations that are queued or that
  arrive in any order, the pending debts are exactly the credits frozen by the pending
  transactions, no queued operation panics, and the balance for a reset does not overflow.
\<close>

theorem mc_reachable_safe:
  assumes "mc_reachable env mc"
  shows "uint (mcb_local_pending_debt (mc_balance mc)) = hm.total frozen (mc_local mc) \<and>
    uint (mcb_remote_pending_debt (mc_balance mc)) = hm.total frozen (mc_remote mc) \<and>
    queue_operation env op mc \<noteq> Panic \<and>
    (\<exists>b. balance_for_reset mc = (Ok b :: (unit, i128) result))"
  using mc_reachable_inv [OF assms] queue_operation_no_panic [of mc env op]
    balance_for_reset_Ok [of mc]
  by (auto simp: mc_inv_def pending_map_ok_def)

theorem mc_reachable_safe_witness:
  "mc_reachable sample_env sample_mc \<and>
   queue_operation sample_env (CollectSendFunds sample_collect) sample_mc \<noteq> Panic"
proof -
  have r: "mc_reachable sample_env sample_mc"
    unfolding sample_mc_def by (rule mc_reachable.start)
  from r mc_reachable_safe [OF r, of "CollectSendFunds sample_collect"] show ?thesis by blast
qed

text \<open>
  C11. An incoming request that is accepted for forwarding leaves the credits that the remote
  friend owes, together with all the credits it has frozen, within the debt that the local user
  allows. A request that exceeds it is recorded and answered by a cancellation.
\<close>

theorem accepted_request_within_max_debt:
  assumes "process_operation env (RequestSendFunds r) rmd mc = Ok (mc', out)"
  shows "po_incoming_message out = Some (IncomingRequest r) \<and>
      sint (mcb_balance (mc_balance mc')) + uint (mcb_remote_pending_debt (mc_balance mc')) \<le> uint rmd \<or>
    po_incoming_message out = Some (IncomingRequestCancel r) \<and>
      uint rmd < sint (mcb_balance (mc_balance mc')) + uint (mcb_remote_pending_debt (mc_balance mc'))"
proof -
  from assms have "process_request_send_funds r rmd mc = Ok (mc', out)" by simp
  from process_request_OkD(4) [OF this] show ?thesis by (auto simp: mc_simps split: if_splits)
qed

theorem accepted_request_within_max_debt_witness:
  "\<exists>mc' out. process_operation sample_env (RequestSendFunds (sample_request 100)) 1000 sample_mc =
      Ok (mc', out) \<and> po_incoming_message out = Some (IncomingRequest (sample_request 100)) \<and>
    sint (mcb_balance (mc_balance mc')) + uint (mcb_remote_pending_debt (mc_balance mc')) \<le> 1000"
proof -
  have add: "checked_add_unsigned 0 103 = Some (103 :: i128)"
    and sub: "checked_sub_unsigned 103 1000 = Some (- 897 :: i128)"
    by (simp_all add: checked_add_unsigned_Some checked_sub_unsigned_Some)
  have "\<exists>out. process_operation sample_env (RequestSendFunds (sample_request 100)) 1000 sample_mc =
      Ok (set_remote_pending_debt 103 (insert_remote_pending_transaction
        (create_pending_transaction (sample_request 100)) sample_mc), out)"
    unfolding process_operation.simps
    by (rule process_request_OkI [where f = 103 and add = 103])
      (simp_all add: add sub int_simps is_route_part_valid_def MAX_ROUTE_LEN_def message_simps)
  then obtain mc' out where r: "process_operation sample_env
      (RequestSendFunds (sample_request 100)) 1000 sample_mc = Ok (mc', out)"
    and mc': "mc' = set_remote_pending_debt 103 (insert_remote_pending_transaction
        (create_pending_transaction (sample_request 100)) sample_mc)"
    by blast
  from accepted_request_within_max_debt [OF r] r show ?thesis
    by (auto simp: mc' mc_simps simp del: process_operation.simps)
qed

text \<open>
  C10. When a payment is collected, the sender can prove it. If a response was accepted, other
  operations followed that concern other requests, and then the collect message of the same
  request was accepted, the receipt prepared from the response, the collect message and the
  removed transaction passes \<open>verify_receipt\<close> for the destination of the route.
\<close>

theorem collected_receipt_verifies:
  assumes "process_operation env (ResponseSendFunds r) rmd mc = Ok (mc1, out1)"
    and "fold_r (mc_run env) evs mc1 = Ok mc2"
    and "rs_request_id r \<notin> event_request_id ` set evs"
    and "process_operation env (CollectSendFunds c) rmd' mc2 = Ok (mc3, out3)"
    and "co_request_id c = rs_request_id r"
  shows "\<exists>p rc. po_incoming_message out3 = Some (IncomingCollect p c) \<and>
    prepare_receipt env (mc_currency mc) c r p = (Ok rc :: (unit, receipt) result) \<and>
    verify_receipt env rc
      (if pt_route p = [] then idt_remote_public_key (mc_idents mc) else last (pt_route p))"
proof -
  from assms(1) process_response_OkD [of env r mc mc1 out1] obtain p where
    p: "pt_stage p = Request"
    and v: "verify_signature env
        (create_response_signature_buffer env (mc_currency mc) (unsigned_response r) p)
        (if pt_route p = [] then idt_remote_public_key (mc_idents mc) else last (pt_route p))
        (rs_signature r)"
    and mc1: "mc1 = set_local (hm_insert (rs_request_id r)
        (p \<lparr> pt_stage := Response (rs_dest_hashed_lock r) (rs_is_complete r) \<rparr>) (mc_local mc)) mc"
    by auto
  let ?p = "p \<lparr> pt_stage := Response (rs_dest_hashed_lock r) (rs_is_complete r) \<rparr>"
  have "hm_get (mc_local mc2) (co_request_id c) = Some ?p"
    using mc_runs_frame [OF assms(2,3)] assms(5) by (simp add: mc1 mc_simps hm_get_insert)
  then have c: "hash_lock env (co_dest_plain_lock c) = rs_dest_hashed_lock r"
    "hash_lock env (co_src_plain_lock c) = pt_src_hashed_lock ?p"
    "po_incoming_message out3 = Some (IncomingCollect ?p c)"
    using assms(4) process_collect_OkD [of env c mc2 mc3 out3] by auto
  have "verify_signature env
      (create_response_signature_buffer env (mc_currency mc) (unsigned_response r) ?p)
      (if pt_route ?p = [] then idt_remote_public_key (mc_idents mc) else last (pt_route ?p))
      (rs_signature r)"
    using v by (simp split del: if_split cong: if_cong)
  from verify_receipt_prepared [OF this _ c(2,1)] c(3) show ?thesis
    by (auto split del: if_split cong: if_cong)
qed

theorem collected_receipt_verifies_witness:
  "\<exists>mc1 out1 mc3 out3 p rc.
    process_operation sample_env (ResponseSendFunds (sample_response 100)) 0
      (sample_mc_requested 100 103) = Ok (mc1, out1) \<and>
    process_operation sample_env (CollectSendFunds sample_collect) 0 mc1 = Ok (mc3, out3) \<and>
    po_incoming_message out3 = Some (IncomingCollect p sample_collect) \<and>
    prepare_receipt sample_env sample_currency sample_collect (sample_response 100) p =
      (Ok rc :: (unit, receipt) result) \<and>
    verify_receipt sample_env rc
      (if pt_route p = [] then 2 else last (pt_route p))"
proof -
  let ?resp = "ResponseSendFunds (sample_response 100)"
  obtain out1 where r: "process_operation sample_env ?resp 0 (sample_mc_requested 100 103) =
      Ok (sample_mc_responded 100 103, out1)"
    using sample_responded [of 100 0 103] by blast
  have "\<exists>out. process_operation sample_env (CollectSendFunds sample_collect) 0
      (sample_mc_responded 100 103) = Ok (set_balance (- 103) (set_local_pending_debt 0
        (remove_local_pending_transaction (co_request_id sample_collect)
          (sample_mc_responded 100 103))), out)"
    unfolding process_operation.simps
    by (rule process_collect_OkI [where f = 103 and cpl = True and
          p = "create_pending_transaction (sample_request 100)
            \<lparr> pt_stage := Response (hash_lock sample_env 12) True \<rparr>"])
      (simp_all add: sample_collect_def sample_mc_responded_def sample_mc_requested_def mc_simps
        hm_get_insert int_simps checked_sub_unsigned_Some create_pending_transaction_def)
  then obtain mc3 out3 where c: "process_operation sample_env (CollectSendFunds sample_collect) 0
      (sample_mc_responded 100 103) = Ok (mc3, out3)"
    by blast
  from collected_receipt_verifies [OF r, of "[]" "sample_mc_responded 100 103", OF _ _ c] r c
  show ?thesis
    by (auto simp: sample_collect_def sample_mc_requested_def mc_simps
        simp del: process_operation.simps split del: if_split cong: if_cong)
qed

text \<open>
  C13. The debt that the user allows can make every request fail. On a fresh mutual credit, an
  allowed debt that exceeds the frozen credits by more than \<open>2 ^ 127\<close> turns any small and
  valid request into the error of an overflowing credit calculation, although the user has
  allowed more than enough.
\<close>

theorem huge_max_debt_refuses:
  assumes "is_route_part_valid (rq_route r)" and "rq_dest_payment r \<le> rq_total_dest_payment r"
    and "uint (rq_dest_payment r) + uint (rq_left_fees r) < 2 ^ 127"
    and "uint (rq_dest_payment r) + uint (rq_left_fees r) + 2 ^ 127 < uint rmd"
  shows "process_operation env (RequestSendFunds r) rmd (mutual_credit_new pk pk' cur 0) =
    Err P_CreditsCalcOverflow"
proof -
  let ?k = "uint (rq_dest_payment r) + uint (rq_left_fees r)"
  have "fits_u 128 ?k" using assms(3) by (simp add: fits_u_def)
  then obtain f :: u128 where f: "uint f = ?k"
    using uint_ex_iff_fits [where 'a = 128 and k = ?k] by auto
  then have "u_checked_add (rq_dest_payment r) (rq_left_fees r) = Some f" "u_checked_add 0 f = Some f"
    by (simp_all add: int_simps)
  moreover have "sint f = uint f"
    using f assms(3) by (intro sint_small_word) simp
  then have "checked_add_unsigned 0 f = Some f"
    by (simp add: checked_add_unsigned_Some)
  moreover have "checked_sub_unsigned f rmd = None"
    using assms(4) f \<open>sint f = uint f\<close> by (simp add: checked_sub_unsigned_None fits_i_def)
  ultimately show ?thesis
    using assms(1,2)
    by (simp add: process_request_send_funds_def fail_if_def hm_contains_def mutual_credit_new_def
        mc_balance_new_def mc_pending_transactions_new_def)
qed

theorem huge_max_debt_refuses_witness:
  "process_operation sample_env (RequestSendFunds (sample_request 100)) (2 ^ 127 + 2 ^ 126)
     (mutual_credit_new 2 1 sample_currency 0) = Err P_CreditsCalcOverflow"
  by (rule huge_max_debt_refuses)
    (simp_all add: is_route_part_valid_def MAX_ROUTE_LEN_def message_simps)


end
