(* ===== verification/Token_Channel.thy ===== *)
theory Token_Channel
  imports Mc_Agreement
begin

text \<open>
  \<open>components/funder/src/token_channel.rs\<close>: the chain of signed messages by which two friends
  take turns in changing the mutual credits of all their currencies. The side whose channel is
  \<open>Incoming\<close> holds the token and may send; the side whose channel is \<open>Outgoing\<close> has sent
  its message and waits.

  A \<open>HashSet\<close> of currencies is a list without repetition, in the unspecified order of its
  iterator. The borrowed views \<open>TcInBorrow\<close> and \<open>TcOutBorrow\<close> are records with the same
  fields. Both \<open>simulate_\<close> methods work on a copy of the channel and return the mutations
  that the caller applies.
\<close>

named_theorems tc_simps \<open>fields of a token channel after a mutation\<close>

datatype 'b set_direction =
    SetIncoming move_token_hashed
  | SetOutgoing "'b move_token" token_info

datatype 'b tc_mutation =
    McMutation currency mc_mutation
  | SetLocalActiveCurrencies "currency list"
  | SetRemoteActiveCurrencies "currency list"
  | AddMutualCredit currency
  | SetDirection "'b set_direction"

record active_currencies =
  ac_local :: "currency list"
  ac_remote :: "currency list"

definition active_currencies_new :: active_currencies where
  "active_currencies_new = \<lparr> ac_local = [], ac_remote = [] \<rparr>"

text \<open>\<open>HashSet::intersection\<close> and \<open>HashSet::relative_complement\<close>.\<close>

definition hs_intersection :: "'a list \<Rightarrow> 'a list \<Rightarrow> 'a list" where
  "hs_intersection xs ys = filter (\<lambda>x. x \<in> set ys) xs"

definition hs_relative_complement :: "'a list \<Rightarrow> 'a list \<Rightarrow> 'a list" where
  "hs_relative_complement xs ys = filter (\<lambda>x. x \<notin> set ys) xs"

definition calc_active :: "active_currencies \<Rightarrow> currency list" where
  "calc_active ac = hs_intersection (ac_local ac) (ac_remote ac)"

record 'b tc_outgoing =
  tco_move_token_out :: "'b move_token"
  tco_token_info :: token_info
  tco_opt_prev_move_token_in :: "move_token_hashed option"

record tc_incoming =
  tci_move_token_in :: move_token_hashed

datatype 'b tc_direction = TcIncoming tc_incoming | TcOutgoing "'b tc_outgoing"

type_synonym mc_map = "(currency, mutual_credit) hash_map"

record tc_in_borrow =
  tib_tc_incoming :: tc_incoming
  tib_mutual_credits :: mc_map
  tib_active_currencies :: active_currencies

record 'b tc_out_borrow =
  tob_tc_outgoing :: "'b tc_outgoing"
  tob_mutual_credits :: mc_map
  tob_active_currencies :: active_currencies

record 'b token_channel =
  tc_direction :: "'b tc_direction"
  tc_mutual_credits :: mc_map
  tc_active_currencies :: active_currencies

datatype receive_move_token_error =
    ChainInconsistency
  | InvalidTransaction process_trans_list_error
  | InvalidSignature
  | InvalidTokenInfo
  | InvalidInconsistencyCounter
  | MoveTokenCounterOverflow
  | InvalidMoveTokenCounter
  | TooManyOperations
  | InvalidCurrency
  | InvalidAddActiveCurrencies
  | CanNotRemoveCurrencyInUse

record move_token_received_currency =
  mtrc_currency :: currency
  mtrc_incoming_messages :: "incoming_message list"

record 'b move_token_received =
  mtrv_mutations :: "'b tc_mutation list"
  mtrv_currencies :: "move_token_received_currency list"
  mtrv_opt_local_relays :: "'b relay_address list option"

datatype 'b receive_move_token_output =
    Duplicate
  | RetransmitOutgoing "'b move_token"
  | Received "'b move_token_received"

record 'b send_move_token_output =
  smo_unsigned_move_token :: "'b unsigned_move_token"
  smo_mutations :: "'b tc_mutation list"
  smo_token_info :: token_info

datatype send_move_token_error =
    S_LocalCurrencyAlreadyExists | S_CanNotRemoveCurrencyInUse

section \<open>The initial token\<close>

text \<open>The public key fills the first half of the 64 bytes; the nonce is the first half of a hash.\<close>

definition token_from_public_key :: "public_key \<Rightarrow> signature" where
  "token_from_public_key pk = push_bit 256 (ucast pk)"

definition rand_nonce_from_public_key :: "'b env \<Rightarrow> public_key \<Rightarrow> rand_value" where
  "rand_nonce_from_public_key env pk =
     ucast (drop_bit 128 (sha_512_256 env (to_be_bytes pk)))"

definition initial_move_token ::
  "'b env \<Rightarrow> public_key \<Rightarrow> public_key \<Rightarrow> 'b move_token \<times> token_info"
where
  "initial_move_token env low_public_key high_public_key =
     (let token_info =
            \<lparr> ti_mc = \<lparr> mi_local_public_key = low_public_key,
                mi_remote_public_key = high_public_key, mi_balances = [] \<rparr>,
              ti_counters = \<lparr> ci_inconsistency_counter = 0, ci_move_token_counter = 0 \<rparr> \<rparr>;
          move_token =
            \<lparr> mt_old_token = token_from_public_key low_public_key,
              mt_currencies_operations = [], mt_opt_local_relays = None,
              mt_opt_active_currencies = None, mt_info_hash = hash_token_info env token_info,
              mt_rand_nonce = rand_nonce_from_public_key env high_public_key,
              mt_new_token = token_from_public_key high_public_key \<rparr>
      in (move_token, token_info))"

definition token_channel_new :: "'b env \<Rightarrow> public_key \<Rightarrow> public_key \<Rightarrow> 'b token_channel" where
  "token_channel_new env local_public_key remote_public_key =
     (if compare_public_key env local_public_key remote_public_key = Less
      then (let (move_token_out, token_info) =
                  initial_move_token env local_public_key remote_public_key in
            \<lparr> tc_direction = TcOutgoing
                \<lparr> tco_move_token_out = move_token_out, tco_token_info = token_info,
                  tco_opt_prev_move_token_in = None \<rparr>,
              tc_mutual_credits = [], tc_active_currencies = active_currencies_new \<rparr>)
      else (let (move_token_in_full, token_info) =
                  initial_move_token env remote_public_key local_public_key in
            \<lparr> tc_direction = TcIncoming
                \<lparr> tci_move_token_in = create_hashed env move_token_in_full token_info \<rparr>,
              tc_mutual_credits = [], tc_active_currencies = active_currencies_new \<rparr>))"

fun remote_reset_credits ::
  "public_key \<Rightarrow> public_key \<Rightarrow> currency_balance_info list \<Rightarrow>
   ('e, (currency \<times> mutual_credit) list) result"
where
  "remote_reset_credits local_pk remote_pk [] = Ok []"
| "remote_reset_credits local_pk remote_pk (cbi # cbis) =
     and_then (unwrap (i_checked_neg (bi_balance (cbi_balance_info cbi)))) (\<lambda>balance.
     and_then (remote_reset_credits local_pk remote_pk cbis) (\<lambda>rest.
     Ok ((cbi_currency cbi,
          mutual_credit_new local_pk remote_pk (cbi_currency cbi) balance) # rest)))"

definition new_from_remote_reset ::
  "'b env \<Rightarrow> 'b move_token \<Rightarrow> token_info \<Rightarrow> ('e, 'b token_channel) result"
where
  "new_from_remote_reset env reset_move_token remote_token_info =
     and_then (remote_reset_credits (mi_remote_public_key (ti_mc remote_token_info))
       (mi_local_public_key (ti_mc remote_token_info))
       (mi_balances (ti_mc remote_token_info))) (\<lambda>credits.
     let mutual_credits = hm_collect credits;
         active_currencies = hs_collect (hm_keys mutual_credits) in
     Ok \<lparr> tc_direction = TcIncoming
            \<lparr> tci_move_token_in = create_hashed env reset_move_token remote_token_info \<rparr>,
          tc_mutual_credits = mutual_credits,
          tc_active_currencies =
            \<lparr> ac_local = active_currencies, ac_remote = active_currencies \<rparr> \<rparr>)"

definition new_from_local_reset ::
  "'b move_token \<Rightarrow> token_info \<Rightarrow> move_token_hashed option \<Rightarrow> 'b token_channel"
where
  "new_from_local_reset reset_move_token token_info opt_last_incoming_move_token =
     (let mutual_credits = hm_collect (map (\<lambda>cbi.
            (cbi_currency cbi,
             mutual_credit_new (mi_local_public_key (ti_mc token_info))
               (mi_remote_public_key (ti_mc token_info)) (cbi_currency cbi)
               (bi_balance (cbi_balance_info cbi))))
            (mi_balances (ti_mc token_info)));
          active_currencies = hs_collect (hm_keys mutual_credits) in
      \<lparr> tc_direction = TcOutgoing
          \<lparr> tco_move_token_out = reset_move_token, tco_token_info = token_info,
            tco_opt_prev_move_token_in = opt_last_incoming_move_token \<rparr>,
        tc_mutual_credits = mutual_credits,
        tc_active_currencies =
          \<lparr> ac_local = active_currencies, ac_remote = active_currencies \<rparr> \<rparr>)"

section \<open>Access and mutations\<close>

definition get_incoming :: "'b token_channel \<Rightarrow> tc_in_borrow option" where
  "get_incoming tc =
     (case tc_direction tc of
        TcIncoming tc_incoming \<Rightarrow>
          Some \<lparr> tib_tc_incoming = tc_incoming, tib_mutual_credits = tc_mutual_credits tc,
                 tib_active_currencies = tc_active_currencies tc \<rparr>
      | TcOutgoing _ \<Rightarrow> None)"

definition get_outgoing :: "'b token_channel \<Rightarrow> 'b tc_out_borrow option" where
  "get_outgoing tc =
     (case tc_direction tc of
        TcIncoming _ \<Rightarrow> None
      | TcOutgoing tc_outgoing \<Rightarrow>
          Some \<lparr> tob_tc_outgoing = tc_outgoing, tob_mutual_credits = tc_mutual_credits tc,
                 tob_active_currencies = tc_active_currencies tc \<rparr>)"

definition get_last_incoming_move_token_hashed :: "'b token_channel \<Rightarrow> move_token_hashed option" where
  "get_last_incoming_move_token_hashed tc =
     (case tc_direction tc of
        TcIncoming tc_incoming \<Rightarrow> Some (tci_move_token_in tc_incoming)
      | TcOutgoing tc_outgoing \<Rightarrow> tco_opt_prev_move_token_in tc_outgoing)"

definition get_inconsistency_counter :: "'b token_channel \<Rightarrow> u64" where
  "get_inconsistency_counter tc =
     (case tc_direction tc of
        TcIncoming tc_incoming \<Rightarrow>
          ci_inconsistency_counter (ti_counters (mth_token_info (tci_move_token_in tc_incoming)))
      | TcOutgoing tc_outgoing \<Rightarrow>
          ci_inconsistency_counter (ti_counters (tco_token_info tc_outgoing)))"

fun tc_mutate :: "'b tc_mutation \<Rightarrow> 'b token_channel \<Rightarrow> ('e, 'b token_channel) result" where
  "tc_mutate (McMutation currency mc_mutation) tc =
     and_then (unwrap (hm_get (tc_mutual_credits tc) currency)) (\<lambda>mutual_credit.
     and_then (mc_mutate mc_mutation mutual_credit) (\<lambda>mutual_credit'.
     Ok (tc \<lparr> tc_mutual_credits :=
       hm_insert currency mutual_credit' (tc_mutual_credits tc) \<rparr>)))"
| "tc_mutate (SetDirection (SetIncoming friend_move_token_hashed)) tc =
     Ok (tc \<lparr> tc_direction := TcIncoming \<lparr> tci_move_token_in = friend_move_token_hashed \<rparr> \<rparr>)"
| "tc_mutate (SetDirection (SetOutgoing friend_move_token token_info)) tc =
     Ok (tc \<lparr> tc_direction := TcOutgoing
       \<lparr> tco_move_token_out = friend_move_token, tco_token_info = token_info,
         tco_opt_prev_move_token_in = get_last_incoming_move_token_hashed tc \<rparr> \<rparr>)"
| "tc_mutate (SetLocalActiveCurrencies currencies) tc =
     Ok (tc \<lparr> tc_active_currencies :=
       (tc_active_currencies tc) \<lparr> ac_local := hs_collect currencies \<rparr> \<rparr>)"
| "tc_mutate (SetRemoteActiveCurrencies currencies) tc =
     Ok (tc \<lparr> tc_active_currencies :=
       (tc_active_currencies tc) \<lparr> ac_remote := hs_collect currencies \<rparr> \<rparr>)"
| "tc_mutate (AddMutualCredit currency) tc =
     and_then (assert_that (currency \<in> set (ac_local (tc_active_currencies tc)))) (\<lambda>_.
     and_then (assert_that (currency \<in> set (ac_remote (tc_active_currencies tc)))) (\<lambda>_.
     and_then (case tc_direction tc of
         TcIncoming tc_incoming \<Rightarrow>
           token_info_flip (mth_token_info (tci_move_token_in tc_incoming))
       | TcOutgoing tc_outgoing \<Rightarrow> Ok (tco_token_info tc_outgoing)) (\<lambda>token_info.
     let new_mutual_credit = mutual_credit_new (mi_local_public_key (ti_mc token_info))
           (mi_remote_public_key (ti_mc token_info)) currency 0 in
     and_then (assert_that (\<not> hm_contains (tc_mutual_credits tc) currency)) (\<lambda>_.
     Ok (tc \<lparr> tc_mutual_credits :=
       hm_insert currency new_mutual_credit (tc_mutual_credits tc) \<rparr>)))))"

section \<open>Sending\<close>

text \<open>
  \<open>(local ^ remote) \ mutual_credit_currencies\<close>, and the loop that adds a mutual credit for
  each of them, which sending and receiving share.
\<close>

definition new_currencies :: "mc_map \<Rightarrow> active_currencies \<Rightarrow> currency list" where
  "new_currencies mutual_credits ac =
     hs_relative_complement (hs_intersection (ac_remote ac) (ac_local ac))
       (hs_collect (hm_keys mutual_credits))"

definition add_currencies ::
  "currency list \<Rightarrow> 'b token_channel \<times> 'b tc_mutation list \<Rightarrow>
   ('e, 'b token_channel \<times> 'b tc_mutation list) result"
where
  "add_currencies currencies =
     fold_r (\<lambda>currency. mutate_push tc_mutate (AddMutualCredit currency)) currencies"

text \<open>The inner loop over the mutations of one operation.\<close>

definition push_mc_mutations ::
  "currency \<Rightarrow> mc_mutation list \<Rightarrow> 'b token_channel \<times> 'b tc_mutation list \<Rightarrow>
   ('e, 'b token_channel \<times> 'b tc_mutation list) result"
where
  "push_mc_mutations currency =
     fold_r (\<lambda>mc_mutation. mutate_push tc_mutate (McMutation currency mc_mutation))"

definition send_set_active_currencies ::
  "currency list option \<Rightarrow> 'b token_channel \<times> 'b tc_mutation list \<Rightarrow>
   (send_move_token_error, 'b token_channel \<times> 'b tc_mutation list) result"
where
  "send_set_active_currencies opt_active_currencies s =
     (case opt_active_currencies of
        None \<Rightarrow> Ok s
      | Some active_currencies \<Rightarrow>
          and_then (fail_if (list_ex (\<lambda>c. c \<notin> set active_currencies)
            (hm_keys (tc_mutual_credits (fst s)))) S_CanNotRemoveCurrencyInUse) (\<lambda>_.
          and_then (mutate_push tc_mutate (SetLocalActiveCurrencies active_currencies) s) (\<lambda>s.
          and_then (unwrap (get_incoming (fst s))) (\<lambda>tc_in_borrow.
          add_currencies (new_currencies (tib_mutual_credits tc_in_borrow)
            (tib_active_currencies tc_in_borrow)) s))))"

fun queue_operations ::
  "'b env \<Rightarrow> currency \<Rightarrow> friend_tc_op list \<Rightarrow> mutual_credit \<Rightarrow>
   'b token_channel \<times> 'b tc_mutation list \<Rightarrow> ('e, 'b token_channel \<times> 'b tc_mutation list) result"
where
  "queue_operations env currency [] outgoing_mc s = Ok s"
| "queue_operations env currency (op # ops) outgoing_mc s =
     and_then (unwrap_result (queue_operation env op outgoing_mc)) (\<lambda>(outgoing_mc', mc_mutations).
     and_then (push_mc_mutations currency mc_mutations s) (\<lambda>s'.
     queue_operations env currency ops outgoing_mc' s'))"

definition queue_currency_operations ::
  "'b env \<Rightarrow> currency_operations \<Rightarrow> 'b token_channel \<times> 'b tc_mutation list \<Rightarrow>
   ('e, 'b token_channel \<times> 'b tc_mutation list) result"
where
  "queue_currency_operations env currency_operations s =
     and_then (unwrap (get_incoming (fst s))) (\<lambda>tc_in_borrow.
     and_then (unwrap (hm_get (tib_mutual_credits tc_in_borrow) (cop_currency currency_operations)))
       (\<lambda>mutual_credit.
     queue_operations env (cop_currency currency_operations) (cop_operations currency_operations)
       mutual_credit s))"

definition calc_balances :: "mc_map \<Rightarrow> currency_balance_info list" where
  "calc_balances mutual_credits =
     sort_key cbi_currency (map (\<lambda>(currency, mutual_credit).
       \<lparr> cbi_currency = currency,
         cbi_balance_info =
           \<lparr> bi_balance = mcb_balance (mc_balance mutual_credit),
             bi_local_pending_debt = mcb_local_pending_debt (mc_balance mutual_credit),
             bi_remote_pending_debt = mcb_remote_pending_debt (mc_balance mutual_credit) \<rparr> \<rparr>)
       mutual_credits)"

definition create_in_token_channel :: "tc_in_borrow \<Rightarrow> 'b token_channel" where
  "create_in_token_channel b =
     \<lparr> tc_direction = TcIncoming (tib_tc_incoming b), tc_mutual_credits = tib_mutual_credits b,
       tc_active_currencies = tib_active_currencies b \<rparr>"

definition simulate_send_move_token ::
  "'b env \<Rightarrow> tc_in_borrow \<Rightarrow> currency_operations list \<Rightarrow> 'b relay_address list option \<Rightarrow>
   currency list option \<Rightarrow> rand_value \<Rightarrow> (send_move_token_error, 'b send_move_token_output) result"
where
  "simulate_send_move_token env b currencies_operations opt_local_relays opt_active_currencies
     rand_nonce =
     and_then (send_set_active_currencies opt_active_currencies (create_in_token_channel b, []))
       (\<lambda>s.
     and_then (fold_r (queue_currency_operations env) currencies_operations s)
       (\<lambda>(token_channel, tc_mutations).
     and_then (unwrap (get_incoming token_channel)) (\<lambda>tc_in_borrow.
     let balances = calc_balances (tib_mutual_credits tc_in_borrow);
         move_token_in = tci_move_token_in (tib_tc_incoming tc_in_borrow);
         cur_token_info = mth_token_info move_token_in;
         token_info =
           \<lparr> ti_mc = \<lparr> mi_local_public_key = mi_remote_public_key (ti_mc cur_token_info),
               mi_remote_public_key = mi_local_public_key (ti_mc cur_token_info),
               mi_balances = balances \<rparr>,
             ti_counters =
               \<lparr> ci_inconsistency_counter = ci_inconsistency_counter (ti_counters cur_token_info),
                 ci_move_token_counter = ci_move_token_counter (ti_counters cur_token_info) + 1 \<rparr> \<rparr>;
         unsigned_move_token = create_unsigned_move_token env currencies_operations
           opt_local_relays opt_active_currencies token_info (mth_new_token move_token_in) rand_nonce
     in Ok \<lparr> smo_unsigned_move_token = unsigned_move_token, smo_mutations = tc_mutations,
             smo_token_info = token_info \<rparr>)))"

definition create_outgoing_mc :: "tc_in_borrow \<Rightarrow> currency \<Rightarrow> mutual_credit option" where
  "create_outgoing_mc b currency = hm_get (tib_mutual_credits b) currency"

section \<open>Receiving\<close>

definition in_handle_incoming ::
  "'b env \<Rightarrow> tc_in_borrow \<Rightarrow> 'b move_token \<Rightarrow>
   (receive_move_token_error, 'b receive_move_token_output) result"
where
  "in_handle_incoming env b new_move_token =
     (if tci_move_token_in (tib_tc_incoming b) =
           create_hashed env new_move_token
             (mth_token_info (tci_move_token_in (tib_tc_incoming b)))
      then Ok Duplicate else Err ChainInconsistency)"

definition receive_set_active_currencies ::
  "currency list option \<Rightarrow> 'b token_channel \<times> 'b tc_mutation list \<Rightarrow>
   (receive_move_token_error, 'b token_channel \<times> 'b tc_mutation list) result"
where
  "receive_set_active_currencies opt_active_currencies s =
     (case opt_active_currencies of
        None \<Rightarrow> Ok s
      | Some active_currencies \<Rightarrow>
          and_then (fail_if (list_ex (\<lambda>c. c \<notin> set active_currencies)
            (hm_keys (tc_mutual_credits (fst s)))) CanNotRemoveCurrencyInUse) (\<lambda>_.
          and_then (mutate_push tc_mutate (SetRemoteActiveCurrencies active_currencies) s) (\<lambda>s.
          and_then (unwrap (get_outgoing (fst s))) (\<lambda>tc_out_borrow.
          add_currencies (new_currencies (tob_mutual_credits tc_out_borrow)
            (tob_active_currencies tc_out_borrow)) s))))"

fun push_outputs ::
  "currency \<Rightarrow> process_operation_output list \<Rightarrow> incoming_message list \<Rightarrow>
   'b token_channel \<times> 'b tc_mutation list \<Rightarrow>
   ('e, incoming_message list \<times> 'b token_channel \<times> 'b tc_mutation list) result"
where
  "push_outputs currency [] incoming_messages s = Ok (incoming_messages, s)"
| "push_outputs currency (output # outputs) incoming_messages s =
     (let incoming_messages' =
            (case po_incoming_message output of
               Some funds \<Rightarrow> incoming_messages @ [funds] | None \<Rightarrow> incoming_messages) in
      and_then (push_mc_mutations currency (po_mc_mutations output) s) (\<lambda>s'.
      push_outputs currency outputs incoming_messages' s'))"

type_synonym 'b receive_state =
  "move_token_received_currency list \<times> 'b token_channel \<times> 'b tc_mutation list"

definition process_currency_operations ::
  "'b env \<Rightarrow> (currency, u128) hash_map \<Rightarrow> currency_operations \<Rightarrow> 'b receive_state \<Rightarrow>
   (receive_move_token_error, 'b receive_state) result"
where
  "process_currency_operations env remote_max_debts currency_operations rs =
     (case rs of (currencies, s) \<Rightarrow>
     and_then (unwrap (get_outgoing (fst s))) (\<lambda>tc_out_borrow.
     and_then (ok_or (hm_get (tob_mutual_credits tc_out_borrow) (cop_currency currency_operations))
       InvalidCurrency) (\<lambda>mutual_credit.
     let remote_max_debt =
           (case hm_get remote_max_debts (cop_currency currency_operations) of
              Some d \<Rightarrow> d | None \<Rightarrow> 0) in
     and_then (map_err InvalidTransaction (process_operations_list env
       (cop_operations currency_operations) remote_max_debt mutual_credit)) (\<lambda>(_, outputs).
     and_then (push_outputs (cop_currency currency_operations) outputs [] s)
       (\<lambda>(incoming_messages, s').
     Ok (currencies @ [\<lparr> mtrc_currency = cop_currency currency_operations,
                         mtrc_incoming_messages = incoming_messages \<rparr>], s'))))))"

definition create_out_token_channel :: "'b tc_out_borrow \<Rightarrow> 'b token_channel" where
  "create_out_token_channel b =
     \<lparr> tc_direction = TcOutgoing (tob_tc_outgoing b), tc_mutual_credits = tob_mutual_credits b,
       tc_active_currencies = tob_active_currencies b \<rparr>"

definition handle_incoming_token_match ::
  "'b env \<Rightarrow> 'b tc_out_borrow \<Rightarrow> 'b move_token \<Rightarrow> (currency, u128) hash_map \<Rightarrow>
   (receive_move_token_error, 'b move_token_received) result"
where
  "handle_incoming_token_match env b new_move_token remote_max_debts =
     (let own_token_info = tco_token_info (tob_tc_outgoing b);
          remote_public_key = mi_remote_public_key (ti_mc own_token_info) in
      and_then (fail_if (\<not> verify_move_token env new_move_token remote_public_key)
        InvalidSignature) (\<lambda>_.
      and_then (receive_set_active_currencies (mt_opt_active_currencies new_move_token)
        (create_out_token_channel b, [])) (\<lambda>s.
      and_then (fold_r (process_currency_operations env remote_max_debts)
        (mt_currencies_operations new_move_token) ([], s)) (\<lambda>(currencies, token_channel, mutations).
      and_then (unwrap (get_outgoing token_channel)) (\<lambda>tc_out_borrow.
      let expected_balances = calc_balances (tob_mutual_credits tc_out_borrow);
          token_info = tco_token_info (tob_tc_outgoing tc_out_borrow) in
      and_then (ok_or (u_checked_add (ci_move_token_counter (ti_counters token_info)) 1)
        MoveTokenCounterOverflow) (\<lambda>move_token_counter.
      and_then (token_info_flip
        \<lparr> ti_mc = \<lparr> mi_local_public_key = mi_local_public_key (ti_mc token_info),
            mi_remote_public_key = mi_remote_public_key (ti_mc token_info),
            mi_balances = expected_balances \<rparr>,
          ti_counters =
            \<lparr> ci_inconsistency_counter = ci_inconsistency_counter (ti_counters token_info),
              ci_move_token_counter = move_token_counter \<rparr> \<rparr>) (\<lambda>expected_token_info.
      and_then (fail_if (mt_info_hash new_move_token \<noteq> hash_token_info env expected_token_info)
        InvalidTokenInfo) (\<lambda>_.
      Ok \<lparr> mtrv_mutations = mutations @ [SetDirection (SetIncoming
             (create_hashed env new_move_token expected_token_info))],
           mtrv_currencies = currencies,
           mtrv_opt_local_relays = mt_opt_local_relays new_move_token \<rparr>))))))))"

definition out_handle_incoming ::
  "'b env \<Rightarrow> 'b tc_out_borrow \<Rightarrow> 'b move_token \<Rightarrow> (currency, u128) hash_map \<Rightarrow>
   (receive_move_token_error, 'b receive_move_token_output) result"
where
  "out_handle_incoming env b new_move_token remote_max_debts =
     (let move_token_out = tco_move_token_out (tob_tc_outgoing b) in
      if mt_old_token new_move_token = mt_new_token move_token_out
      then and_then (handle_incoming_token_match env b new_move_token remote_max_debts)
             (\<lambda>received. Ok (Received received))
      else if mt_old_token move_token_out = mt_new_token new_move_token
      then Ok (RetransmitOutgoing move_token_out)
      else Err ChainInconsistency)"

definition simulate_receive_move_token ::
  "'b env \<Rightarrow> 'b token_channel \<Rightarrow> 'b move_token \<Rightarrow> (currency, u128) hash_map \<Rightarrow>
   (receive_move_token_error, 'b receive_move_token_output) result"
where
  "simulate_receive_move_token env tc new_move_token remote_max_debts =
     (case tc_direction tc of
        TcIncoming tc_incoming \<Rightarrow>
          in_handle_incoming env
            \<lparr> tib_tc_incoming = tc_incoming, tib_mutual_credits = tc_mutual_credits tc,
              tib_active_currencies = tc_active_currencies tc \<rparr> new_move_token
      | TcOutgoing tc_outgoing \<Rightarrow>
          out_handle_incoming env
            \<lparr> tob_tc_outgoing = tc_outgoing, tob_mutual_credits = tc_mutual_credits tc,
              tob_active_currencies = tc_active_currencies tc \<rparr> new_move_token remote_max_debts)"

section \<open>Mutations replay\<close>

definition tc_wf :: "'b token_channel \<Rightarrow> bool" where
  "tc_wf tc \<longleftrightarrow>
     hm_wf (tc_mutual_credits tc) \<and> list_all (\<lambda>(c, mc). mc_wf mc) (tc_mutual_credits tc)"

lemma tc_wf_set_mc:
  "tc_wf tc \<Longrightarrow> mc_wf mc \<Longrightarrow>
   tc_wf (tc \<lparr> tc_mutual_credits := hm_insert c mc (tc_mutual_credits tc) \<rparr>)"
  by (auto simp: tc_wf_def hm_all_iff hm_wf_insert hm_get_insert)

lemma tc_wf_get: "tc_wf tc \<Longrightarrow> hm_get (tc_mutual_credits tc) c = Some mc \<Longrightarrow> mc_wf mc"
  by (auto simp: tc_wf_def hm_all_iff)

lemma tc_mutate_wf: "tc_mutate m tc = Ok tc' \<Longrightarrow> tc_wf tc \<Longrightarrow> tc_wf tc'"
  by (induction m tc rule: tc_mutate.induct)
    (auto simp: rust_simps Let_def mc_inv_wf mc_inv_new dest: tc_wf_get mc_mutate_wf
      intro!: tc_wf_set_mc, simp_all add: tc_wf_def)

interpretation tcj: mutable_state tc_mutate tc_wf
  by unfold_locales (rule tc_mutate_wf)

lemma mc_mutate_cast:
  "mc_mutate m mc = (Ok mc' :: ('e, _) result) \<Longrightarrow> mc_mutate m mc = (Ok mc' :: ('f, _) result)"
  by (cases m) (auto simp: rust_simps mc_field_defs)

lemma flip_balances_cast:
  "flip_balances bs = (Ok cs :: ('e, _) result) \<Longrightarrow> flip_balances bs = (Ok cs :: ('f, _) result)"
  by (induction bs arbitrary: cs) (auto simp: rust_simps balance_info_flip_def)

lemma tc_mutate_cast:
  "tc_mutate m tc = (Ok tc' :: ('e, 'b token_channel) result) \<Longrightarrow>
   tc_mutate m tc = (Ok tc' :: ('f, 'b token_channel) result)"
  by (induction m tc rule: tc_mutate.induct)
    (auto simp: rust_simps Let_def token_info_flip_def mc_info_flip_def
      dest: mc_mutate_cast flip_balances_cast split: tc_direction.splits)

lemma add_currencies_replay:
  assumes "add_currencies cs (tc, muts) = (Ok (tc', muts') :: ('e, _) result)"
    and "replay tc_mutate muts tc0 = (Ok tc :: ('e, _) result)"
  shows "replay tc_mutate muts' tc0 = (Ok tc' :: ('e, 'b token_channel) result)"
  using assms unfolding add_currencies_def by (rule tcj.push_all_replay)

lemma push_mc_mutations_replay:
  assumes "push_mc_mutations c ms (tc, muts) = (Ok (tc', muts') :: ('e, _) result)"
    and "replay tc_mutate muts tc0 = (Ok tc :: ('e, _) result)"
  shows "replay tc_mutate muts' tc0 = (Ok tc' :: ('e, 'b token_channel) result)"
  using assms unfolding push_mc_mutations_def by (rule tcj.push_all_replay)

lemma send_set_active_currencies_replay:
  assumes "send_set_active_currencies opt (tc, []) = Ok (tc', muts')"
  shows "replay tc_mutate muts' tc = (Ok tc' :: (send_move_token_error, _) result)"
  using assms
  by (auto simp: send_set_active_currencies_def rust_simps split: option.splits
      intro: add_currencies_replay)

lemma receive_set_active_currencies_replay:
  assumes "receive_set_active_currencies opt (tc, []) = Ok (tc', muts')"
  shows "replay tc_mutate muts' tc = (Ok tc' :: (receive_move_token_error, _) result)"
  using assms
  by (auto simp: receive_set_active_currencies_def rust_simps split: option.splits
      intro: add_currencies_replay)

lemma queue_operations_replay:
  assumes "queue_operations env c ops mc (tc, muts) = (Ok (tc', muts') :: ('e, _) result)"
    and "replay tc_mutate muts tc0 = (Ok tc :: ('e, _) result)"
  shows "replay tc_mutate muts' tc0 = (Ok tc' :: ('e, 'b token_channel) result)"
  using assms
proof (induction ops arbitrary: mc tc muts)
  case (Cons op ops)
  then obtain mc1 ms tc1 muts1 where
    p: "push_mc_mutations c ms (tc, muts) = (Ok (tc1, muts1) :: ('e, _) result)"
    and rest: "queue_operations env c ops mc1 (tc1, muts1) = (Ok (tc', muts') :: ('e, _) result)"
    by (auto simp: rust_simps)
  show ?case
    by (rule Cons.IH [OF rest push_mc_mutations_replay [OF p Cons.prems(2)]])
qed simp

lemma queue_currency_operations_replay:
  assumes "fold_r (queue_currency_operations env) cos (tc, muts) =
      (Ok (tc', muts') :: ('e, _) result)"
    and "replay tc_mutate muts tc0 = (Ok tc :: ('e, _) result)"
  shows "replay tc_mutate muts' tc0 = (Ok tc' :: ('e, 'b token_channel) result)"
  using fold_r_invariant [OF assms(1), where P = "\<lambda>(tc, muts).
      replay tc_mutate muts tc0 = (Ok tc :: ('e, _) result)"] assms(2)
  by (auto simp: queue_currency_operations_def rust_simps intro: queue_operations_replay)

lemma push_outputs_replay:
  assumes "push_outputs c outs msgs (tc, muts) = (Ok (msgs', tc', muts') :: ('e, _) result)"
    and "replay tc_mutate muts tc0 = (Ok tc :: ('e, _) result)"
  shows "replay tc_mutate muts' tc0 = (Ok tc' :: ('e, 'b token_channel) result)"
  using assms
proof (induction outs arbitrary: msgs tc muts)
  case (Cons out outs)
  then obtain msgs1 tc1 muts1 where
    p: "push_mc_mutations c (po_mc_mutations out) (tc, muts) = (Ok (tc1, muts1) :: ('e, _) result)"
    and rest: "push_outputs c outs msgs1 (tc1, muts1) = (Ok (msgs', tc', muts') :: ('e, _) result)"
    by (auto simp: rust_simps Let_def)
  show ?case
    by (rule Cons.IH [OF rest push_mc_mutations_replay [OF p Cons.prems(2)]])
qed simp

lemma process_currency_operations_replay:
  assumes "fold_r (process_currency_operations env rmds) cos (rcs, tc, muts) =
      Ok (rcs', tc', muts')"
    and "replay tc_mutate muts tc0 = (Ok tc :: (receive_move_token_error, _) result)"
  shows "replay tc_mutate muts' tc0 = (Ok tc' :: (receive_move_token_error, _) result)"
proof -
  have step: "replay tc_mutate muts2 tc0 = (Ok tc2 :: (receive_move_token_error, _) result)"
    if "process_currency_operations env rmds co (rcs1, tc1, muts1) = Ok (rcs2, tc2, muts2)"
      "replay tc_mutate muts1 tc0 = (Ok tc1 :: (receive_move_token_error, _) result)"
    for co rcs1 tc1 muts1 rcs2 tc2 muts2
    using that
    by (auto simp: process_currency_operations_def rust_simps Let_def intro: push_outputs_replay)
  show ?thesis
    using fold_r_invariant [OF assms(1), where P = "\<lambda>(rcs, tc, muts).
        replay tc_mutate muts tc0 = (Ok tc :: (receive_move_token_error, _) result)"] assms(2) step
    by fast
qed

end
