(* ===== verification/Tc_Agreement.thy ===== *)
theory Tc_Agreement
  imports Token_Channel
begin

text \<open>
  The two ends of a token channel. \<open>tc_synced env out inn\<close> relates the end that has sent
  the last message to the end that holds the token. The main result is that an honest round
  (the holder composes and signs a message, the other end receives it) restores the relation
  with the roles exchanged, whatever operations and currencies the message carries.
\<close>

definition mcs_inv :: "mc_map \<Rightarrow> bool" where
  "mcs_inv m \<longleftrightarrow> hm_wf m \<and> list_all (\<lambda>(c, mc). mc_inv mc) m"

definition mcs_mirror :: "mc_map \<Rightarrow> mc_map \<Rightarrow> bool" where
  "mcs_mirror m n \<longleftrightarrow> (\<forall>c. rel_option mc_mirror (hm_get m c) (hm_get n c))"

definition tc_mirror :: "'b token_channel \<Rightarrow> 'b token_channel \<Rightarrow> bool" where
  "tc_mirror a b \<longleftrightarrow>
     mcs_inv (tc_mutual_credits a) \<and> mcs_inv (tc_mutual_credits b) \<and>
     mcs_mirror (tc_mutual_credits a) (tc_mutual_credits b) \<and>
     set (ac_local (tc_active_currencies a)) = set (ac_remote (tc_active_currencies b)) \<and>
     set (ac_remote (tc_active_currencies a)) = set (ac_local (tc_active_currencies b)) \<and>
     distinct (ac_remote (tc_active_currencies a)) \<and>
     distinct (ac_remote (tc_active_currencies b))"

definition tc_synced :: "'b env \<Rightarrow> 'b token_channel \<Rightarrow> 'b token_channel \<Rightarrow> bool" where
  "tc_synced env out inn \<longleftrightarrow>
     (case (tc_direction out, tc_direction inn) of
        (TcOutgoing tco, TcIncoming tci) \<Rightarrow>
          tci_move_token_in tci =
            create_hashed env (tco_move_token_out tco) (tco_token_info tco) \<and>
          mi_balances (ti_mc (tco_token_info tco)) = calc_balances (tc_mutual_credits out)
      | _ \<Rightarrow> False) \<and>
     tc_mirror out inn"

text \<open>The public key of the other end, as the current token states it.\<close>

definition tc_remote_public_key :: "'b token_channel \<Rightarrow> public_key" where
  "tc_remote_public_key tc =
     (case tc_direction tc of
        TcIncoming tci \<Rightarrow> mi_local_public_key (ti_mc (mth_token_info (tci_move_token_in tci)))
      | TcOutgoing tco \<Rightarrow> mi_remote_public_key (ti_mc (tco_token_info tco)))"

text \<open>
  What an honest end does with the simulated results: it applies the returned mutations to its
  channel, and the sender adds the change of direction, for which the signature is needed.
\<close>

definition tc_send ::
  "'b env \<Rightarrow> (u8 list \<Rightarrow> signature) \<Rightarrow> currency_operations list \<Rightarrow> 'b relay_address list option \<Rightarrow>
   currency list option \<Rightarrow> rand_value \<Rightarrow> 'b token_channel \<Rightarrow>
   (send_move_token_error, 'b move_token \<times> 'b token_channel) result"
where
  "tc_send env sign cos relays opt nonce tc =
     and_then (unwrap (get_incoming tc)) (\<lambda>b.
     and_then (simulate_send_move_token env b cos relays opt nonce) (\<lambda>smo.
     let mt = sign_move_token env sign (smo_unsigned_move_token smo) in
     and_then (replay tc_mutate (smo_mutations smo @
       [SetDirection (SetOutgoing mt (smo_token_info smo))]) tc) (\<lambda>tc'.
     Ok (mt, tc'))))"

definition tc_receive ::
  "'b env \<Rightarrow> (currency, u128) hash_map \<Rightarrow> 'b move_token \<Rightarrow> 'b token_channel \<Rightarrow>
   (receive_move_token_error, 'b token_channel) result"
where
  "tc_receive env rmds mt tc =
     and_then (simulate_receive_move_token env tc mt rmds) (\<lambda>output.
     case output of
       Received received \<Rightarrow> replay tc_mutate (mtrv_mutations received) tc
     | _ \<Rightarrow> Ok tc)"

section \<open>Maps of mutual credits\<close>

lemma hm_insert_same: "hm_get m k = Some v \<Longrightarrow> hm_insert k v m = m"
  by (simp add: hm_get_def hm_insert_def update_triv)

lemma hm_insert_insert [simp]: "hm_insert k v (hm_insert k w m) = hm_insert k v m"
  by (simp add: hm_insert_def)

lemma sort_hm:
  fixes m :: "('k::linorder, 'v) hash_map"
  assumes "hm_wf m"
  shows "sort_key fst m =
    map (\<lambda>k. (k, the (hm_get m k))) (sorted_list_of_set (dom (hm_get m)))"
proof -
  have "finite (dom (hm_get m))" and dom: "dom (hm_get m) = fst ` set m"
    by (simp_all add: hm_get_def [abs_def] finite_dom_map_of dom_map_of_conv_image_fst)
  then have keys: "map fst (sort_key fst m) = sorted_list_of_set (dom (hm_get m))"
    using assms
    by (intro sorted_distinct_set_unique) (auto simp: hm_wf_def hm_keys_def distinct_map)
  have "snd p = the (hm_get m (fst p))" if "p \<in> set (sort_key fst m)" for p
  proof -
    have "(fst p, snd p) \<in> set m" using that by simp
    from hm_get_SomeI [OF assms this] show ?thesis by simp
  qed
  then have "map (\<lambda>p. (fst p, the (hm_get m (fst p)))) (sort_key fst m) = sort_key fst m"
    by (intro map_idI) (simp add: prod_eq_iff)
  then have "sort_key fst m = map (\<lambda>k. (k, the (hm_get m k))) (map fst (sort_key fst m))"
    by (simp add: comp_def)
  then show ?thesis unfolding keys .
qed

lemma sort_key_map: "sort_key g (map f xs) = map f (sort_key (\<lambda>x. g (f x)) xs)"
proof -
  have insort: "insort_key g (f x) (map f ys) = map f (insort_key (\<lambda>x. g (f x)) x ys)" for x ys
    by (induction ys) auto
  show ?thesis by (induction xs) (simp_all add: insort)
qed

definition balance_entry :: "currency \<Rightarrow> mutual_credit \<Rightarrow> currency_balance_info" where
  "balance_entry c mc =
     \<lparr> cbi_currency = c,
       cbi_balance_info =
         \<lparr> bi_balance = mcb_balance (mc_balance mc),
           bi_local_pending_debt = mcb_local_pending_debt (mc_balance mc),
           bi_remote_pending_debt = mcb_remote_pending_debt (mc_balance mc) \<rparr> \<rparr>"

lemma calc_balances_eq:
  assumes "hm_wf m"
  shows "calc_balances m =
    map (\<lambda>c. balance_entry c (the (hm_get m c))) (sorted_list_of_set (dom (hm_get m)))"
proof -
  have "calc_balances m = sort_key cbi_currency (map (\<lambda>p. balance_entry (fst p) (snd p)) m)"
    by (simp add: calc_balances_def balance_entry_def case_prod_beta')
  also have "\<dots> = map (\<lambda>p. balance_entry (fst p) (snd p)) (sort_key fst m)"
    by (simp add: sort_key_map balance_entry_def)
  finally show ?thesis by (simp add: sort_hm [OF assms] comp_def)
qed

text \<open>
  The balances that one end states are the flipped balances of the other end, in the same order.
\<close>

lemma balance_info_flip_mirror:
  assumes "mc_mirror a b"
  shows "balance_info_flip (cbi_balance_info (balance_entry c a)) =
    Ok (cbi_balance_info (balance_entry c b))"
proof -
  have "i_checked_neg (mcb_balance (mc_balance a)) = Some (mcb_balance (mc_balance b))"
    using assms by (simp add: int_simps mc_mirror_def)
  then show ?thesis
    using assms by (simp add: balance_info_flip_def balance_entry_def mc_mirror_def)
qed

lemma flip_balances_map:
  assumes "\<And>c. c \<in> set cs \<Longrightarrow> balance_info_flip (cbi_balance_info (f c)) =
      (Ok (cbi_balance_info (g c)) :: ('e, balance_info) result)"
    and "\<And>c. cbi_currency (f c) = cbi_currency (g c)"
  shows "flip_balances (map f cs) = (Ok (map g cs) :: ('e, currency_balance_info list) result)"
  using assms(1) by (induction cs) (simp_all add: assms(2))

lemma mcs_mirror_get:
  assumes "mcs_mirror m n"
  shows "hm_get m c = Some a \<Longrightarrow> \<exists>b. hm_get n c = Some b \<and> mc_mirror a b"
    and "hm_get n c = Some b \<Longrightarrow> \<exists>a. hm_get m c = Some a \<and> mc_mirror a b"
    and "hm_get m c = None \<longleftrightarrow> hm_get n c = None"
proof -
  have "rel_option mc_mirror (hm_get m c) (hm_get n c)"
    using assms by (simp add: mcs_mirror_def)
  then show "hm_get m c = Some a \<Longrightarrow> \<exists>b. hm_get n c = Some b \<and> mc_mirror a b"
    and "hm_get n c = Some b \<Longrightarrow> \<exists>a. hm_get m c = Some a \<and> mc_mirror a b"
    and "hm_get m c = None \<longleftrightarrow> hm_get n c = None"
    by (auto elim: option.rel_cases)
qed

lemma mcs_mirror_dom: "mcs_mirror m n \<Longrightarrow> dom (hm_get m) = dom (hm_get n)"
  by (auto simp: dom_def mcs_mirror_get(3))

lemma flip_balances_mirror:
  assumes "mcs_mirror m n" and "hm_wf m" and "hm_wf n"
  shows "flip_balances (calc_balances m) = Ok (calc_balances n)"
  unfolding calc_balances_eq [OF assms(2)] calc_balances_eq [OF assms(3)]
    mcs_mirror_dom [OF assms(1), symmetric]
proof (rule flip_balances_map)
  fix c assume "c \<in> set (sorted_list_of_set (dom (hm_get m)))"
  then obtain a where a: "hm_get m c = Some a"
    by (auto simp: hm.finite_dom_get [OF assms(2)])
  with mcs_mirror_get(1) [OF assms(1) a] show
    "balance_info_flip (cbi_balance_info (balance_entry c (the (hm_get m c)))) =
      Ok (cbi_balance_info (balance_entry c (the (hm_get n c))))"
    by (auto intro: balance_info_flip_mirror)
qed (simp add: balance_entry_def)

section \<open>The mutations of one currency\<close>

abbreviation set_mc :: "currency \<Rightarrow> mutual_credit \<Rightarrow> 'b token_channel \<Rightarrow> 'b token_channel" where
  "set_mc c mc tc \<equiv> tc \<lparr> tc_mutual_credits := hm_insert c mc (tc_mutual_credits tc) \<rparr>"

lemma push_mc_mutations_Ok:
  assumes "hm_get (tc_mutual_credits tc) c = Some mc"
    and "replay mc_mutate ms mc = (Ok mc' :: ('e, mutual_credit) result)"
  shows "push_mc_mutations c ms (tc, muts) =
    (Ok (set_mc c mc' tc, muts @ map (McMutation c) ms) ::
      ('e, 'b token_channel \<times> 'b tc_mutation list) result)"
  using assms
proof (induction ms arbitrary: tc mc muts)
  case Nil
  then show ?case by (simp add: push_mc_mutations_def hm_insert_same)
next
  case (Cons m ms)
  then obtain mc1 where m: "mc_mutate m mc = (Ok mc1 :: ('e, mutual_credit) result)"
    "replay mc_mutate ms mc1 = (Ok mc' :: ('e, mutual_credit) result)"
    by (auto simp: rust_simps)
  have "push_mc_mutations c (m # ms) (tc, muts) =
      (push_mc_mutations c ms (set_mc c mc1 tc, muts @ [McMutation c m]) ::
        ('e, 'b token_channel \<times> 'b tc_mutation list) result)"
    using Cons.prems(1) m(1) by (simp add: push_mc_mutations_def mutate_push_def)
  also have "\<dots> = Ok (set_mc c mc' (set_mc c mc1 tc),
      (muts @ [McMutation c m]) @ map (McMutation c) ms)"
    by (rule Cons.IH [OF _ m(2)]) (simp add: hm_get_insert)
  finally show ?case by simp
qed

lemma queue_operations_OkD:
  assumes "queue_operations env c ops mc (tc, muts) =
      (Ok (tc', muts') :: ('e, 'b token_channel \<times> 'b tc_mutation list) result)"
    and "hm_get (tc_mutual_credits tc) c = Some mc"
  shows "\<exists>mc' ms. fold_r (queue_state env) ops mc = Ok mc' \<and> tc' = set_mc c mc' tc \<and>
    muts' = muts @ map (McMutation c) ms"
  using assms
proof (induction ops arbitrary: mc tc muts)
  case Nil
  then show ?case by (auto simp: hm_insert_same intro: exI [of _ "[]"])
next
  case (Cons op ops)
  from Cons.prems(1) obtain mc1 ms s1 where
    q: "queue_operation env op mc = Ok (mc1, ms)"
    and p: "push_mc_mutations c ms (tc, muts) =
      (Ok s1 :: ('e, 'b token_channel \<times> 'b tc_mutation list) result)"
    and rest: "queue_operations env c ops mc1 s1 =
      (Ok (tc', muts') :: ('e, 'b token_channel \<times> 'b tc_mutation list) result)"
    by (auto simp: rust_simps)
  have s1: "s1 = (set_mc c mc1 tc, muts @ map (McMutation c) ms)"
    using push_mc_mutations_Ok [OF Cons.prems(2) queue_operation_replay [where 'e = 'e, OF q], of muts] p
    by simp
  from Cons.IH [OF rest [unfolded s1]] obtain mc' ms' where
    "fold_r (queue_state env) ops mc1 = Ok mc'" "tc' = set_mc c mc' tc"
    "muts' = muts @ map (McMutation c) (ms @ ms')"
    by (auto simp: hm_get_insert)
  moreover have "queue_state env op mc = Ok mc1"
    using q by (simp add: queue_state_Ok_iff)
  ultimately show ?case by fastforce
qed

lemma queue_currency_operations_OkD:
  assumes "queue_currency_operations env co (tc, muts) =
      (Ok (tc', muts') :: ('e, 'b token_channel \<times> 'b tc_mutation list) result)"
  shows "\<exists>mc mc' ms. hm_get (tc_mutual_credits tc) (cop_currency co) = Some mc \<and>
    fold_r (queue_state env) (cop_operations co) mc = Ok mc' \<and>
    tc' = set_mc (cop_currency co) mc' tc \<and> muts' = muts @ map (McMutation (cop_currency co)) ms"
proof -
  from assms obtain mc where mc: "hm_get (tc_mutual_credits tc) (cop_currency co) = Some mc"
    and q: "queue_operations env (cop_currency co) (cop_operations co) mc (tc, muts) =
      (Ok (tc', muts') :: ('e, 'b token_channel \<times> 'b tc_mutation list) result)"
    by (auto simp: queue_currency_operations_def rust_simps get_incoming_def
        split: tc_direction.splits)
  from queue_operations_OkD [OF q mc] mc show ?thesis by blast
qed

lemma process_operations_from_replay:
  assumes "process_operations_from env i ops rmd (mc, outs) = Ok (mc', outs')"
  shows "\<exists>os. outs' = outs @ os \<and>
    replay mc_mutate (concat (map po_mc_mutations os)) mc = (Ok mc' :: ('e, mutual_credit) result)"
  using assms
proof (induction ops arbitrary: i mc outs)
  case (Cons op ops)
  then obtain mc1 out where p: "process_operation env op rmd mc = Ok (mc1, out)"
    "process_operations_from env (i + 1) ops rmd (mc1, outs @ [out]) = Ok (mc', outs')"
    by (auto simp: rust_simps)
  from Cons.IH [OF p(2)] obtain os where "outs' = outs @ [out] @ os"
    "replay mc_mutate (concat (map po_mc_mutations os)) mc1 = (Ok mc' :: ('e, mutual_credit) result)"
    by auto
  with process_operation_replay [where 'e = 'e, OF p(1)] show ?case
    by (intro exI [of _ "out # os"]) (simp add: replay_append)
qed auto

lemma push_outputs_Ok:
  assumes "hm_get (tc_mutual_credits tc) c = Some mc"
    and "replay mc_mutate (concat (map po_mc_mutations outs)) mc =
      (Ok mc' :: ('e, mutual_credit) result)"
  shows "\<exists>msgs'. push_outputs c outs msgs (tc, muts) =
    (Ok (msgs', set_mc c mc' tc,
      muts @ map (McMutation c) (concat (map po_mc_mutations outs))) ::
     ('e, incoming_message list \<times> 'b token_channel \<times> 'b tc_mutation list) result)"
  using assms
proof (induction outs arbitrary: tc mc msgs muts)
  case (Cons out outs)
  then obtain mc1 where m:
    "replay mc_mutate (po_mc_mutations out) mc = (Ok mc1 :: ('e, mutual_credit) result)"
    "replay mc_mutate (concat (map po_mc_mutations outs)) mc1 =
      (Ok mc' :: ('e, mutual_credit) result)"
    by (auto simp: replay_append rust_simps)
  have "hm_get (tc_mutual_credits (set_mc c mc1 tc)) c = Some mc1"
    by (simp add: hm_get_insert)
  from Cons.IH [OF this m(2), of _ "muts @ map (McMutation c) (po_mc_mutations out)"]
    push_mc_mutations_Ok [OF Cons.prems(1) m(1), of muts]
  show ?case by (simp add: Let_def)
qed (simp add: hm_insert_same)

lemma mcs_inv_get: "mcs_inv m \<Longrightarrow> hm_get m c = Some mc \<Longrightarrow> mc_inv mc"
  by (auto simp: mcs_inv_def hm_all_iff)

lemma mcs_inv_insert: "mcs_inv m \<Longrightarrow> mc_inv mc \<Longrightarrow> mcs_inv (hm_insert c mc m)"
  by (auto simp: mcs_inv_def hm_all_iff hm_wf_insert hm_get_insert)

lemma mcs_mirror_insert:
  "mcs_mirror m n \<Longrightarrow> mc_mirror a b \<Longrightarrow> mcs_mirror (hm_insert c a m) (hm_insert c b n)"
  by (simp add: mcs_mirror_def hm_get_insert)

lemma mcs_mirror_sym: "mcs_mirror m n \<Longrightarrow> mcs_mirror n m"
  unfolding mcs_mirror_def
  by (metis mc_mirror_sym option.rel_flip option.rel_mono_strong conversep_iff)

lemma tc_mirror_sym: "tc_mirror a b \<Longrightarrow> tc_mirror b a"
  by (auto simp: tc_mirror_def mcs_mirror_sym)

text \<open>One currency: what the sender queues, the receiver processes to a mirrored credit.\<close>

lemma currency_operations_agree:
  assumes q: "queue_currency_operations env co (inn, muts) =
      (Ok (inn', muts') :: ('e, 'b token_channel \<times> 'b tc_mutation list) result)"
    and m: "tc_mirror out inn" and d: "tc_direction out = TcOutgoing tco"
  shows "(\<exists>rcs' out' rmuts'. process_currency_operations env rmds co (rcs, out, rmuts) =
        Ok (rcs', out', rmuts') \<and> tc_mirror out' inn' \<and> tc_direction out' = TcOutgoing tco) \<or>
    (\<exists>i. process_currency_operations env rmds co (rcs, out, rmuts) = Err (InvalidTransaction
        \<lparr> pte_index = i, pte_process_trans_error = P_CreditsCalcOverflow \<rparr>))"
proof -
  let ?c = "cop_currency co"
  let ?rmd = "case hm_get rmds ?c of Some d \<Rightarrow> d | None \<Rightarrow> 0"
  from queue_currency_operations_OkD [OF q] obtain mc mc' where
    mc: "hm_get (tc_mutual_credits inn) ?c = Some mc"
    and mc': "fold_r (queue_state env) (cop_operations co) mc = Ok mc'"
    and inn': "inn' = set_mc ?c mc' inn"
    by blast
  obtain b where b: "hm_get (tc_mutual_credits out) ?c = Some b" and bm: "mc_mirror b mc"
    using mcs_mirror_get(2) [OF _ mc] m by (fastforce simp: tc_mirror_def)
  have inv: "mc_inv mc" "mc_inv b"
    using m mc b by (auto simp: tc_mirror_def intro: mcs_inv_get)
  from mc2.batch [OF mc' mc_mirror_sym [OF bm] inv, of ?rmd] show ?thesis
  proof
    assume "\<exists>b'. fold_r (process_state env ?rmd) (cop_operations co) b = Ok b' \<and>
      mc_mirror mc' b' \<and> mc_inv b'"
    then obtain b' outs where p: "process_operations_list env (cop_operations co) ?rmd b = Ok (b', outs)"
      and b': "mc_mirror mc' b'" "mc_inv b'"
      by (auto simp: process_operations_list_iffs [symmetric])
    from process_operations_from_replay [OF p [unfolded process_operations_list_def]]
    have "replay mc_mutate (concat (map po_mc_mutations outs)) b =
        (Ok b' :: (receive_move_token_error, mutual_credit) result)"
      by auto
    from push_outputs_Ok [OF b this, of "[]" rmuts] obtain msgs where
      "push_outputs ?c outs [] (out, rmuts) = (Ok (msgs, set_mc ?c b' out,
        rmuts @ map (McMutation ?c) (concat (map po_mc_mutations outs))) ::
        (receive_move_token_error, _) result)"
      by blast
    then have "process_currency_operations env rmds co (rcs, out, rmuts) =
        Ok (rcs @ [\<lparr> mtrc_currency = ?c, mtrc_incoming_messages = msgs \<rparr>], set_mc ?c b' out,
          rmuts @ map (McMutation ?c) (concat (map po_mc_mutations outs)))"
      using b d p by (simp add: process_currency_operations_def get_outgoing_def)
    moreover have "mc_inv mc'"
      by (rule mc2.batch_inv [OF mc' inv(1)])
    then have "tc_mirror (set_mc ?c b' out) inn'"
      using m b' by (simp add: tc_mirror_def inn' mcs_inv_insert mcs_mirror_insert mc_mirror_sym)
    ultimately show ?thesis
      using d by auto
  next
    assume "\<exists>e. fold_r (process_state env ?rmd) (cop_operations co) b = Err e \<and>
      e = P_CreditsCalcOverflow"
    then obtain i where "process_operations_list env (cop_operations co) ?rmd b =
        Err \<lparr> pte_index = i, pte_process_trans_error = P_CreditsCalcOverflow \<rparr>"
      by (auto simp: process_operations_list_iffs [symmetric])
    then show ?thesis
      using b d by (simp add: process_currency_operations_def get_outgoing_def)
  qed
qed

text \<open>All currencies of a message.\<close>

lemma all_operations_agree:
  assumes "fold_r (queue_currency_operations env) cos (inn, muts) =
      (Ok (inn', muts') :: ('e, 'b token_channel \<times> 'b tc_mutation list) result)"
    and "tc_mirror out inn" and "tc_direction out = TcOutgoing tco"
  shows "(\<exists>rcs' out' rmuts'. fold_r (process_currency_operations env rmds) cos (rcs, out, rmuts) =
        Ok (rcs', out', rmuts') \<and> tc_mirror out' inn' \<and> tc_direction out' = TcOutgoing tco) \<or>
    (\<exists>i. fold_r (process_currency_operations env rmds) cos (rcs, out, rmuts) =
        Err (InvalidTransaction
          \<lparr> pte_index = i, pte_process_trans_error = P_CreditsCalcOverflow \<rparr>))"
  using assms
proof (induction cos arbitrary: inn muts out rcs rmuts)
  case (Cons co cos)
  then obtain inn1 muts1 where q:
    "queue_currency_operations env co (inn, muts) =
      (Ok (inn1, muts1) :: ('e, 'b token_channel \<times> 'b tc_mutation list) result)"
    "fold_r (queue_currency_operations env) cos (inn1, muts1) =
      (Ok (inn', muts') :: ('e, 'b token_channel \<times> 'b tc_mutation list) result)"
    by (auto simp: rust_simps)
  from currency_operations_agree [OF q(1) Cons.prems(2,3), of rmds rcs rmuts] show ?case
  proof
    assume "\<exists>rcs1 out1 rmuts1. process_currency_operations env rmds co (rcs, out, rmuts) =
      Ok (rcs1, out1, rmuts1) \<and> tc_mirror out1 inn1 \<and> tc_direction out1 = TcOutgoing tco"
    then obtain rcs1 out1 rmuts1 where
      p: "process_currency_operations env rmds co (rcs, out, rmuts) = Ok (rcs1, out1, rmuts1)"
      and 1: "tc_mirror out1 inn1" "tc_direction out1 = TcOutgoing tco"
      by blast
    from Cons.IH [OF q(2) 1] p show ?case by simp
  qed auto
qed auto

section \<open>Active currencies\<close>

definition tc_own_info :: "'b token_channel \<Rightarrow> ('e, token_info) result" where
  "tc_own_info tc =
     (case tc_direction tc of
        TcIncoming tci \<Rightarrow> token_info_flip (mth_token_info (tci_move_token_in tci))
      | TcOutgoing tco \<Rightarrow> Ok (tco_token_info tco))"

definition with_new_credits :: "token_info \<Rightarrow> currency list \<Rightarrow> mc_map \<Rightarrow> mc_map" where
  "with_new_credits info cs m =
     fold (\<lambda>c. hm_insert c (mutual_credit_new (mi_local_public_key (ti_mc info))
       (mi_remote_public_key (ti_mc info)) c 0)) cs m"

lemma hm_get_with_new_credits:
  "hm_get (with_new_credits info cs m) c =
     (if c \<in> set cs then Some (mutual_credit_new (mi_local_public_key (ti_mc info))
        (mi_remote_public_key (ti_mc info)) c 0) else hm_get m c)"
  by (induction cs arbitrary: m) (auto simp: with_new_credits_def hm_get_insert)

lemma mcs_inv_with_new_credits: "mcs_inv m \<Longrightarrow> mcs_inv (with_new_credits info cs m)"
  by (induction cs arbitrary: m)
    (auto simp: with_new_credits_def intro!: mcs_inv_insert mc_inv_new)

lemma add_currencies_Ok:
  assumes "tc_own_info tc = (Ok info :: ('e, token_info) result)" and "distinct cs"
    and "set cs \<subseteq> set (ac_local (tc_active_currencies tc))"
    and "set cs \<subseteq> set (ac_remote (tc_active_currencies tc))"
    and "set cs \<inter> dom (hm_get (tc_mutual_credits tc)) = {}"
  shows "add_currencies cs (tc, muts) =
    (Ok (tc \<lparr> tc_mutual_credits := with_new_credits info cs (tc_mutual_credits tc) \<rparr>,
      muts @ map AddMutualCredit cs) :: ('e, 'b token_channel \<times> 'b tc_mutation list) result)"
  using assms
proof (induction cs arbitrary: tc muts)
  case Nil
  then show ?case by (simp add: add_currencies_def with_new_credits_def)
next
  case (Cons c cs)
  let ?mc = "mutual_credit_new (mi_local_public_key (ti_mc info))
    (mi_remote_public_key (ti_mc info)) c 0"
  have "tc_mutate (AddMutualCredit c) tc = (Ok (set_mc c ?mc tc) :: ('e, 'b token_channel) result)"
    using Cons.prems
    by (auto simp: tc_own_info_def assert_that_def hm_contains_def split: tc_direction.splits)
  then have "add_currencies (c # cs) (tc, muts) =
      (add_currencies cs (set_mc c ?mc tc, muts @ [AddMutualCredit c]) ::
        ('e, 'b token_channel \<times> 'b tc_mutation list) result)"
    by (simp add: add_currencies_def mutate_push_def)
  also have "\<dots> = Ok ((set_mc c ?mc tc) \<lparr> tc_mutual_credits :=
      with_new_credits info cs (tc_mutual_credits (set_mc c ?mc tc)) \<rparr>,
      (muts @ [AddMutualCredit c]) @ map AddMutualCredit cs)"
    using Cons.prems
    by (intro Cons.IH) (auto simp: tc_own_info_def hm_get_insert split: tc_direction.splits if_splits)
  finally show ?case by (simp add: with_new_credits_def)
qed

lemma set_new_currencies:
  "set (new_currencies m ac) =
     set (ac_remote ac) \<inter> set (ac_local ac) - dom (hm_get m)"
  by (auto simp: new_currencies_def hs_relative_complement_def hs_intersection_def
      hm_get_eq_None_iff dom_def)

lemma distinct_new_currencies: "distinct (ac_remote ac) \<Longrightarrow> distinct (new_currencies m ac)"
  by (simp add: new_currencies_def hs_relative_complement_def hs_intersection_def)

lemma mcs_mirror_with_new_credits:
  assumes "mcs_mirror m n" and "set cs = set ds"
    and "mi_local_public_key (ti_mc a) = mi_remote_public_key (ti_mc b)"
    and "mi_remote_public_key (ti_mc a) = mi_local_public_key (ti_mc b)"
  shows "mcs_mirror (with_new_credits a cs m) (with_new_credits b ds n)"
  using assms by (simp add: mcs_mirror_def hm_get_with_new_credits mc_mirror_new)

lemma mcs_inv_wf: "mcs_inv m \<Longrightarrow> hm_wf m"
  by (simp add: mcs_inv_def)

lemma keys_subset_iff:
  "\<not> list_ex (\<lambda>c. c \<notin> set ac) (hm_keys m) \<longleftrightarrow> dom (hm_get m) \<subseteq> set ac"
  by (auto simp: list_ex_iff dom_def hm_get_eq_None_iff)

lemma tc_mirror_new_credits:
  assumes "tc_mirror out inn"
    and "mi_local_public_key (ti_mc a) = mi_remote_public_key (ti_mc b)"
    and "mi_remote_public_key (ti_mc a) = mi_local_public_key (ti_mc b)"
    and "set cs = set ds"
  shows "tc_mirror
    (out \<lparr> tc_mutual_credits := with_new_credits a cs (tc_mutual_credits out) \<rparr>)
    (inn \<lparr> tc_mutual_credits := with_new_credits b ds (tc_mutual_credits inn) \<rparr>)"
  using assms by (simp add: tc_mirror_def mcs_inv_with_new_credits mcs_mirror_with_new_credits)

lemma token_info_flip_Ok:
  assumes "flip_balances (mi_balances (ti_mc t)) =
    (Ok bs :: ('e, currency_balance_info list) result)"
  shows "token_info_flip t = (Ok
    \<lparr> ti_mc = \<lparr> mi_local_public_key = mi_remote_public_key (ti_mc t),
        mi_remote_public_key = mi_local_public_key (ti_mc t), mi_balances = bs \<rparr>,
      ti_counters = ti_counters t \<rparr> :: ('e, token_info) result)"
  using assms by (simp add: token_info_flip_def mc_info_flip_def)

lemma active_currencies_agree:
  assumes s: "send_set_active_currencies opt (inn, []) = Ok (inn', muts)"
    and m: "tc_mirror out inn"
    and d: "tc_direction out = TcOutgoing tco" "tc_direction inn = TcIncoming tci"
    and info: "mth_token_info (tci_move_token_in tci) = tco_token_info tco"
    and bal: "mi_balances (ti_mc (tco_token_info tco)) = calc_balances (tc_mutual_credits out)"
  shows "\<exists>out' rmuts. receive_set_active_currencies opt (out, []) = Ok (out', rmuts) \<and>
    tc_mirror out' inn' \<and> tc_direction out' = TcOutgoing tco \<and> tc_direction inn' = TcIncoming tci"
proof (cases opt)
  case None
  then show ?thesis
    using s m d by (simp add: send_set_active_currencies_def receive_set_active_currencies_def)
next
  case (Some ac)
  let ?in = "inn \<lparr> tc_active_currencies := (tc_active_currencies inn) \<lparr> ac_local := hs_collect ac \<rparr> \<rparr>"
  let ?out = "out \<lparr> tc_active_currencies := (tc_active_currencies out) \<lparr> ac_remote := hs_collect ac \<rparr> \<rparr>"
  let ?cs = "new_currencies (tc_mutual_credits inn) (tc_active_currencies ?in)"
  let ?ds = "new_currencies (tc_mutual_credits out) (tc_active_currencies ?out)"
  have doms: "dom (hm_get (tc_mutual_credits out)) = dom (hm_get (tc_mutual_credits inn))"
    using m by (intro mcs_mirror_dom) (simp add: tc_mirror_def)
  have sub: "dom (hm_get (tc_mutual_credits inn)) \<subseteq> set ac"
    using s by (simp add: Some send_set_active_currencies_def rust_simps keys_subset_iff)
  have kept: "\<not> list_ex (\<lambda>c. c \<notin> set ac) (hm_keys (tc_mutual_credits out))"
    using sub doms by (simp only: keys_subset_iff)
  have m': "tc_mirror ?out ?in"
    using m by (simp add: tc_mirror_def)
  have same: "set ?ds = set ?cs"
    using m doms by (auto simp: set_new_currencies tc_mirror_def)
  have "flip_balances (mi_balances (ti_mc (tco_token_info tco))) =
      (Ok (calc_balances (tc_mutual_credits inn)) :: (send_move_token_error, _) result)"
    unfolding bal using m by (intro flip_balances_mirror) (simp_all add: tc_mirror_def mcs_inv_def)
  note flip = token_info_flip_Ok [OF this]
  define ti where "ti =
    \<lparr> ti_mc = \<lparr> mi_local_public_key = mi_remote_public_key (ti_mc (tco_token_info tco)),
        mi_remote_public_key = mi_local_public_key (ti_mc (tco_token_info tco)),
        mi_balances = calc_balances (tc_mutual_credits inn) \<rparr>,
      ti_counters = ti_counters (tco_token_info tco) \<rparr>"
  have ti: "token_info_flip (tco_token_info tco) = (Ok ti :: (send_move_token_error, _) result)"
    and pks: "mi_local_public_key (ti_mc (tco_token_info tco)) = mi_remote_public_key (ti_mc ti)"
      "mi_remote_public_key (ti_mc (tco_token_info tco)) = mi_local_public_key (ti_mc ti)"
    using flip by (simp_all add: ti_def)
  have "add_currencies ?cs (?in, [SetLocalActiveCurrencies ac]) =
      (Ok (?in \<lparr> tc_mutual_credits := with_new_credits ti ?cs (tc_mutual_credits ?in) \<rparr>,
        [SetLocalActiveCurrencies ac] @ map AddMutualCredit ?cs) :: (send_move_token_error, _) result)"
    using m d(2) info ti
    by (intro add_currencies_Ok)
      (auto simp: tc_own_info_def set_new_currencies tc_mirror_def intro!: distinct_new_currencies)
  then have inn': "inn' = ?in \<lparr> tc_mutual_credits := with_new_credits ti ?cs (tc_mutual_credits ?in) \<rparr>"
    using s d(2)
    by (auto simp: Some send_set_active_currencies_def rust_simps get_incoming_def)
  have "add_currencies ?ds (?out, [SetRemoteActiveCurrencies ac]) =
      (Ok (?out \<lparr> tc_mutual_credits := with_new_credits (tco_token_info tco) ?ds
          (tc_mutual_credits ?out) \<rparr>,
        [SetRemoteActiveCurrencies ac] @ map AddMutualCredit ?ds) :: (receive_move_token_error, _) result)"
    using m d(1)
    by (intro add_currencies_Ok)
      (auto simp: tc_own_info_def set_new_currencies tc_mirror_def intro!: distinct_new_currencies)
  then have "receive_set_active_currencies opt (out, []) =
      Ok (?out \<lparr> tc_mutual_credits := with_new_credits (tco_token_info tco) ?ds
          (tc_mutual_credits ?out) \<rparr>,
        [SetRemoteActiveCurrencies ac] @ map AddMutualCredit ?ds)"
    using kept d(1)
    by (simp add: Some receive_set_active_currencies_def fail_if_def mutate_push_def
        get_outgoing_def)
  with tc_mirror_new_credits [OF m' pks same] d show ?thesis
    by (simp add: inn')
qed

section \<open>A whole round\<close>

lemma queue_currency_operations_frame:
  assumes "fold_r (queue_currency_operations env) cos (tc, muts) =
      (Ok (tc', muts') :: ('e, 'b token_channel \<times> 'b tc_mutation list) result)"
  shows "tc_direction tc' = tc_direction tc"
proof -
  have step: "tc_direction tc2 = tc_direction tc1"
    if "queue_currency_operations env co (tc1, muts1) =
      (Ok (tc2, muts2) :: ('e, 'b token_channel \<times> 'b tc_mutation list) result)"
    for co tc1 muts1 tc2 muts2
    using queue_currency_operations_OkD [OF that] by auto
  show ?thesis
    using fold_r_invariant [OF assms, where P = "\<lambda>s. tc_direction (fst s) = tc_direction tc"] step
    by fastforce
qed

text \<open>The token information that follows \<open>info\<close> when the sender's credits are \<open>m\<close>.\<close>

definition next_token_info :: "token_info \<Rightarrow> mc_map \<Rightarrow> token_info" where
  "next_token_info info m =
     \<lparr> ti_mc = \<lparr> mi_local_public_key = mi_remote_public_key (ti_mc info),
         mi_remote_public_key = mi_local_public_key (ti_mc info),
         mi_balances = calc_balances m \<rparr>,
       ti_counters =
         \<lparr> ci_inconsistency_counter = ci_inconsistency_counter (ti_counters info),
           ci_move_token_counter = ci_move_token_counter (ti_counters info) + 1 \<rparr> \<rparr>"

lemma simulate_send_OkD:
  assumes "simulate_send_move_token env b cos relays opt nonce = Ok smo"
    and "get_incoming inn = Some b"
  shows "\<exists>tc1 m1 tc2 b2. send_set_active_currencies opt (inn, []) = Ok (tc1, m1) \<and>
    fold_r (queue_currency_operations env) cos (tc1, m1) =
      (Ok (tc2, smo_mutations smo) :: (send_move_token_error, _) result) \<and>
    get_incoming tc2 = Some b2 \<and>
    smo_token_info smo = next_token_info
      (mth_token_info (tci_move_token_in (tib_tc_incoming b2))) (tib_mutual_credits b2) \<and>
    smo_unsigned_move_token smo = create_unsigned_move_token env cos relays opt
      (smo_token_info smo) (mth_new_token (tci_move_token_in (tib_tc_incoming b2))) nonce"
proof -
  have "create_in_token_channel b = inn"
    using assms(2) by (auto simp: create_in_token_channel_def get_incoming_def
        split: tc_direction.splits)
  with assms(1) show ?thesis
    unfolding simulate_send_move_token_def next_token_info_def
    by (simp only: rust_simps Let_def split_paired_Ex prod.case result.inject) auto
qed

text \<open>The mutations that sending returns can be applied, and lead to the stated balances.\<close>

lemma tc_send_OkD:
  assumes "tc_send env sign cos relays opt nonce inn = Ok (mt, inn')"
    and d: "tc_direction inn = TcIncoming tci"
  shows "\<exists>tc1 m1 tc2 ms info. send_set_active_currencies opt (inn, []) = Ok (tc1, m1) \<and>
    fold_r (queue_currency_operations env) cos (tc1, m1) =
      (Ok (tc2, ms) :: (send_move_token_error, _) result) \<and>
    (tc_direction tc2 = TcIncoming tci \<longrightarrow>
      info = next_token_info (mth_token_info (tci_move_token_in tci)) (tc_mutual_credits tc2) \<and>
      mt = sign_move_token env sign (create_unsigned_move_token env cos relays opt info
        (mth_new_token (tci_move_token_in tci)) nonce) \<and>
      inn' = tc2 \<lparr> tc_direction := TcOutgoing \<lparr> tco_move_token_out = mt, tco_token_info = info,
        tco_opt_prev_move_token_in = Some (tci_move_token_in tci) \<rparr> \<rparr>)"
proof -
  from assms(1) obtain b smo where b: "get_incoming inn = Some b"
    and s: "simulate_send_move_token env b cos relays opt nonce = Ok smo"
    and mt: "mt = sign_move_token env sign (smo_unsigned_move_token smo)"
    and r: "replay tc_mutate (smo_mutations smo @
      [SetDirection (SetOutgoing mt (smo_token_info smo))]) inn =
        (Ok inn' :: (send_move_token_error, _) result)"
    by (auto simp: tc_send_def rust_simps Let_def)
  from simulate_send_OkD [OF s b] obtain tc1 m1 tc2 b2 where
    act: "send_set_active_currencies opt (inn, []) = Ok (tc1, m1)"
    and q: "fold_r (queue_currency_operations env) cos (tc1, m1) =
      (Ok (tc2, smo_mutations smo) :: (send_move_token_error, _) result)"
    and b2: "get_incoming tc2 = Some b2"
    and smo: "smo_token_info smo = next_token_info
      (mth_token_info (tci_move_token_in (tib_tc_incoming b2))) (tib_mutual_credits b2)"
      "smo_unsigned_move_token smo = create_unsigned_move_token env cos relays opt
      (smo_token_info smo) (mth_new_token (tci_move_token_in (tib_tc_incoming b2))) nonce"
    by blast
  have "replay tc_mutate (smo_mutations smo) inn = (Ok tc2 :: (send_move_token_error, _) result)"
    by (rule queue_currency_operations_replay [OF q send_set_active_currencies_replay [OF act]])
  then have inn': "inn' = tc2 \<lparr> tc_direction := TcOutgoing \<lparr> tco_move_token_out = mt,
      tco_token_info = smo_token_info smo,
      tco_opt_prev_move_token_in = get_last_incoming_move_token_hashed tc2 \<rparr> \<rparr>"
    using r by (simp add: replay_append)
  have "tib_tc_incoming b2 = tci \<and> tib_mutual_credits b2 = tc_mutual_credits tc2"
    if "tc_direction tc2 = TcIncoming tci"
    using b2 that by (auto simp: get_incoming_def)
  then show ?thesis
    using act q smo mt inn'
    by (intro exI [of _ tc1] exI [of _ m1] exI [of _ tc2] exI [of _ "smo_mutations smo"]
        exI [of _ "smo_token_info smo"])
      (auto simp: get_last_incoming_move_token_hashed_def)
qed

text \<open>What the receiver answers to a message that continues its own last message.\<close>

lemma receive_match:
  assumes d: "tc_direction out = TcOutgoing tco"
    and old: "mt_old_token mt = mt_new_token (tco_move_token_out tco)"
    and v: "verify_move_token env mt (mi_remote_public_key (ti_mc (tco_token_info tco)))"
    and a: "receive_set_active_currencies (mt_opt_active_currencies mt) (out, []) = Ok (out1, rmuts1)"
  shows "simulate_receive_move_token env out mt rmds =
    and_then (fold_r (process_currency_operations env rmds) (mt_currencies_operations mt)
      ([], out1, rmuts1)) (\<lambda>(rcs, out2, rmuts).
    and_then (unwrap (get_outgoing out2)) (\<lambda>b2.
    let info = tco_token_info (tob_tc_outgoing b2) in
    and_then (ok_or (u_checked_add (ci_move_token_counter (ti_counters info)) 1)
      MoveTokenCounterOverflow) (\<lambda>k.
    and_then (token_info_flip
      \<lparr> ti_mc = \<lparr> mi_local_public_key = mi_local_public_key (ti_mc info),
          mi_remote_public_key = mi_remote_public_key (ti_mc info),
          mi_balances = calc_balances (tob_mutual_credits b2) \<rparr>,
        ti_counters = \<lparr> ci_inconsistency_counter = ci_inconsistency_counter (ti_counters info),
          ci_move_token_counter = k \<rparr> \<rparr>) (\<lambda>expected.
    and_then (fail_if (mt_info_hash mt \<noteq> hash_token_info env expected) InvalidTokenInfo) (\<lambda>_.
    Ok (Received \<lparr> mtrv_mutations = rmuts @ [SetDirection (SetIncoming
          (create_hashed env mt expected))], mtrv_currencies = rcs,
        mtrv_opt_local_relays = mt_opt_local_relays mt \<rparr>))))))"
proof -
  have "create_out_token_channel \<lparr> tob_tc_outgoing = tco, tob_mutual_credits = tc_mutual_credits out,
      tob_active_currencies = tc_active_currencies out \<rparr> = out"
    using d by (simp add: create_out_token_channel_def)
  then show ?thesis
    using assms
    by (simp add: simulate_receive_move_token_def out_handle_incoming_def
        handle_incoming_token_match_def fail_if_def and_then_assoc Let_def case_prod_beta')
qed

lemma checked_succ: "u_checked_add (w :: 'a::len word) 1 = Some k \<Longrightarrow> k = w + 1"
  by (auto simp: u_checked_add_def split: if_splits)

lemma tc_synced_obtain:
  assumes "tc_synced env out inn"
  obtains tco tci where "tc_direction out = TcOutgoing tco" and "tc_direction inn = TcIncoming tci"
    and "tci_move_token_in tci = create_hashed env (tco_move_token_out tco) (tco_token_info tco)"
    and "mi_balances (ti_mc (tco_token_info tco)) = calc_balances (tc_mutual_credits out)"
    and "tc_mirror out inn"
  using assms by (auto simp: tc_synced_def split: tc_direction.splits)

text \<open>Both ends compute the same token information from mirrored credits.\<close>

lemma expected_info_agree:
  assumes "tc_mirror out inn"
  shows "token_info_flip
      \<lparr> ti_mc = \<lparr> mi_local_public_key = l, mi_remote_public_key = r,
          mi_balances = calc_balances (tc_mutual_credits out) \<rparr>, ti_counters = c \<rparr> =
    (Ok \<lparr> ti_mc = \<lparr> mi_local_public_key = r, mi_remote_public_key = l,
          mi_balances = calc_balances (tc_mutual_credits inn) \<rparr>, ti_counters = c \<rparr> ::
      ('e, token_info) result)"
proof -
  have "flip_balances (calc_balances (tc_mutual_credits out)) =
      (Ok (calc_balances (tc_mutual_credits inn)) :: ('e, _) result)"
    using assms by (intro flip_balances_mirror) (simp_all add: tc_mirror_def mcs_inv_def)
  then show ?thesis by (simp add: token_info_flip_def mc_info_flip_def)
qed

text \<open>The receiver expects the token information that the sender has signed.\<close>

lemma tc_receive_agree:
  assumes d: "tc_direction out = TcOutgoing tco"
    and old: "mt_old_token mt = mt_new_token (tco_move_token_out tco)"
    and v: "verify_move_token env mt (mi_remote_public_key (ti_mc (tco_token_info tco)))"
    and act: "receive_set_active_currencies (mt_opt_active_currencies mt) (out, []) = Ok (out1, rmuts1)"
    and proc: "fold_r (process_currency_operations env rmds) (mt_currencies_operations mt)
        ([], out1, rmuts1) = Ok (rcs, out2, rmuts2)"
    and m: "tc_mirror out2 tc2" and d2: "tc_direction out2 = TcOutgoing tco"
    and hash: "mt_info_hash mt =
        hash_token_info env (next_token_info (tco_token_info tco) (tc_mutual_credits tc2))"
  shows "tc_receive env rmds mt out = Ok (out2 \<lparr> tc_direction := TcIncoming
      \<lparr> tci_move_token_in = create_hashed env mt
        (next_token_info (tco_token_info tco) (tc_mutual_credits tc2)) \<rparr> \<rparr>) \<or>
    tc_receive env rmds mt out = Err MoveTokenCounterOverflow"
proof (cases "u_checked_add (ci_move_token_counter (ti_counters (tco_token_info tco))) 1")
  case None
  then show ?thesis
    by (simp add: tc_receive_def receive_match [OF d old v act] proc get_outgoing_def d2 Let_def)
next
  case (Some k)
  have "replay tc_mutate rmuts2 out = (Ok out2 :: (receive_move_token_error, _) result)"
    by (rule process_currency_operations_replay [OF proc
          receive_set_active_currencies_replay [OF act]])
  then show ?thesis
    using Some checked_succ [OF Some]
    by (simp add: tc_receive_def receive_match [OF d old v act] proc get_outgoing_def d2 Let_def
        fail_if_def expected_info_agree [OF m] hash next_token_info_def replay_append)
qed

text \<open>What a channel in sync has sent, in terms of the receiver's state.\<close>

lemma synced_send_OkD:
  assumes sync: "tc_synced env out inn"
    and d: "tc_direction out = TcOutgoing tco"
    and send: "tc_send env sign cos relays opt nonce inn = Ok (mt, inn')"
  shows "\<exists>out1 rmuts tc1 m1 tc2 ms info' tci.
    receive_set_active_currencies opt (out, []) = Ok (out1, rmuts) \<and>
    tc_mirror out1 tc1 \<and> tc_direction out1 = TcOutgoing tco \<and>
    fold_r (queue_currency_operations env) cos (tc1, m1) =
      (Ok (tc2, ms) :: (send_move_token_error, _) result) \<and>
    info' = next_token_info (tco_token_info tco) (tc_mutual_credits tc2) \<and>
    mt = sign_move_token env sign (create_unsigned_move_token env cos relays opt info'
      (mt_new_token (tco_move_token_out tco)) nonce) \<and>
    inn' = tc2 \<lparr> tc_direction := TcOutgoing \<lparr> tco_move_token_out = mt, tco_token_info = info',
      tco_opt_prev_move_token_in = Some tci \<rparr> \<rparr>"
proof -
  obtain tci where d': "tc_direction inn = TcIncoming tci"
    and t: "tci_move_token_in tci = create_hashed env (tco_move_token_out tco) (tco_token_info tco)"
    and bal: "mi_balances (ti_mc (tco_token_info tco)) = calc_balances (tc_mutual_credits out)"
    and m: "tc_mirror out inn"
    using sync d by (elim tc_synced_obtain) simp
  have info: "mth_token_info (tci_move_token_in tci) = tco_token_info tco"
    and tok: "mth_new_token (tci_move_token_in tci) = mt_new_token (tco_move_token_out tco)"
    by (simp_all add: t create_hashed_def)
  from tc_send_OkD [OF send d'] obtain tc1 m1 tc2 ms info' where
    act: "send_set_active_currencies opt (inn, []) = Ok (tc1, m1)"
    and ops: "fold_r (queue_currency_operations env) cos (tc1, m1) =
      (Ok (tc2, ms) :: (send_move_token_error, _) result)"
    and sent: "tc_direction tc2 = TcIncoming tci \<longrightarrow>
      info' = next_token_info (tco_token_info tco) (tc_mutual_credits tc2) \<and>
      mt = sign_move_token env sign (create_unsigned_move_token env cos relays opt info'
        (mt_new_token (tco_move_token_out tco)) nonce) \<and>
      inn' = tc2 \<lparr> tc_direction := TcOutgoing \<lparr> tco_move_token_out = mt, tco_token_info = info',
        tco_opt_prev_move_token_in = Some (tci_move_token_in tci) \<rparr> \<rparr>"
    unfolding info tok by blast
  from active_currencies_agree [OF act m d d' info bal] obtain out1 rmuts where
    act': "receive_set_active_currencies opt (out, []) = Ok (out1, rmuts)"
    and m1: "tc_mirror out1 tc1" and d1: "tc_direction out1 = TcOutgoing tco"
      "tc_direction tc1 = TcIncoming tci"
    by blast
  have "tc_direction tc2 = TcIncoming tci"
    using queue_currency_operations_frame [OF ops] d1 by simp
  with sent act' m1 d1 ops show ?thesis by blast
qed

lemma tc_round:
  assumes sync: "tc_synced env out inn"
    and send: "tc_send env sign cos relays opt nonce inn = Ok (mt, inn')"
    and sign: "\<And>msg. verify_signature env msg (tc_remote_public_key out) (sign msg)"
  shows "(\<exists>out'. tc_receive env rmds mt out = Ok out' \<and> tc_synced env inn' out') \<or>
    (\<exists>i. tc_receive env rmds mt out = Err (InvalidTransaction
      \<lparr> pte_index = i, pte_process_trans_error = P_CreditsCalcOverflow \<rparr>)) \<or>
    tc_receive env rmds mt out = Err MoveTokenCounterOverflow"
proof -
  obtain tco where d: "tc_direction out = TcOutgoing tco"
    using sync by (rule tc_synced_obtain)
  from synced_send_OkD [OF sync d send] obtain out1 rmuts tc1 m1 tc2 ms info' tci where
    act: "receive_set_active_currencies opt (out, []) = Ok (out1, rmuts)"
    and m1: "tc_mirror out1 tc1" "tc_direction out1 = TcOutgoing tco"
    and ops: "fold_r (queue_currency_operations env) cos (tc1, m1) =
      (Ok (tc2, ms) :: (send_move_token_error, _) result)"
    and info': "info' = next_token_info (tco_token_info tco) (tc_mutual_credits tc2)"
    and mt: "mt = sign_move_token env sign (create_unsigned_move_token env cos relays opt info'
      (mt_new_token (tco_move_token_out tco)) nonce)"
    and inn': "inn' = tc2 \<lparr> tc_direction := TcOutgoing \<lparr> tco_move_token_out = mt,
      tco_token_info = info', tco_opt_prev_move_token_in = Some tci \<rparr> \<rparr>"
    by blast
  have v: "verify_move_token env mt (mi_remote_public_key (ti_mc (tco_token_info tco)))"
    unfolding mt using sign d by (intro verify_sign_move_token) (simp add: tc_remote_public_key_def)
  have mtf: "mt_old_token mt = mt_new_token (tco_move_token_out tco)"
    "mt_opt_active_currencies mt = opt" "mt_currencies_operations mt = cos"
    "mt_info_hash mt = hash_token_info env info'"
    by (simp_all add: mt sign_move_token_def create_unsigned_move_token_def)
  from all_operations_agree [OF ops m1, of rmds "[]" rmuts] show ?thesis
  proof
    assume "\<exists>rcs' out' rmuts'. fold_r (process_currency_operations env rmds) cos ([], out1, rmuts) =
      Ok (rcs', out', rmuts') \<and> tc_mirror out' tc2 \<and> tc_direction out' = TcOutgoing tco"
    then obtain rcs out2 rmuts2 where
      proc: "fold_r (process_currency_operations env rmds) cos ([], out1, rmuts) =
        Ok (rcs, out2, rmuts2)"
      and m2: "tc_mirror out2 tc2" and d2: "tc_direction out2 = TcOutgoing tco"
      by blast
    from tc_receive_agree [OF d mtf(1) v act [folded mtf(2)] proc [folded mtf(3)] m2 d2
        mtf(4) [unfolded info']] tc_mirror_sym [OF m2]
    show ?thesis
      by (auto simp: tc_synced_def inn' info' next_token_info_def tc_mirror_def)
  qed (auto simp: tc_receive_def receive_match [OF d mtf(1) v act [folded mtf(2)]] mtf(3))
qed

end
