(* ===== verification/Tc_Protocol.thy ===== *)
theory Tc_Protocol
  imports Tc_Agreement
begin

text \<open>
  Runs of a token channel between two honest friends. A run starts from the two initial
  channels, and each step is one complete round. The theory also treats what the protocol does
  outside a round: a message that arrives twice, a message that was lost, a message that does
  not belong to the chain, and the two ways of starting again after an inconsistency.
\<close>

text \<open>
  \<open>tc_run env sign rmds a b out inn\<close>: the friends with the keys \<open>a\<close> and \<open>b\<close>, signing with
  \<open>sign a\<close> and \<open>sign b\<close>, can bring their channels to \<open>out\<close> (waiting) and \<open>inn\<close>
  (holding the token).
\<close>

inductive tc_run ::
  "'b env \<Rightarrow> (public_key \<Rightarrow> u8 list \<Rightarrow> signature) \<Rightarrow> public_key \<Rightarrow> public_key \<Rightarrow>
   'b token_channel \<Rightarrow> 'b token_channel \<Rightarrow> bool"
  for env :: "'b env" and sign :: "public_key \<Rightarrow> u8 list \<Rightarrow> signature"
    and a :: public_key and b :: public_key
where
  start: "compare_public_key env a b = Less \<Longrightarrow>
    tc_run env sign a b (token_channel_new env a b) (token_channel_new env b a)"
| round: "tc_run env sign a b out inn \<Longrightarrow>
    tc_send env (sign (tc_remote_public_key out)) cos relays opt nonce inn = Ok (mt, inn') \<Longrightarrow>
    tc_receive env rmds mt out = Ok out' \<Longrightarrow>
    tc_run env sign a b inn' out'"

inductive_cases tc_run_startE: "tc_run env sign a b (token_channel_new env a b) inn"

section \<open>Starting\<close>

lemma calc_balances_Nil [simp]: "calc_balances [] = []"
  by (simp add: calc_balances_def)

lemma mcs_inv_Nil [simp]: "mcs_inv []"
  by (simp add: mcs_inv_def)

lemma tc_new_synced:
  assumes "compare_public_key env a b = Less"
  shows "tc_synced env (token_channel_new env a b) (token_channel_new env b a)"
proof -
  have "compare_public_key env b a \<noteq> Less"
    using assms by (auto simp: compare_public_key_def)
  then show ?thesis
    using assms
    by (simp add: tc_synced_def token_channel_new_def initial_move_token_def Let_def tc_mirror_def
        mcs_mirror_def active_currencies_new_def)
qed

text \<open>
  The token information of a reset message: sorted currencies, no pending debts, and balances
  that can be negated.
\<close>

definition reset_info_ok :: "token_info \<Rightarrow> bool" where
  "reset_info_ok info \<longleftrightarrow>
     sorted_wrt (<) (map cbi_currency (mi_balances (ti_mc info))) \<and>
     list_all (\<lambda>cbi. bi_local_pending_debt (cbi_balance_info cbi) = 0 \<and>
       bi_remote_pending_debt (cbi_balance_info cbi) = 0 \<and>
       fits_i 128 (- sint (bi_balance (cbi_balance_info cbi)))) (mi_balances (ti_mc info))"

definition reset_credit ::
  "public_key \<Rightarrow> public_key \<Rightarrow> (i128 \<Rightarrow> i128) \<Rightarrow> currency_balance_info \<Rightarrow> currency \<times> mutual_credit"
where
  "reset_credit lpk rpk f cbi = (cbi_currency cbi,
     mutual_credit_new lpk rpk (cbi_currency cbi) (f (bi_balance (cbi_balance_info cbi))))"

lemma hm_collect_id: "distinct (map fst kvs) \<Longrightarrow> hm_collect kvs = kvs"
proof (induction kvs rule: rev_induct)
  case (snoc kv kvs)
  have "k \<notin> fst ` set m \<Longrightarrow> hm_insert k v m = m @ [(k, v)]" for k v and m :: "('a, 'b) hash_map"
    by (induction m) (auto simp: hm_insert_def)
  with snoc show ?case
    by (cases kv) (auto simp: hm_collect_snoc)
qed (simp add: hm_collect_def)

lemma map_fst_reset_credit [simp]:
  "map (fst \<circ> reset_credit lpk rpk f) bs = map cbi_currency bs"
  by (simp add: reset_credit_def)

lemma mcs_inv_reset:
  "distinct (map cbi_currency bs) \<Longrightarrow> mcs_inv (map (reset_credit lpk rpk f) bs)"
  by (simp add: mcs_inv_def hm_wf_def hm_keys_def list_all_iff) (simp add: reset_credit_def mc_inv_new)

lemma mcs_mirror_reset:
  assumes "list_all (\<lambda>cbi. fits_i 128 (- sint (bi_balance (cbi_balance_info cbi)))) bs"
  shows "mcs_mirror (map (reset_credit lpk rpk id) bs) (map (reset_credit rpk lpk uminus) bs)"
proof -
  have neg: "sint (- b) = - sint b" if "fits_i 128 (- sint b)" for b :: i128
    using i_checked_neg_Some [of b "- b"] that by (simp add: i_checked_neg_def)
  show ?thesis
    unfolding mcs_mirror_def hm_get_def
  proof
    fix c
    show "rel_option mc_mirror (map_of (map (reset_credit lpk rpk id) bs) c)
        (map_of (map (reset_credit rpk lpk uminus) bs) c)"
      using assms by (induction bs) (simp_all add: reset_credit_def mc_mirror_new neg)
  qed
qed

lemma calc_balances_reset:
  assumes "sorted_wrt (<) (map cbi_currency bs)"
    and "list_all (\<lambda>cbi. bi_local_pending_debt (cbi_balance_info cbi) = 0 \<and>
      bi_remote_pending_debt (cbi_balance_info cbi) = 0) bs"
  shows "calc_balances (map (reset_credit lpk rpk id) bs) = bs"
proof -
  have "map (\<lambda>p. balance_entry (fst p) (snd p)) (map (reset_credit lpk rpk id) bs) = bs"
    using assms(2)
    by (induction bs) (simp_all add: reset_credit_def balance_entry_def mutual_credit_new_def
        mc_balance_new_def)
  moreover have "sorted (map cbi_currency bs)"
    using assms(1) by (rule strict_sorted_imp_sorted)
  ultimately show ?thesis
    by (simp add: calc_balances_def balance_entry_def case_prod_beta' sort_key_id_if_sorted)
qed

lemma remote_reset_credits_Ok:
  assumes "list_all (\<lambda>cbi. fits_i 128 (- sint (bi_balance (cbi_balance_info cbi)))) bs"
  shows "remote_reset_credits lpk rpk bs = (Ok (map (reset_credit lpk rpk uminus) bs) :: ('e, _) result)"
  using assms by (induction bs) (simp_all add: i_checked_neg_def reset_credit_def)

lemma new_from_local_reset_eq:
  assumes "distinct (map cbi_currency (mi_balances (ti_mc info)))"
  shows "tc_mutual_credits (new_from_local_reset mt info opt) =
    map (reset_credit (mi_local_public_key (ti_mc info)) (mi_remote_public_key (ti_mc info)) id)
      (mi_balances (ti_mc info))"
  using assms
  by (simp add: new_from_local_reset_def Let_def hm_collect_id comp_def) (simp add: reset_credit_def)

text \<open>
  The side that applies the reset terms starts a channel that waits, and the side that receives
  its message starts a channel that holds the token. If the agreed balances are listed in order,
  without pending debts, and can be negated, then both succeed and the new channels mirror each
  other.
\<close>

lemma reset_sync:
  assumes "reset_info_ok info"
  shows "\<exists>inn. new_from_remote_reset env mt info = (Ok inn :: ('e, 'b token_channel) result) \<and>
    tc_synced env (new_from_local_reset mt info opt) inn \<and>
    tc_mutual_credits inn = map (reset_credit (mi_remote_public_key (ti_mc info))
      (mi_local_public_key (ti_mc info)) uminus) (mi_balances (ti_mc info))"
proof -
  let ?bs = "mi_balances (ti_mc info)"
  let ?l = "mi_local_public_key (ti_mc info)" and ?r = "mi_remote_public_key (ti_mc info)"
  have s: "sorted_wrt (<) (map cbi_currency ?bs)"
    and z: "list_all (\<lambda>cbi. bi_local_pending_debt (cbi_balance_info cbi) = 0 \<and>
      bi_remote_pending_debt (cbi_balance_info cbi) = 0) ?bs"
    and n: "list_all (\<lambda>cbi. fits_i 128 (- sint (bi_balance (cbi_balance_info cbi)))) ?bs"
    using assms by (auto simp: reset_info_ok_def list_all_iff)
  have d: "distinct (map cbi_currency ?bs)"
    using s strict_sorted_iff by blast
  have c: "hm_collect (map (reset_credit ?r ?l uminus) ?bs) = map (reset_credit ?r ?l uminus) ?bs"
    using d by (intro hm_collect_id) simp
  have "set (hm_keys (map (reset_credit pk pk' f) ?bs)) = cbi_currency ` set ?bs" for pk pk' f
    by (simp add: hm_keys_def)
  then show ?thesis
    using calc_balances_reset [OF s z, of ?l ?r] mcs_mirror_reset [OF n, of ?l ?r]
      mcs_inv_reset [OF d] new_from_local_reset_eq [OF d, of mt opt]
    by (simp add: new_from_remote_reset_def remote_reset_credits_Ok [OF n] Let_def c tc_synced_def
        tc_mirror_def) (simp add: new_from_local_reset_def Let_def hm_collect_id d)
qed

section \<open>Runs\<close>

text \<open>The keys of the local and of the remote friend, as the last sent message states them.\<close>

definition tc_out_keys :: "'b token_channel \<Rightarrow> public_key \<times> public_key" where
  "tc_out_keys tc =
     (case tc_direction tc of
        TcOutgoing tco \<Rightarrow> (mi_local_public_key (ti_mc (tco_token_info tco)),
          mi_remote_public_key (ti_mc (tco_token_info tco)))
      | TcIncoming _ \<Rightarrow> (0, 0))"

lemma tc_send_keys:
  assumes "tc_synced env out inn"
    and "tc_send env sign cos relays opt nonce inn = Ok (mt, inn')"
  shows "tc_out_keys inn' = prod.swap (tc_out_keys out)"
proof -
  obtain tco where d: "tc_direction out = TcOutgoing tco"
    using assms(1) by (rule tc_synced_obtain)
  from synced_send_OkD [OF assms(1) d assms(2)] d show ?thesis
    by (auto simp: tc_out_keys_def next_token_info_def)
qed

lemma tc_synced_remote_key:
  "tc_synced env out inn \<Longrightarrow> tc_remote_public_key out = snd (tc_out_keys out)"
  by (auto simp: tc_remote_public_key_def tc_out_keys_def elim!: tc_synced_obtain)

lemma tc_run_synced:
  assumes "tc_run env sign a b out inn"
    and sign: "\<And>pk msg. pk \<in> {a, b} \<Longrightarrow> verify_signature env msg pk (sign pk msg)"
  shows "tc_synced env out inn \<and> tc_out_keys out \<in> {(a, b), (b, a)}"
  using assms(1)
proof induction
  case start
  then show ?case
    using tc_new_synced [OF start]
    by (simp add: tc_out_keys_def token_channel_new_def initial_move_token_def Let_def)
next
  case (round out inn cos relays opt nonce mt inn' rmds out')
  then have sync: "tc_synced env out inn" and keys: "tc_out_keys out \<in> {(a, b), (b, a)}"
    by simp_all
  have "tc_remote_public_key out \<in> {a, b}"
    using keys tc_synced_remote_key [OF sync] by auto
  from tc_round [OF sync round.hyps(2) sign [OF this], of rmds] round.hyps(3)
  have "tc_synced env inn' out'" by auto
  then show ?case
    using tc_send_keys [OF sync round.hyps(2)] keys by auto
qed

section \<open>The direction while a message is processed\<close>

lemma push_all_direction:
  assumes "fold_r (\<lambda>x. mutate_push tc_mutate (f x)) xs (tc, ms) = (Ok (tc', ms') :: ('e, _) result)"
    and "\<And>x d. f x \<noteq> SetDirection d"
  shows "tc_direction tc' = tc_direction tc"
proof -
  have step: "tc_direction v = tc_direction u"
    if "tc_mutate (f x) u = (Ok v :: ('e, _) result)" for x u v
    using that assms(2) [of x] by (cases "f x") (auto simp: rust_simps Let_def)
  show ?thesis
    using fold_r_invariant [OF assms(1), where P = "\<lambda>(s, ms). tc_direction s = tc_direction tc"] step
    by (fastforce simp: rust_simps)
qed

lemma receive_set_active_currencies_direction:
  assumes "receive_set_active_currencies opt (tc, []) = Ok (tc', ms)"
  shows "tc_direction tc' = tc_direction tc"
  using assms push_all_direction [of AddMutualCredit]
  by (fastforce simp: receive_set_active_currencies_def add_currencies_def rust_simps
      split: option.splits)

lemma push_outputs_direction:
  assumes "push_outputs c outs msgs (tc, ms) = (Ok (msgs', tc', ms') :: ('e, _) result)"
  shows "tc_direction tc' = tc_direction tc"
  using assms
proof (induction outs arbitrary: msgs tc ms)
  case (Cons out outs)
  then show ?case
    using push_all_direction [of "McMutation c" _ tc ms, where 'e = 'e]
    by (fastforce simp: rust_simps Let_def push_mc_mutations_def)
qed simp

lemma process_all_direction:
  assumes "fold_r (process_currency_operations env rmds) cos (rcs, tc, ms) = Ok (rcs', tc', ms')"
  shows "tc_direction tc' = tc_direction tc"
proof -
  have step: "tc_direction tc2 = tc_direction tc1"
    if "process_currency_operations env rmds co (rcs1, tc1, ms1) = Ok (rcs2, tc2, ms2)"
    for co rcs1 tc1 ms1 rcs2 tc2 ms2
    using that
    by (auto simp: process_currency_operations_def rust_simps Let_def dest: push_outputs_direction)
  show ?thesis
    using fold_r_invariant [OF assms, where P = "\<lambda>(rcs, s, ms). tc_direction s = tc_direction tc"] step
    by fastforce
qed

text \<open>Everything that an accepted message has passed.\<close>

lemma received_OkD:
  assumes "simulate_receive_move_token env tc mt rmds = Ok (Received r)"
  obtains tco out2 ms k info where "tc_direction tc = TcOutgoing tco"
    and "mt_old_token mt = mt_new_token (tco_move_token_out tco)"
    and "verify_move_token env mt (mi_remote_public_key (ti_mc (tco_token_info tco)))"
    and "replay tc_mutate ms tc = (Ok out2 :: (receive_move_token_error, _) result)"
    and "u_checked_add (ci_move_token_counter (ti_counters (tco_token_info tco))) 1 = Some k"
    and "token_info_flip
      \<lparr> ti_mc = \<lparr> mi_local_public_key = mi_local_public_key (ti_mc (tco_token_info tco)),
          mi_remote_public_key = mi_remote_public_key (ti_mc (tco_token_info tco)),
          mi_balances = calc_balances (tc_mutual_credits out2) \<rparr>,
        ti_counters =
          \<lparr> ci_inconsistency_counter = ci_inconsistency_counter (ti_counters (tco_token_info tco)),
            ci_move_token_counter = k \<rparr> \<rparr> = (Ok info :: (receive_move_token_error, _) result)"
    and "mt_info_hash mt = hash_token_info env info"
    and "mtrv_mutations r = ms @ [SetDirection (SetIncoming (create_hashed env mt info))]"
proof -
  obtain tco where d: "tc_direction tc = TcOutgoing tco"
    using assms by (cases "tc_direction tc")
      (auto simp: simulate_receive_move_token_def in_handle_incoming_def split: if_splits)
  have old: "mt_old_token mt = mt_new_token (tco_move_token_out tco)"
    using assms d by (auto simp: simulate_receive_move_token_def out_handle_incoming_def Let_def
        split: if_splits)
  have c: "create_out_token_channel \<lparr> tob_tc_outgoing = tco,
      tob_mutual_credits = tc_mutual_credits tc, tob_active_currencies = tc_active_currencies tc \<rparr> = tc"
    using d by (simp add: create_out_token_channel_def)
  obtain tc1 ms1 where
    v: "verify_move_token env mt (mi_remote_public_key (ti_mc (tco_token_info tco)))"
    and a: "receive_set_active_currencies (mt_opt_active_currencies mt) (tc, []) = Ok (tc1, ms1)"
    using assms d old c
    by (auto simp: simulate_receive_move_token_def out_handle_incoming_def rust_simps Let_def
        handle_incoming_token_match_def)
  from assms [unfolded receive_match [OF d old v a]] obtain rcs out2 ms b2 k info where
    p: "fold_r (process_currency_operations env rmds) (mt_currencies_operations mt) ([], tc1, ms1) =
      Ok (rcs, out2, ms)"
    and b2: "get_outgoing out2 = Some b2"
    and k: "u_checked_add (ci_move_token_counter (ti_counters (tco_token_info (tob_tc_outgoing b2)))) 1 = Some k"
    and info: "token_info_flip
      \<lparr> ti_mc = \<lparr> mi_local_public_key = mi_local_public_key (ti_mc (tco_token_info (tob_tc_outgoing b2))),
          mi_remote_public_key = mi_remote_public_key (ti_mc (tco_token_info (tob_tc_outgoing b2))),
          mi_balances = calc_balances (tob_mutual_credits b2) \<rparr>,
        ti_counters =
          \<lparr> ci_inconsistency_counter = ci_inconsistency_counter (ti_counters (tco_token_info (tob_tc_outgoing b2))),
            ci_move_token_counter = k \<rparr> \<rparr> = (Ok info :: (receive_move_token_error, _) result)"
    and h: "mt_info_hash mt = hash_token_info env info"
    and r: "mtrv_mutations r = ms @ [SetDirection (SetIncoming (create_hashed env mt info))]"
    by (auto simp: rust_simps Let_def)
  have "tc_direction out2 = TcOutgoing tco"
    using process_all_direction [OF p] receive_set_active_currencies_direction [OF a] d by simp
  then have b2': "tob_tc_outgoing b2 = tco" "tob_mutual_credits b2 = tc_mutual_credits out2"
    using b2 by (auto simp: get_outgoing_def)
  have "replay tc_mutate ms tc = (Ok out2 :: (receive_move_token_error, _) result)"
    by (rule process_currency_operations_replay [OF p receive_set_active_currencies_replay [OF a]])
  with that d old v k info h r show thesis unfolding b2' by blast
qed

section \<open>A concrete round\<close>

lemma sample_keys_less: "compare_public_key sample_env 1 2 = Less"
  by (simp add: compare_public_key_def sha_512_256_def sample_env_def) code_simp

abbreviation sample_out :: "unit token_channel" where
  "sample_out \<equiv> token_channel_new sample_env 1 2"

abbreviation sample_inn :: "unit token_channel" where
  "sample_inn \<equiv> token_channel_new sample_env 2 1"

lemmas sample_channel_simps = token_channel_new_def initial_move_token_def Let_def
  sample_keys_less active_currencies_new_def

lemma sample_inn_direction: "compare_public_key sample_env 2 1 \<noteq> Less"
  using sample_keys_less by (auto simp: compare_public_key_def)

lemma sample_token_fresh: "sample_sign 2 msg \<noteq> token_from_public_key 1"
proof
  assume "sample_sign 2 msg = token_from_public_key 1"
  then have "(ucast (sample_hash msg) :: signature) = - (2 ^ 256)"
    by (simp add: sample_sign_def token_from_public_key_def push_bit_eq_mult) (simp add: eq_iff_diff_eq_0 [symmetric] add_eq_0_iff)
  then have "uint (ucast (sample_hash msg) :: signature) = 2 ^ 512 - 2 ^ 256"
    by simp
  moreover have "uint (ucast (sample_hash msg) :: signature) < 2 ^ 256"
    using uint_lt2p [of "sample_hash msg"] by (simp add: uint_up_ucast is_up)
  ultimately show False by simp
qed

lemma sample_sent:
  "\<exists>mt inn'. tc_send sample_env (sample_sign 2) [] None (Some [sample_currency]) 5 sample_inn =
    Ok (mt, inn')"
  by (simp add: tc_send_def sample_channel_simps sample_inn_direction get_incoming_def
      simulate_send_move_token_def send_set_active_currencies_def create_in_token_channel_def
      fail_if_def hm_keys_def mutate_push_def new_currencies_def hs_intersection_def
      hs_relative_complement_def add_currencies_def)

lemma sample_received:
  assumes "tc_send sample_env (sample_sign 2) [] None (Some [sample_currency]) 5 sample_inn =
    Ok (mt, inn')"
  shows "\<exists>r. simulate_receive_move_token sample_env sample_out mt [] = Ok (Received r)"
proof -
  note sync = tc_new_synced [OF sample_keys_less]
  obtain tco where d: "tc_direction sample_out = TcOutgoing tco"
    and info: "ci_move_token_counter (ti_counters (tco_token_info tco)) = 0"
      "mi_remote_public_key (ti_mc (tco_token_info tco)) = 2"
    by (simp add: sample_channel_simps)
  from synced_send_OkD [OF sync d assms] obtain out1 rmuts tc1 info' where
    act: "receive_set_active_currencies (Some [sample_currency]) (sample_out, []) = Ok (out1, rmuts)"
    and m: "tc_mirror out1 tc1" and d1: "tc_direction out1 = TcOutgoing tco"
    and info': "info' = next_token_info (tco_token_info tco) (tc_mutual_credits tc1)"
    and mt: "mt = sign_move_token sample_env (sample_sign 2) (create_unsigned_move_token sample_env []
      None (Some [sample_currency]) info' (mt_new_token (tco_move_token_out tco)) 5)"
    by auto
  have v: "verify_move_token sample_env mt (mi_remote_public_key (ti_mc (tco_token_info tco)))"
    unfolding mt info(2) by (rule verify_sign_move_token) simp
  have mtf: "mt_old_token mt = mt_new_token (tco_move_token_out tco)"
    "mt_opt_active_currencies mt = Some [sample_currency]" "mt_currencies_operations mt = []"
    "mt_info_hash mt = hash_token_info sample_env info'"
    by (simp_all add: mt sign_move_token_def create_unsigned_move_token_def)
  have k: "u_checked_add (ci_move_token_counter (ti_counters (tco_token_info tco))) 1 = Some 1"
    by (simp add: int_simps info(1))
  show ?thesis
    by (simp add: receive_match [OF d mtf(1) v act [folded mtf(2)]] mtf(3) get_outgoing_def d1
        k Let_def expected_info_agree [OF m])
      (simp add: mtf(4) info' next_token_info_def info fail_if_def)
qed

section \<open>Properties\<close>

text \<open>
  An honest round keeps the two ends in sync. If the end that holds the token composes,
  signs and sends a message with any operations, relays and active currencies, then the other
  end, receiving it, takes over the token with mirrored balances, debts and transactions in
  every currency and with the same signed token information. The only other outcomes are the
  refusal of an overflowing credit calculation, and the end of the move token counter.
\<close>

theorem tc_round_keeps_sync:
  assumes "tc_synced env out inn"
    and "tc_send env sign cos relays opt nonce inn = Ok (mt, inn')"
    and "\<forall>msg. verify_signature env msg (tc_remote_public_key out) (sign msg)"
  shows "(\<exists>out'. tc_receive env rmds mt out = Ok out' \<and> tc_synced env inn' out') \<or>
    (\<exists>i. tc_receive env rmds mt out = Err (InvalidTransaction
      \<lparr> pte_index = i, pte_process_trans_error = P_CreditsCalcOverflow \<rparr>)) \<or>
    tc_receive env rmds mt out = Err MoveTokenCounterOverflow"
  by (rule tc_round [OF assms(1,2)]) (simp add: assms(3))

theorem tc_round_keeps_sync_witness:
  "\<exists>mt inn'. tc_send sample_env (sample_sign 2) [] None (Some [sample_currency]) 5 sample_inn =
      Ok (mt, inn') \<and>
    ((\<exists>out'. tc_receive sample_env [] mt sample_out = Ok out' \<and> tc_synced sample_env inn' out') \<or>
     (\<exists>i. tc_receive sample_env [] mt sample_out = Err (InvalidTransaction
       \<lparr> pte_index = i, pte_process_trans_error = P_CreditsCalcOverflow \<rparr>)) \<or>
     tc_receive sample_env [] mt sample_out = Err MoveTokenCounterOverflow)"
proof -
  obtain mt inn' where send: "tc_send sample_env (sample_sign 2) [] None (Some [sample_currency]) 5
      sample_inn = Ok (mt, inn')"
    using sample_sent by blast
  have "tc_remote_public_key sample_out = 2"
    by (simp add: sample_channel_simps tc_remote_public_key_def)
  with send tc_round_keeps_sync [OF tc_new_synced [OF sample_keys_less] send, of "[]"]
  show ?thesis by simp
qed

text \<open>
  C2. Through all rounds that two honest friends can play from the first token on, exactly one
  of them holds the token, the last message that the one has sent is the last that the other
  has received, and in every currency the balances are opposite, the pending debts exchanged
  and the pending transactions the same.
\<close>

theorem tc_run_consistent:
  assumes "tc_run env sign a b out inn"
    and "\<forall>pk \<in> {a, b}. \<forall>msg. verify_signature env msg pk (sign pk msg)"
  shows "(\<exists>tco tci. tc_direction out = TcOutgoing tco \<and> tc_direction inn = TcIncoming tci \<and>
      tci_move_token_in tci = create_hashed env (tco_move_token_out tco) (tco_token_info tco)) \<and>
    (\<forall>c. rel_option mc_mirror (hm_get (tc_mutual_credits out) c) (hm_get (tc_mutual_credits inn) c))"
proof -
  have "tc_synced env out inn"
    using tc_run_synced [OF assms(1)] assms(2) by blast
  then show ?thesis
    by (auto simp: tc_mirror_def mcs_mirror_def elim!: tc_synced_obtain)
qed

theorem tc_run_consistent_witness:
  "tc_run sample_env sample_sign 1 2 sample_out sample_inn \<and>
   (\<exists>tco tci. tc_direction sample_out = TcOutgoing tco \<and> tc_direction sample_inn = TcIncoming tci \<and>
      tci_move_token_in tci = create_hashed sample_env (tco_move_token_out tco) (tco_token_info tco))"
proof -
  have run: "tc_run sample_env sample_sign 1 2 sample_out sample_inn"
    by (rule tc_run.start [OF sample_keys_less])
  from run tc_run_consistent [OF run] show ?thesis by simp
qed

text \<open>
  C16. Messages that are repeated or lost do no harm. The end that holds the token recognises a
  repetition of the last message. If instead its own next message is lost and the friend sends
  its last message again, the answer is to retransmit the lost message, provided that its
  signature does not collide with the token before the last one.
\<close>

theorem repeated_and_lost_messages:
  assumes "tc_synced env out inn" and "tc_direction out = TcOutgoing tco"
    and "tc_send env sign cos relays opt nonce inn = Ok (mt, inn')"
    and "mt_new_token mt \<noteq> mt_old_token (tco_move_token_out tco)"
  shows "simulate_receive_move_token env inn (tco_move_token_out tco) rmds = Ok Duplicate \<and>
    simulate_receive_move_token env inn' (tco_move_token_out tco) rmds = Ok (RetransmitOutgoing mt)"
proof
  obtain tci where d': "tc_direction inn = TcIncoming tci"
    and t: "tci_move_token_in tci = create_hashed env (tco_move_token_out tco) (tco_token_info tco)"
    using assms(1,2) by (elim tc_synced_obtain) simp
  then show "simulate_receive_move_token env inn (tco_move_token_out tco) rmds = Ok Duplicate"
    by (simp add: simulate_receive_move_token_def in_handle_incoming_def create_hashed_def)
  from synced_send_OkD [OF assms(1-3)] obtain tc2 info' tci' where
    mt: "mt = sign_move_token env sign (create_unsigned_move_token env cos relays opt info'
      (mt_new_token (tco_move_token_out tco)) nonce)"
    and inn': "inn' = tc2 \<lparr> tc_direction := TcOutgoing \<lparr> tco_move_token_out = mt,
      tco_token_info = info', tco_opt_prev_move_token_in = Some tci' \<rparr> \<rparr>"
    by blast
  have "mt_old_token mt = mt_new_token (tco_move_token_out tco)"
    by (simp add: mt sign_move_token_def create_unsigned_move_token_def)
  then show "simulate_receive_move_token env inn' (tco_move_token_out tco) rmds =
      Ok (RetransmitOutgoing mt)"
    using assms(4)
    by (simp add: simulate_receive_move_token_def inn' out_handle_incoming_def eq_commute)
qed

theorem repeated_and_lost_messages_witness:
  "\<exists>tco mt inn'. tc_direction sample_out = TcOutgoing tco \<and>
    tc_send sample_env (sample_sign 2) [] None (Some [sample_currency]) 5 sample_inn = Ok (mt, inn') \<and>
    simulate_receive_move_token sample_env sample_inn (tco_move_token_out tco) [] = Ok Duplicate \<and>
    simulate_receive_move_token sample_env inn' (tco_move_token_out tco) [] =
      Ok (RetransmitOutgoing mt)"
proof -
  obtain tco where d: "tc_direction sample_out = TcOutgoing tco"
    and old: "mt_old_token (tco_move_token_out tco) = token_from_public_key 1"
    by (simp add: sample_channel_simps)
  obtain mt inn' where send: "tc_send sample_env (sample_sign 2) [] None (Some [sample_currency]) 5
      sample_inn = Ok (mt, inn')"
    using sample_sent by blast
  note sync = tc_new_synced [OF sample_keys_less]
  obtain msg where "mt_new_token mt = sample_sign 2 msg"
    using synced_send_OkD [OF sync d send] by (auto simp: sign_move_token_def)
  then have "mt_new_token mt \<noteq> mt_old_token (tco_move_token_out tco)"
    by (simp add: old sample_token_fresh)
  from d send repeated_and_lost_messages [OF sync d send this, of "[]"] show ?thesis by blast
qed

text \<open>
  C17. A friend can only be moved by the other friend's own signature. Whatever message arrives,
  if it is accepted then the receiver was waiting for a message, the message continues its last
  one, it is signed with the friend's key, and it states the hash of exactly the token
  information that the receiver's new state has: the keys of the two friends seen from the
  sender, the flipped balances of the new state, the same inconsistency counter and the next
  move token counter. The mutations that are returned can be applied.
\<close>

theorem accepted_message_is_authentic:
  assumes "simulate_receive_move_token env tc mt rmds = Ok (Received r)"
  shows "\<exists>tco tc' info. tc_direction tc = TcOutgoing tco \<and>
    mt_old_token mt = mt_new_token (tco_move_token_out tco) \<and>
    verify_move_token env mt (mi_remote_public_key (ti_mc (tco_token_info tco))) \<and>
    replay tc_mutate (mtrv_mutations r) tc = (Ok tc' :: (receive_move_token_error, _) result) \<and>
    tc_direction tc' = TcIncoming \<lparr> tci_move_token_in = create_hashed env mt info \<rparr> \<and>
    mt_info_hash mt = hash_token_info env info \<and>
    mi_local_public_key (ti_mc info) = mi_remote_public_key (ti_mc (tco_token_info tco)) \<and>
    mi_remote_public_key (ti_mc info) = mi_local_public_key (ti_mc (tco_token_info tco)) \<and>
    flip_balances (calc_balances (tc_mutual_credits tc')) =
      (Ok (mi_balances (ti_mc info)) :: (receive_move_token_error, _) result) \<and>
    ci_inconsistency_counter (ti_counters info) =
      ci_inconsistency_counter (ti_counters (tco_token_info tco)) \<and>
    uint (ci_move_token_counter (ti_counters info)) =
      uint (ci_move_token_counter (ti_counters (tco_token_info tco))) + 1"
  using assms
proof (rule received_OkD)
  fix tco out2 ms k info
  assume "tc_direction tc = TcOutgoing tco"
    and "mt_old_token mt = mt_new_token (tco_move_token_out tco)"
    and "verify_move_token env mt (mi_remote_public_key (ti_mc (tco_token_info tco)))"
    and r: "replay tc_mutate ms tc = (Ok out2 :: (receive_move_token_error, _) result)"
    and k: "u_checked_add (ci_move_token_counter (ti_counters (tco_token_info tco))) 1 = Some k"
    and flip: "token_info_flip
      \<lparr> ti_mc = \<lparr> mi_local_public_key = mi_local_public_key (ti_mc (tco_token_info tco)),
          mi_remote_public_key = mi_remote_public_key (ti_mc (tco_token_info tco)),
          mi_balances = calc_balances (tc_mutual_credits out2) \<rparr>,
        ti_counters =
          \<lparr> ci_inconsistency_counter = ci_inconsistency_counter (ti_counters (tco_token_info tco)),
            ci_move_token_counter = k \<rparr> \<rparr> = (Ok info :: (receive_move_token_error, _) result)"
    and "mt_info_hash mt = hash_token_info env info"
    and m: "mtrv_mutations r = ms @ [SetDirection (SetIncoming (create_hashed env mt info))]"
  moreover have "replay tc_mutate (mtrv_mutations r) tc = (Ok (out2 \<lparr> tc_direction :=
      TcIncoming \<lparr> tci_move_token_in = create_hashed env mt info \<rparr> \<rparr>) ::
        (receive_move_token_error, _) result)"
    by (simp add: m replay_append r)
  moreover have "uint k = uint (ci_move_token_counter (ti_counters (tco_token_info tco))) + 1"
    using k by (simp add: int_simps)
  ultimately show ?thesis
    by (intro exI [of _ tco] exI [of _ info]
        exI [of _ "out2 \<lparr> tc_direction := TcIncoming \<lparr> tci_move_token_in = create_hashed env mt info \<rparr> \<rparr>"])
      (auto simp: token_info_flip_def mc_info_flip_def rust_simps)
qed

theorem accepted_message_is_authentic_witness:
  "\<exists>mt inn' r tc'. tc_send sample_env (sample_sign 2) [] None (Some [sample_currency]) 5 sample_inn =
      Ok (mt, inn') \<and>
    simulate_receive_move_token sample_env sample_out mt [] = Ok (Received r) \<and>
    replay tc_mutate (mtrv_mutations r) sample_out = (Ok tc' :: (receive_move_token_error, _) result) \<and>
    verify_move_token sample_env mt 2"
proof -
  obtain mt inn' r where send: "tc_send sample_env (sample_sign 2) [] None (Some [sample_currency]) 5
      sample_inn = Ok (mt, inn')"
    and r: "simulate_receive_move_token sample_env sample_out mt [] = Ok (Received r)"
    using sample_sent sample_received by blast
  have "mi_remote_public_key (ti_mc (tco_token_info tco)) = 2"
    if "tc_direction sample_out = TcOutgoing tco" for tco
    using that by (auto simp: sample_channel_simps)
  with send r accepted_message_is_authentic [OF r] show ?thesis by metis
qed

end
