(* ===== verification/Funder_State.thy ===== *)
theory Funder_State
  imports Token_Channel
begin

text \<open>
  The state of a node: \<open>components/funder/src/friend.rs\<close> (one friend), \<open>state.rs\<close> (friends,
  invoices, transactions and payments), \<open>liveness.rs\<close> and \<open>ephemeral.rs\<close> (what is not
  stored). Every change is a mutation, and a mutation that does not fit the state panics.

  Persistent vectors are lists, hash sets are lists without repetition. The last section shows
  what every sequence of mutations keeps.
\<close>

section \<open>Standard library\<close>

definition hs_insert :: "'a \<Rightarrow> 'a list \<Rightarrow> 'a list" where
  "hs_insert x xs = (if x \<in> set xs then xs else xs @ [x])"

definition hs_remove :: "'a \<Rightarrow> 'a list \<Rightarrow> 'a list" where
  "hs_remove x xs = filter (\<lambda>y. y \<noteq> x) xs"

text \<open>\<open>Vec::dedup_by_key\<close> removes all but the first of consecutive elements with the same key.\<close>

fun dedup_by_key :: "('a \<Rightarrow> 'k) \<Rightarrow> 'a list \<Rightarrow> 'a list" where
  "dedup_by_key k [] = []"
| "dedup_by_key k [x] = [x]"
| "dedup_by_key k (x # y # xs) =
     (if k x = k y then dedup_by_key k (x # xs) else x # dedup_by_key k (y # xs))"

section \<open>A friend\<close>

datatype backwards_op =
    BackResponse response_send_funds_op
  | BackCancel cancel_send_funds_op
  | BackCollect collect_send_funds_op

datatype 'b sent_local_relays =
    NeverSent
  | Transition "'b named_relay_address list" "'b named_relay_address list"
  | LastSent "'b named_relay_address list"

definition sent_local_relays_to_vec :: "'b sent_local_relays \<Rightarrow> 'b relay_address list" where
  "sent_local_relays_to_vec sent =
     (case sent of
        NeverSent \<Rightarrow> []
      | Transition last_relays prev_last_relays \<Rightarrow>
          (let relays = map relay_address_from last_relays @ map relay_address_from prev_last_relays
           in dedup_by_key ra_public_key (sort_key ra_public_key relays))
      | LastSent last_address \<Rightarrow> map relay_address_from last_address)"

record channel_inconsistent =
  chi_opt_last_incoming_move_token :: "move_token_hashed option"
  chi_local_reset_terms :: reset_terms
  chi_opt_remote_reset_terms :: "reset_terms option"

record 'b channel_consistent =
  ch_token_channel :: "'b token_channel"
  ch_pending_requests :: "(currency \<times> request_send_funds_op) list"
  ch_pending_backwards_ops :: "(currency \<times> backwards_op) list"
  ch_pending_user_requests :: "(currency \<times> request_send_funds_op) list"

datatype 'b channel_status =
    Inconsistent channel_inconsistent
  | Consistent "'b channel_consistent"

definition status_last_incoming_move_token_hashed ::
  "'b channel_status \<Rightarrow> move_token_hashed option" where
  "status_last_incoming_move_token_hashed status =
     (case status of
        Inconsistent chi \<Rightarrow> chi_opt_last_incoming_move_token chi
      | Consistent ch \<Rightarrow> get_last_incoming_move_token_hashed (ch_token_channel ch))"

record currency_config =
  cfg_rate :: rate
  cfg_remote_max_debt :: u128
  cfg_is_open :: bool

definition currency_config_new :: currency_config where
  "currency_config_new = \<lparr> cfg_rate = rate_new, cfg_remote_max_debt = 0, cfg_is_open = False \<rparr>"

record 'b friend_state =
  fr_local_public_key :: public_key
  fr_remote_public_key :: public_key
  fr_remote_relays :: "'b relay_address list"
  fr_sent_local_relays :: "'b sent_local_relays"
  fr_name :: string
  fr_currency_configs :: "(currency, currency_config) hash_map"
  fr_status :: friend_status
  fr_channel_status :: "'b channel_status"

datatype 'b friend_mutation =
    TcMutation "'b tc_mutation"
  | SetInconsistent channel_inconsistent
  | SetConsistent "'b token_channel"
  | UpdateCurrencyConfig currency currency_config
  | RemoveCurrencyConfig currency
  | PushBackPendingRequest currency request_send_funds_op
  | PopFrontPendingRequest
  | PushBackPendingBackwardsOp currency backwards_op
  | PopFrontPendingBackwardsOp
  | PushBackPendingUserRequest currency request_send_funds_op
  | PopFrontPendingUserRequest
  | RemovePendingRequestsCurrency currency
  | RemovePendingUserRequestsCurrency currency
  | RemovePendingRequests
  | SetStatus friend_status
  | SetRemoteRelays "'b relay_address list"
  | SetName string
  | SetSentLocalRelays "'b sent_local_relays"

definition channel_consistent_new :: "'b token_channel \<Rightarrow> 'b channel_consistent" where
  "channel_consistent_new token_channel =
     \<lparr> ch_token_channel = token_channel, ch_pending_requests = [],
       ch_pending_backwards_ops = [], ch_pending_user_requests = [] \<rparr>"

definition friend_state_new ::
  "'b env \<Rightarrow> public_key \<Rightarrow> public_key \<Rightarrow> 'b relay_address list \<Rightarrow> string \<Rightarrow> 'b friend_state"
where
  "friend_state_new env local_public_key remote_public_key remote_relays name =
     \<lparr> fr_local_public_key = local_public_key, fr_remote_public_key = remote_public_key,
       fr_remote_relays = remote_relays, fr_sent_local_relays = NeverSent, fr_name = name,
       fr_currency_configs = [], fr_status = Disabled,
       fr_channel_status = Consistent
         (channel_consistent_new (token_channel_new env local_public_key remote_public_key)) \<rparr>"

text \<open>A change of a consistent channel; \<open>unreachable!()\<close> when it is inconsistent.\<close>

definition with_consistent ::
  "('b channel_consistent \<Rightarrow> ('e, 'b channel_consistent) result) \<Rightarrow> 'b friend_state \<Rightarrow>
   ('e, 'b friend_state) result"
where
  "with_consistent f friend =
     (case fr_channel_status friend of
        Consistent ch \<Rightarrow>
          and_then (f ch) (\<lambda>ch'. Ok (friend \<lparr> fr_channel_status := Consistent ch' \<rparr>))
      | Inconsistent _ \<Rightarrow> Panic)"

fun friend_mutate :: "'b friend_mutation \<Rightarrow> 'b friend_state \<Rightarrow> ('e, 'b friend_state) result" where
  "friend_mutate (TcMutation tc_mutation) friend =
     with_consistent (\<lambda>ch. and_then (tc_mutate tc_mutation (ch_token_channel ch)) (\<lambda>tc.
       Ok (ch \<lparr> ch_token_channel := tc \<rparr>))) friend"
| "friend_mutate (SetInconsistent channel_inconsistent) friend =
     Ok (friend \<lparr> fr_channel_status := Inconsistent channel_inconsistent \<rparr>)"
| "friend_mutate (SetConsistent token_channel) friend =
     Ok (friend \<lparr> fr_channel_status := Consistent (channel_consistent_new token_channel) \<rparr>)"
| "friend_mutate (UpdateCurrencyConfig currency currency_config) friend =
     Ok (friend \<lparr> fr_currency_configs :=
       hm_insert currency currency_config (fr_currency_configs friend) \<rparr>)"
| "friend_mutate (RemoveCurrencyConfig currency) friend =
     (case fr_channel_status friend of
        Inconsistent _ \<Rightarrow> Panic
      | Consistent ch \<Rightarrow>
          if currency \<in> set (calc_active (tc_active_currencies (ch_token_channel ch))) then Panic
          else Ok (friend \<lparr> fr_currency_configs := hm_remove currency (fr_currency_configs friend) \<rparr>))"
| "friend_mutate (PushBackPendingRequest currency request) friend =
     with_consistent (\<lambda>ch.
       Ok (ch \<lparr> ch_pending_requests := ch_pending_requests ch @ [(currency, request)] \<rparr>)) friend"
| "friend_mutate PopFrontPendingRequest friend =
     with_consistent (\<lambda>ch. Ok (ch \<lparr> ch_pending_requests := tl (ch_pending_requests ch) \<rparr>)) friend"
| "friend_mutate (PushBackPendingBackwardsOp currency backwards_op) friend =
     with_consistent (\<lambda>ch. Ok (ch \<lparr> ch_pending_backwards_ops :=
       ch_pending_backwards_ops ch @ [(currency, backwards_op)] \<rparr>)) friend"
| "friend_mutate PopFrontPendingBackwardsOp friend =
     with_consistent (\<lambda>ch.
       Ok (ch \<lparr> ch_pending_backwards_ops := tl (ch_pending_backwards_ops ch) \<rparr>)) friend"
| "friend_mutate (PushBackPendingUserRequest currency request) friend =
     with_consistent (\<lambda>ch. Ok (ch \<lparr> ch_pending_user_requests :=
       ch_pending_user_requests ch @ [(currency, request)] \<rparr>)) friend"
| "friend_mutate PopFrontPendingUserRequest friend =
     with_consistent (\<lambda>ch.
       Ok (ch \<lparr> ch_pending_user_requests := tl (ch_pending_user_requests ch) \<rparr>)) friend"
| "friend_mutate (RemovePendingRequestsCurrency currency) friend =
     with_consistent (\<lambda>ch. Ok (ch \<lparr> ch_pending_requests :=
       filter (\<lambda>(currency0, _). currency0 \<noteq> currency) (ch_pending_requests ch) \<rparr>)) friend"
| "friend_mutate (RemovePendingUserRequestsCurrency currency) friend =
     with_consistent (\<lambda>ch. Ok (ch \<lparr> ch_pending_user_requests :=
       filter (\<lambda>(currency0, _). currency0 \<noteq> currency) (ch_pending_user_requests ch) \<rparr>)) friend"
| "friend_mutate RemovePendingRequests friend =
     with_consistent (\<lambda>ch.
       Ok (ch \<lparr> ch_pending_requests := [], ch_pending_user_requests := [] \<rparr>)) friend"
| "friend_mutate (SetStatus friend_status) friend = Ok (friend \<lparr> fr_status := friend_status \<rparr>)"
| "friend_mutate (SetRemoteRelays remote_relays) friend =
     Ok (friend \<lparr> fr_remote_relays := remote_relays \<rparr>)"
| "friend_mutate (SetName friend_name) friend = Ok (friend \<lparr> fr_name := friend_name \<rparr>)"
| "friend_mutate (SetSentLocalRelays sent_local_relays) friend =
     Ok (friend \<lparr> fr_sent_local_relays := sent_local_relays \<rparr>)"

section \<open>The node\<close>

record new_transactions =
  nt_num_transactions :: u64
  nt_invoice_id :: invoice_id
  nt_currency :: currency
  nt_total_dest_payment :: u128
  nt_dest_public_key :: public_key

datatype payment_stage =
    NewTransactions new_transactions
  | InProgress u64
  | Success u64 receipt uid
  | Canceled uid
  | AfterSuccessAck u64

record payment =
  pay_src_plain_lock :: plain_lock
  pay_stage :: payment_stage

record open_invoice =
  inv_currency :: currency
  inv_total_dest_payment :: u128
  inv_dest_plain_lock :: plain_lock
  inv_opt_src_hashed_lock :: "hashed_lock option"
  inv_incoming_transactions :: "uid list"

definition open_invoice_new :: "currency \<Rightarrow> u128 \<Rightarrow> plain_lock \<Rightarrow> open_invoice" where
  "open_invoice_new currency total_dest_payment dest_plain_lock =
     \<lparr> inv_currency = currency, inv_total_dest_payment = total_dest_payment,
       inv_dest_plain_lock = dest_plain_lock, inv_opt_src_hashed_lock = None,
       inv_incoming_transactions = [] \<rparr>"

record open_transaction =
  ot_payment_id :: payment_id
  ot_opt_response :: "response_send_funds_op option"

record 'b funder_state =
  fs_local_public_key :: public_key
  fs_relays :: "'b named_relay_address list"
  fs_friends :: "(public_key, 'b friend_state) hash_map"
  fs_open_invoices :: "(invoice_id, open_invoice) hash_map"
  fs_open_transactions :: "(uid, open_transaction) hash_map"
  fs_payments :: "(payment_id, payment) hash_map"

record 'b add_friend =
  af_friend_public_key :: public_key
  af_relays :: "'b relay_address list"
  af_name :: string

datatype 'b funder_mutation =
    FriendMutation public_key "'b friend_mutation"
  | AddRelay "'b named_relay_address"
  | RemoveRelay public_key
  | AddFriend "'b add_friend"
  | RemoveFriend public_key
  | AddInvoice invoice_id currency u128 plain_lock
  | AddIncomingTransaction invoice_id uid
  | SetInvoiceSrcHashedLock invoice_id hashed_lock
  | RemoveInvoice invoice_id
  | AddTransaction uid payment_id
  | SetTransactionResponse response_send_funds_op
  | RemoveTransaction uid
  | UpdatePayment payment_id payment
  | RemovePayment payment_id

definition funder_state_new :: "public_key \<Rightarrow> 'b named_relay_address list \<Rightarrow> 'b funder_state" where
  "funder_state_new local_public_key relays =
     \<lparr> fs_local_public_key = local_public_key, fs_relays = relays, fs_friends = [],
       fs_open_invoices = [], fs_open_transactions = [], fs_payments = [] \<rparr>"

fun funder_mutate ::
  "'b env \<Rightarrow> 'b funder_mutation \<Rightarrow> 'b funder_state \<Rightarrow> ('e, 'b funder_state) result"
where
  "funder_mutate env (FriendMutation public_key friend_mutation) state =
     and_then (unwrap (hm_get (fs_friends state) public_key)) (\<lambda>friend.
     and_then (friend_mutate friend_mutation friend) (\<lambda>friend'.
     Ok (state \<lparr> fs_friends := hm_insert public_key friend' (fs_friends state) \<rparr>)))"
| "funder_mutate env (AddRelay named_relay_address) state =
     Ok (state \<lparr> fs_relays :=
       filter (\<lambda>r. nra_public_key r \<noteq> nra_public_key named_relay_address) (fs_relays state) @
         [named_relay_address] \<rparr>)"
| "funder_mutate env (RemoveRelay public_key) state =
     Ok (state \<lparr> fs_relays := filter (\<lambda>r. nra_public_key r \<noteq> public_key) (fs_relays state) \<rparr>)"
| "funder_mutate env (AddFriend add_friend) state =
     (let friend = friend_state_new env (fs_local_public_key state)
            (af_friend_public_key add_friend) (af_relays add_friend) (af_name add_friend) in
      and_then (assert_that (\<not> hm_contains (fs_friends state) (af_friend_public_key add_friend))) (\<lambda>_.
      Ok (state \<lparr> fs_friends :=
        hm_insert (af_friend_public_key add_friend) friend (fs_friends state) \<rparr>)))"
| "funder_mutate env (RemoveFriend public_key) state =
     Ok (state \<lparr> fs_friends := hm_remove public_key (fs_friends state) \<rparr>)"
| "funder_mutate env (AddInvoice invoice_id currency total_dest_payment dest_plain_lock) state =
     Ok (state \<lparr> fs_open_invoices :=
       hm_insert invoice_id (open_invoice_new currency total_dest_payment dest_plain_lock)
         (fs_open_invoices state) \<rparr>)"
| "funder_mutate env (AddIncomingTransaction invoice_id request_id) state =
     and_then (unwrap (hm_get (fs_open_invoices state) invoice_id)) (\<lambda>open_invoice.
     Ok (state \<lparr> fs_open_invoices := hm_insert invoice_id (open_invoice
       \<lparr> inv_incoming_transactions := hs_insert request_id (inv_incoming_transactions open_invoice) \<rparr>)
         (fs_open_invoices state) \<rparr>))"
| "funder_mutate env (SetInvoiceSrcHashedLock invoice_id src_hashed_lock) state =
     and_then (unwrap (hm_get (fs_open_invoices state) invoice_id)) (\<lambda>open_invoice.
     and_then (assert_that (inv_opt_src_hashed_lock open_invoice = None)) (\<lambda>_.
     Ok (state \<lparr> fs_open_invoices := hm_insert invoice_id (open_invoice
       \<lparr> inv_opt_src_hashed_lock := Some src_hashed_lock \<rparr>) (fs_open_invoices state) \<rparr>)))"
| "funder_mutate env (RemoveInvoice invoice_id) state =
     Ok (state \<lparr> fs_open_invoices := hm_remove invoice_id (fs_open_invoices state) \<rparr>)"
| "funder_mutate env (AddTransaction request_id payment_id) state =
     Ok (state \<lparr> fs_open_transactions := hm_insert request_id
       \<lparr> ot_payment_id = payment_id, ot_opt_response = None \<rparr> (fs_open_transactions state) \<rparr>)"
| "funder_mutate env (SetTransactionResponse response) state =
     and_then (unwrap (hm_get (fs_open_transactions state) (rs_request_id response)))
       (\<lambda>open_transaction.
     and_then (assert_that (ot_opt_response open_transaction = None)) (\<lambda>_.
     Ok (state \<lparr> fs_open_transactions := hm_insert (rs_request_id response)
       (open_transaction \<lparr> ot_opt_response := Some response \<rparr>) (fs_open_transactions state) \<rparr>)))"
| "funder_mutate env (RemoveTransaction request_id) state =
     Ok (state \<lparr> fs_open_transactions := hm_remove request_id (fs_open_transactions state) \<rparr>)"
| "funder_mutate env (UpdatePayment payment_id payment) state =
     Ok (state \<lparr> fs_payments := hm_insert payment_id payment (fs_payments state) \<rparr>)"
| "funder_mutate env (RemovePayment payment_id) state =
     Ok (state \<lparr> fs_payments := hm_remove payment_id (fs_payments state) \<rparr>)"

section \<open>Liveness\<close>

record liveness =
  lv_friends :: "public_key list"

datatype liveness_mutation = SetOnline public_key | SetOffline public_key

definition liveness_new :: liveness where
  "liveness_new = \<lparr> lv_friends = [] \<rparr>"

fun liveness_mutate :: "liveness_mutation \<Rightarrow> liveness \<Rightarrow> liveness" where
  "liveness_mutate (SetOnline public_key) lv =
     lv \<lparr> lv_friends := hs_insert public_key (lv_friends lv) \<rparr>"
| "liveness_mutate (SetOffline public_key) lv =
     lv \<lparr> lv_friends := hs_remove public_key (lv_friends lv) \<rparr>"

definition is_online :: "liveness \<Rightarrow> public_key \<Rightarrow> bool" where
  "is_online lv friend_public_key \<longleftrightarrow> friend_public_key \<in> set (lv_friends lv)"

record ephemeral =
  eph_liveness :: liveness

datatype ephemeral_mutation = LivenessMutation liveness_mutation

definition ephemeral_new :: ephemeral where
  "ephemeral_new = \<lparr> eph_liveness = liveness_new \<rparr>"

fun ephemeral_mutate :: "ephemeral_mutation \<Rightarrow> ephemeral \<Rightarrow> ephemeral" where
  "ephemeral_mutate (LivenessMutation liveness_mutation) e =
     e \<lparr> eph_liveness := liveness_mutate liveness_mutation (eph_liveness e) \<rparr>"

section \<open>What the mutations keep\<close>

definition friend_wf :: "'b friend_state \<Rightarrow> bool" where
  "friend_wf friend \<longleftrightarrow> hm_wf (fr_currency_configs friend)"

definition funder_wf :: "'b funder_state \<Rightarrow> bool" where
  "funder_wf state \<longleftrightarrow>
     distinct (map nra_public_key (fs_relays state)) \<and>
     hm_wf (fs_friends state) \<and>
     list_all (\<lambda>(pk, friend). friend_wf friend \<and> fr_remote_public_key friend = pk \<and>
       fr_local_public_key friend = fs_local_public_key state) (fs_friends state) \<and>
     hm_wf (fs_open_invoices state) \<and>
     list_all (\<lambda>(_, inv). distinct (inv_incoming_transactions inv)) (fs_open_invoices state) \<and>
     hm_wf (fs_open_transactions state) \<and> hm_wf (fs_payments state)"

lemma set_hs_insert [simp]: "set (hs_insert x xs) = insert x (set xs)"
  by (auto simp: hs_insert_def)

lemma set_hs_remove [simp]: "set (hs_remove x xs) = set xs - {x}"
  by (auto simp: hs_remove_def)

lemma distinct_hs_insert [simp]: "distinct (hs_insert x xs) = distinct xs"
  by (auto simp: hs_insert_def)

lemma with_consistent_Ok_iff [rust_simps]:
  "with_consistent f friend = Ok friend' \<longleftrightarrow>
     (\<exists>ch ch'. fr_channel_status friend = Consistent ch \<and> f ch = Ok ch' \<and>
       friend' = friend \<lparr> fr_channel_status := Consistent ch' \<rparr>)"
  by (auto simp: with_consistent_def rust_simps split: channel_status.splits)

text \<open>A mutation of a friend keeps its keys, and maps stay maps.\<close>

lemma friend_mutate_frame:
  assumes "friend_mutate m friend = Ok friend'"
  shows "fr_remote_public_key friend' = fr_remote_public_key friend \<and>
    fr_local_public_key friend' = fr_local_public_key friend \<and>
    (friend_wf friend \<longrightarrow> friend_wf friend')"
  using assms
  by (cases m) (auto simp: rust_simps friend_wf_def hm_wf_insert hm_wf_remove
      split: channel_status.splits if_splits)

interpretation frj: mutable_state friend_mutate friend_wf
  by unfold_locales (use friend_mutate_frame in blast)

lemma friend_state_new_fields:
  "fr_local_public_key (friend_state_new env lpk rpk relays name) = lpk"
  "fr_remote_public_key (friend_state_new env lpk rpk relays name) = rpk"
  "friend_wf (friend_state_new env lpk rpk relays name)"
  by (simp_all add: friend_state_new_def friend_wf_def)

lemma distinct_map_filter_snoc:
  "distinct (map f xs) \<Longrightarrow> distinct (map f (filter (\<lambda>x. f x \<noteq> f y) xs @ [y]))"
  by (auto simp: distinct_map_filter)

lemma funder_mutate_wf:
  assumes "funder_mutate env m state = Ok state'" and "funder_wf state"
  shows "funder_wf state'"
  using assms
  by (induction m state rule: funder_mutate.induct)
    (auto simp: rust_simps Let_def funder_wf_def hm_all_iff hm_wf_insert hm_wf_remove hm_get_insert
      hm_get_remove distinct_map_filter_snoc distinct_map_filter friend_state_new_fields
      open_invoice_new_def
      split: if_splits dest: friend_mutate_frame)

interpretation fsj: mutable_state "funder_mutate env" funder_wf
  for env :: "'b env"
  by unfold_locales (rule funder_mutate_wf)

end
