(* ===== verification/Handler_State.thy ===== *)
theory Handler_State
  imports Funder_State
begin

text \<open>
  What the handlers of the funder work on: \<open>handler/types.rs\<close> (commands for the sender),
  \<open>handler/state_wrap.rs\<close> (the state with its pushed mutations), \<open>handler/utils.rs\<close>
  (searches), the outgoing messages of \<open>proto/src/funder/messages.rs\<close> and the random
  generator of \<open>crypto/src/rand.rs\<close>.

  The mutable references that the source passes from handler to handler are the fields of the
  record \<open>hstate\<close>. A handler that the source ends with an error does so before it has changed
  anything, so an \<open>Err\<close> carries no state and the caller continues with the one it had.
\<close>

section \<open>Randomness\<close>

text \<open>
  The generator is a tape of bytes with a position; \<open>fill\<close> never fails on the system's
  generator. \<open>rand_gen\<close> fills a fixed array, whose first byte is the most significant one.
\<close>

record rng =
  rng_tape :: "nat \<Rightarrow> u8"
  rng_pos :: nat

definition rng_fill :: "nat \<Rightarrow> rng \<Rightarrow> u8 list \<times> rng" where
  "rng_fill n r = (map (rng_tape r) [rng_pos r..<rng_pos r + n], r \<lparr> rng_pos := rng_pos r + n \<rparr>)"

definition of_be_bytes :: "u8 list \<Rightarrow> 'a::len word" where
  "of_be_bytes bs = foldl (\<lambda>w b. push_bit 8 w + ucast b) 0 bs"

definition rand_gen :: "rng \<Rightarrow> 'a::len word \<times> rng" where
  "rand_gen r = (let (bs, r') = rng_fill (LENGTH('a) div 8) r in (of_be_bytes bs, r'))"

section \<open>Commands for the sender\<close>

record friend_send_commands =
  fsc_try_send :: bool
  fsc_resend_relays :: bool
  fsc_resend_outgoing :: bool
  fsc_remote_wants_token :: bool
  fsc_local_reset :: bool

definition friend_send_commands_new :: friend_send_commands where
  "friend_send_commands_new =
     \<lparr> fsc_try_send = False, fsc_resend_relays = False, fsc_resend_outgoing = False,
       fsc_remote_wants_token = False, fsc_local_reset = False \<rparr>"

type_synonym send_commands = "(public_key, friend_send_commands) hash_map"

definition send_commands_new :: send_commands where
  "send_commands_new = []"

text \<open>\<open>entry(..).or_insert_with(FriendSendCommands::new)\<close>, then a flag is set.\<close>

definition send_commands_set ::
  "(friend_send_commands \<Rightarrow> friend_send_commands) \<Rightarrow> public_key \<Rightarrow> send_commands \<Rightarrow> send_commands"
where
  "send_commands_set f pk cmds =
     hm_insert pk (f (case hm_get cmds pk of Some c \<Rightarrow> c | None \<Rightarrow> friend_send_commands_new)) cmds"

definition set_try_send :: "public_key \<Rightarrow> send_commands \<Rightarrow> send_commands" where
  "set_try_send = send_commands_set (\<lambda>c. c \<lparr> fsc_try_send := True \<rparr>)"

definition set_resend_relays :: "public_key \<Rightarrow> send_commands \<Rightarrow> send_commands" where
  "set_resend_relays = send_commands_set (\<lambda>c. c \<lparr> fsc_resend_relays := True \<rparr>)"

definition set_resend_outgoing :: "public_key \<Rightarrow> send_commands \<Rightarrow> send_commands" where
  "set_resend_outgoing = send_commands_set (\<lambda>c. c \<lparr> fsc_resend_outgoing := True \<rparr>)"

definition set_remote_wants_token :: "public_key \<Rightarrow> send_commands \<Rightarrow> send_commands" where
  "set_remote_wants_token = send_commands_set (\<lambda>c. c \<lparr> fsc_remote_wants_token := True \<rparr>)"

definition set_local_reset :: "public_key \<Rightarrow> send_commands \<Rightarrow> send_commands" where
  "set_local_reset = send_commands_set (\<lambda>c. c \<lparr> fsc_local_reset := True \<rparr>)"

section \<open>Outgoing messages\<close>

text \<open>
  The report mutations that are sent to the user with every message are computed by
  \<open>report.rs\<close> and are left out of the outgoing control messages.
\<close>

datatype request_result = ResultComplete commit | ResultSuccess | ResultFailure

record transaction_result =
  tr_request_id :: uid
  tr_result :: request_result

record payment_status_success =
  pss_receipt :: receipt
  pss_ack_uid :: uid

datatype payment_status =
    PaymentNotFound
  | StatusSuccess payment_status_success
  | StatusCanceled uid

record response_close_payment =
  rcp_payment_id :: payment_id
  rcp_status :: payment_status

datatype funder_outgoing_control =
    TransactionResult transaction_result
  | ResponseClosePayment response_close_payment

record 'b channeler_update_friend =
  cuf_friend_public_key :: public_key
  cuf_friend_relays :: "'b relay_address list"
  cuf_local_relays :: "'b relay_address list"

datatype 'b channeler_config =
    ConfigSetRelays "'b relay_address list"
  | ConfigUpdateFriend "'b channeler_update_friend"
  | ConfigRemoveFriend public_key

section \<open>The state with its mutations\<close>

record semi_response =
  sr_friend_public_key :: public_key
  sr_currency :: currency
  sr_pending_transaction :: pending_transaction
  sr_is_complete :: bool

record 'b mutable_funder_state =
  mfs_initial_state :: "'b funder_state"
  mfs_state :: "'b funder_state"
  mfs_unsigned_responses :: "semi_response list"
  mfs_mutations :: "'b funder_mutation list"

definition mutable_funder_state_new :: "'b funder_state \<Rightarrow> 'b mutable_funder_state" where
  "mutable_funder_state_new state =
     \<lparr> mfs_initial_state = state, mfs_state = state, mfs_unsigned_responses = [],
       mfs_mutations = [] \<rparr>"

definition queue_unsigned_response ::
  "public_key \<Rightarrow> currency \<Rightarrow> pending_transaction \<Rightarrow> bool \<Rightarrow> 'b mutable_funder_state \<Rightarrow>
   'b mutable_funder_state"
where
  "queue_unsigned_response friend_public_key currency pending_transaction is_complete m =
     m \<lparr> mfs_unsigned_responses := mfs_unsigned_responses m @
       [\<lparr> sr_friend_public_key = friend_public_key, sr_currency = currency,
          sr_pending_transaction = pending_transaction, sr_is_complete = is_complete \<rparr>] \<rparr>"

definition mfs_mutate ::
  "'b env \<Rightarrow> 'b funder_mutation \<Rightarrow> 'b mutable_funder_state \<Rightarrow> ('e, 'b mutable_funder_state) result"
where
  "mfs_mutate env mutation m =
     and_then (funder_mutate env mutation (mfs_state m)) (\<lambda>state.
     Ok (m \<lparr> mfs_state := state, mfs_mutations := mfs_mutations m @ [mutation] \<rparr>))"

definition mfs_done ::
  "'b mutable_funder_state \<Rightarrow>
   ('e, 'b funder_state \<times> 'b funder_mutation list \<times> 'b funder_state) result"
where
  "mfs_done m =
     and_then (assert_that (mfs_unsigned_responses m = [])) (\<lambda>_.
     Ok (mfs_initial_state m, mfs_mutations m, mfs_state m))"

record mutable_ephemeral =
  me_ephemeral :: ephemeral
  me_mutations :: "ephemeral_mutation list"

definition mutable_ephemeral_new :: "ephemeral \<Rightarrow> mutable_ephemeral" where
  "mutable_ephemeral_new e = \<lparr> me_ephemeral = e, me_mutations = [] \<rparr>"

definition me_mutate :: "ephemeral_mutation \<Rightarrow> mutable_ephemeral \<Rightarrow> mutable_ephemeral" where
  "me_mutate mutation m =
     m \<lparr> me_ephemeral := ephemeral_mutate mutation (me_ephemeral m),
         me_mutations := me_mutations m @ [mutation] \<rparr>"

section \<open>The arguments of the handlers\<close>

record 'b hstate =
  h_m_state :: "'b mutable_funder_state"
  h_m_ephemeral :: mutable_ephemeral
  h_send_commands :: send_commands
  h_outgoing_control :: "funder_outgoing_control list"
  h_channeler_config :: "'b channeler_config list"
  h_rng :: rng

abbreviation h_state :: "'b hstate \<Rightarrow> 'b funder_state" where
  "h_state h \<equiv> mfs_state (h_m_state h)"

abbreviation h_ephemeral :: "'b hstate \<Rightarrow> ephemeral" where
  "h_ephemeral h \<equiv> me_ephemeral (h_m_ephemeral h)"

definition h_mutate :: "'b env \<Rightarrow> 'b funder_mutation \<Rightarrow> 'b hstate \<Rightarrow> ('e, 'b hstate) result" where
  "h_mutate env mutation h =
     and_then (mfs_mutate env mutation (h_m_state h)) (\<lambda>m. Ok (h \<lparr> h_m_state := m \<rparr>))"

definition h_mutate_friend ::
  "'b env \<Rightarrow> public_key \<Rightarrow> 'b friend_mutation \<Rightarrow> 'b hstate \<Rightarrow> ('e, 'b hstate) result" where
  "h_mutate_friend env pk mutation = h_mutate env (FriendMutation pk mutation)"

definition h_command :: "(send_commands \<Rightarrow> send_commands) \<Rightarrow> 'b hstate \<Rightarrow> 'b hstate" where
  "h_command f h = h \<lparr> h_send_commands := f (h_send_commands h) \<rparr>"

definition h_control :: "funder_outgoing_control \<Rightarrow> 'b hstate \<Rightarrow> 'b hstate" where
  "h_control c h = h \<lparr> h_outgoing_control := h_outgoing_control h @ [c] \<rparr>"

definition h_config :: "'b channeler_config \<Rightarrow> 'b hstate \<Rightarrow> 'b hstate" where
  "h_config c h = h \<lparr> h_channeler_config := h_channeler_config h @ [c] \<rparr>"

definition h_rand :: "'b hstate \<Rightarrow> 'a::len word \<times> 'b hstate" where
  "h_rand h = (let (w, r) = rand_gen (h_rng h) in (w, h \<lparr> h_rng := r \<rparr>))"

section \<open>Searches\<close>

text \<open>The mutual credit of a currency, if the channel is consistent and has it.\<close>

definition friend_mutual_credit :: "currency \<Rightarrow> 'b friend_state \<Rightarrow> mutual_credit option" where
  "friend_mutual_credit currency friend =
     (case fr_channel_status friend of
        Inconsistent _ \<Rightarrow> None
      | Consistent ch \<Rightarrow> hm_get (tc_mutual_credits (ch_token_channel ch)) currency)"

fun find_request_origin_loop ::
  "currency \<Rightarrow> uid \<Rightarrow> (public_key, 'b friend_state) hash_map \<Rightarrow> public_key option"
where
  "find_request_origin_loop currency request_id [] = None"
| "find_request_origin_loop currency request_id ((friend_public_key, friend) # friends) =
     (case friend_mutual_credit currency friend of
        None \<Rightarrow> find_request_origin_loop currency request_id friends
      | Some mutual_credit \<Rightarrow>
          if hm_contains (mc_remote mutual_credit) request_id then Some friend_public_key
          else find_request_origin_loop currency request_id friends)"

definition find_request_origin :: "'b funder_state \<Rightarrow> currency \<Rightarrow> uid \<Rightarrow> public_key option" where
  "find_request_origin state currency request_id =
     find_request_origin_loop currency request_id (fs_friends state)"

fun find_pending_loop ::
  "(mutual_credit \<Rightarrow> pending_map) \<Rightarrow> currency \<Rightarrow> uid \<Rightarrow> 'b friend_state list \<Rightarrow>
   pending_transaction option"
where
  "find_pending_loop side currency request_id [] = None"
| "find_pending_loop side currency request_id (friend # friends) =
     (case friend_mutual_credit currency friend of
        None \<Rightarrow> find_pending_loop side currency request_id friends
      | Some mutual_credit \<Rightarrow>
          (case hm_get (side mutual_credit) request_id of
             Some pending_transaction \<Rightarrow> Some pending_transaction
           | None \<Rightarrow> find_pending_loop side currency request_id friends))"

definition find_local_pending_transaction ::
  "'b funder_state \<Rightarrow> currency \<Rightarrow> uid \<Rightarrow> pending_transaction option" where
  "find_local_pending_transaction state currency request_id =
     find_pending_loop mc_local currency request_id (hm_values (fs_friends state))"

definition find_remote_pending_transaction ::
  "'b funder_state \<Rightarrow> currency \<Rightarrow> uid \<Rightarrow> pending_transaction option" where
  "find_remote_pending_transaction state currency request_id =
     find_pending_loop mc_remote currency request_id (hm_values (fs_friends state))"

definition is_friend_ready ::
  "'b funder_state \<Rightarrow> ephemeral \<Rightarrow> public_key \<Rightarrow> currency \<Rightarrow> ('e, bool) result" where
  "is_friend_ready state e friend_public_key currency =
     and_then (unwrap (hm_get (fs_friends state) friend_public_key)) (\<lambda>friend.
     if \<not> is_online (eph_liveness e) friend_public_key then Ok False
     else (case fr_channel_status friend of
             Inconsistent _ \<Rightarrow> Ok False
           | Consistent ch \<Rightarrow>
               Ok (hm_get (tc_mutual_credits (ch_token_channel ch)) currency \<noteq> None)))"

section \<open>Mutations and the error type\<close>

lemma funder_mutate_cast:
  "funder_mutate env m s = (Ok s' :: ('e, 'b funder_state) result) \<Longrightarrow>
   funder_mutate env m s = (Ok s' :: ('f, 'b funder_state) result)"
proof -
  have tc: "tc_mutate m tc = (Ok tc' :: ('e, 'b token_channel) result) \<Longrightarrow>
      tc_mutate m tc = (Ok tc' :: ('f, 'b token_channel) result)"
    for m :: "'b tc_mutation" and tc tc' by (rule tc_mutate_cast)
  have fr: "friend_mutate m fr = (Ok fr' :: ('f, 'b friend_state) result)"
    if "friend_mutate m fr = (Ok fr' :: ('e, 'b friend_state) result)"
    for m and fr fr' :: "'b friend_state"
    using that tc by (cases m) (auto simp: rust_simps split: channel_status.splits if_splits)
  show "funder_mutate env m s = (Ok s' :: ('e, 'b funder_state) result) \<Longrightarrow>
      funder_mutate env m s = (Ok s' :: ('f, 'b funder_state) result)"
    by (cases m) (auto simp: rust_simps Let_def dest: fr)
qed

lemma mfs_mutate_cast:
  "mfs_mutate env mu m = (Ok m' :: ('e, _) result) \<Longrightarrow> mfs_mutate env mu m = (Ok m' :: ('f, _) result)"
  by (auto simp: mfs_mutate_def rust_simps dest: funder_mutate_cast)

lemma h_m_state_simps [simp]:
  "h_m_state (h_command f h) = h_m_state h"
  "h_m_state (h_control c h) = h_m_state h"
  "h_m_state (h_config g h) = h_m_state h"
  by (simp_all add: h_command_def h_control_def h_config_def)

lemma h_rand_m_state: "h_rand h = (w, h') \<Longrightarrow> h_m_state h' = h_m_state h"
  by (auto simp: h_rand_def split: prod.splits)

section \<open>Searches find what they look for\<close>

lemma find_request_origin_Some:
  assumes "find_request_origin state currency request_id = Some pk"
  shows "\<exists>friend mc. (pk, friend) \<in> set (fs_friends state) \<and>
    friend_mutual_credit currency friend = Some mc \<and> hm_contains (mc_remote mc) request_id"
proof -
  have "\<exists>friend mc. (pk, friend) \<in> set fs \<and>
      friend_mutual_credit currency friend = Some mc \<and> hm_contains (mc_remote mc) request_id"
    if "find_request_origin_loop currency request_id fs = Some pk" for fs :: "(public_key, 'b friend_state) hash_map"
    using that
    by (induction currency request_id fs rule: find_request_origin_loop.induct)
      (auto split: option.splits if_splits)
  with assms show ?thesis unfolding find_request_origin_def by blast
qed

lemma find_request_origin_None:
  "find_request_origin state currency request_id = None \<longleftrightarrow>
     (\<forall>(pk, friend) \<in> set (fs_friends state). \<forall>mc.
        friend_mutual_credit currency friend = Some mc \<longrightarrow> \<not> hm_contains (mc_remote mc) request_id)"
proof -
  have "find_request_origin_loop currency request_id fs = None \<longleftrightarrow>
     (\<forall>(pk, friend) \<in> set fs. \<forall>mc.
        friend_mutual_credit currency friend = Some mc \<longrightarrow> \<not> hm_contains (mc_remote mc) request_id)"
    for fs :: "(public_key, 'b friend_state) hash_map"
    by (induction currency request_id fs rule: find_request_origin_loop.induct)
      (auto split: option.splits)
  then show ?thesis unfolding find_request_origin_def by blast
qed

end
