(* ===== verification/Canceler.thy ===== *)
theory Canceler
  imports Handler_State
begin

text \<open>
  \<open>components/funder/src/handler/canceler.rs\<close>: answering a request with a cancellation, and
  cancelling everything that was forwarded to a friend that is no longer available.
\<close>

datatype currency_choice = One currency | All

definition reply_with_cancel ::
  "'b env \<Rightarrow> public_key \<Rightarrow> currency \<Rightarrow> uid \<Rightarrow> 'b hstate \<Rightarrow> ('e, 'b hstate) result"
where
  "reply_with_cancel env remote_public_key currency request_id h =
     and_then (h_mutate_friend env remote_public_key (PushBackPendingBackwardsOp currency
       (BackCancel (create_cancel_send_funds request_id))) h) (\<lambda>h.
     Ok (h_command (set_try_send remote_public_key) h))"

text \<open>The stage of a payment that has one transaction less, and what the user is told.\<close>

definition stage_without_transaction ::
  "payment_stage \<Rightarrow> 'b hstate \<Rightarrow>
   ('e, (payment_stage option \<times> payment_status option) \<times> 'b hstate) result"
where
  "stage_without_transaction stage h =
     (case stage of
        NewTransactions new_transactions \<Rightarrow>
          and_then (unwrap (u_checked_sub (nt_num_transactions new_transactions) 1)) (\<lambda>n.
          Ok ((Some (NewTransactions (new_transactions \<lparr> nt_num_transactions := n \<rparr>)), None), h))
      | InProgress num_transactions \<Rightarrow>
          and_then (assert_that (num_transactions > 0)) (\<lambda>_.
          and_then (unwrap (u_checked_sub num_transactions 1)) (\<lambda>n.
          if n > 0 then Ok ((Some (InProgress n), None), h)
          else (let (ack_uid, h) = h_rand h in
                Ok ((Some (Canceled ack_uid), Some (StatusCanceled ack_uid)), h))))
      | Success num_transactions receipt ack_uid \<Rightarrow>
          and_then (unwrap (u_checked_sub num_transactions 1)) (\<lambda>n.
          Ok ((Some (Success n receipt ack_uid),
               Some (StatusSuccess \<lparr> pss_receipt = receipt, pss_ack_uid = ack_uid \<rparr>)), h))
      | Canceled _ \<Rightarrow> Panic
      | AfterSuccessAck num_transactions \<Rightarrow>
          and_then (unwrap (u_checked_sub num_transactions 1)) (\<lambda>n.
          Ok ((if n > 0 then Some (AfterSuccessAck n) else None, None), h)))"

text \<open>Telling the user, and storing the new stage or removing the payment.\<close>

definition update_payment_stage ::
  "'b env \<Rightarrow> payment_id \<Rightarrow> plain_lock \<Rightarrow> payment_stage option \<times> payment_status option \<Rightarrow>
   'b hstate \<Rightarrow> ('e, 'b hstate) result"
where
  "update_payment_stage env payment_id src_plain_lock update h =
     (case update of (opt_new_stage, opt_payment_status) \<Rightarrow>
      let h = (case opt_payment_status of
                 Some payment_status \<Rightarrow> h_control (ResponseClosePayment
                   \<lparr> rcp_payment_id = payment_id, rcp_status = payment_status \<rparr>) h
               | None \<Rightarrow> h)
      in h_mutate env
           (case opt_new_stage of
              Some new_stage \<Rightarrow> UpdatePayment payment_id
                \<lparr> pay_src_plain_lock = src_plain_lock, pay_stage = new_stage \<rparr>
            | None \<Rightarrow> RemovePayment payment_id) h)"

definition remove_transaction :: "'b env \<Rightarrow> uid \<Rightarrow> 'b hstate \<Rightarrow> ('e, 'b hstate) result" where
  "remove_transaction env request_id h =
     and_then (unwrap (hm_get (fs_open_transactions (h_state h)) request_id)) (\<lambda>open_transaction.
     and_then (unwrap (hm_get (fs_payments (h_state h)) (ot_payment_id open_transaction))) (\<lambda>payment.
     and_then (h_mutate env (RemoveTransaction request_id) h) (\<lambda>h.
     and_then (stage_without_transaction (pay_stage payment) h) (\<lambda>(update, h).
     update_payment_stage env (ot_payment_id open_transaction) (pay_src_plain_lock payment)
       update h))))"

text \<open>
  The cancellation of one request that was sent to a friend: to its origin, or to the user.
  The source has it twice, for requests in the channel and for requests in the queues.
\<close>

definition cancel_by_origin ::
  "'b env \<Rightarrow> currency \<Rightarrow> uid \<Rightarrow> public_key option \<Rightarrow> 'b hstate \<Rightarrow> ('e, 'b hstate) result"
where
  "cancel_by_origin env currency request_id opt_origin_public_key h =
     (case opt_origin_public_key of
        Some origin_public_key \<Rightarrow> reply_with_cancel env origin_public_key currency request_id h
      | None \<Rightarrow>
          remove_transaction env request_id (h_control (TransactionResult
            \<lparr> tr_request_id = request_id, tr_result = ResultFailure \<rparr>) h))"

definition cancel_local_transaction ::
  "'b env \<Rightarrow> currency \<Rightarrow> uid \<times> pending_transaction \<Rightarrow> 'b hstate \<Rightarrow> ('e, 'b hstate) result"
where
  "cancel_local_transaction env currency entry h =
     (case entry of (local_request_id, pending_local_transaction) \<Rightarrow>
      cancel_by_origin env currency (pt_request_id pending_local_transaction)
        (find_request_origin (h_state h) currency local_request_id) h)"

definition cancel_local_pending_transactions ::
  "'b env \<Rightarrow> public_key \<Rightarrow> 'b hstate \<Rightarrow> ('e, 'b hstate) result"
where
  "cancel_local_pending_transactions env friend_public_key h =
     and_then (unwrap (hm_get (fs_friends (h_state h)) friend_public_key)) (\<lambda>friend.
     case fr_channel_status friend of
       Inconsistent _ \<Rightarrow> Ok h
     | Consistent ch \<Rightarrow>
         fold_r (\<lambda>(currency, mutual_credit).
             fold_r (cancel_local_transaction env currency) (mc_local mutual_credit))
           (tc_mutual_credits (ch_token_channel ch)) h)"

definition cancel_request ::
  "'b env \<Rightarrow> currency \<Rightarrow> request_send_funds_op \<Rightarrow> 'b hstate \<Rightarrow> ('e, 'b hstate) result"
where
  "cancel_request env currency pending_request h =
     cancel_by_origin env currency (rq_request_id pending_request)
       (find_request_origin (h_state h) currency (rq_request_id pending_request)) h"

definition cancel_chosen_requests ::
  "'b env \<Rightarrow> currency_choice \<Rightarrow> (currency \<times> request_send_funds_op) list \<Rightarrow> 'b hstate \<Rightarrow>
   ('e, 'b hstate) result"
where
  "cancel_chosen_requests env currency_choice =
     fold_r (\<lambda>(currency, pending_request) h.
       case currency_choice of
         One currency0 \<Rightarrow>
           if currency0 \<noteq> currency then Ok h else cancel_request env currency pending_request h
       | All \<Rightarrow> cancel_request env currency pending_request h)"

definition cancel_pending_requests ::
  "'b env \<Rightarrow> public_key \<Rightarrow> currency_choice \<Rightarrow> 'b hstate \<Rightarrow> ('e, 'b hstate) result"
where
  "cancel_pending_requests env friend_public_key currency_choice h =
     and_then (unwrap (hm_get (fs_friends (h_state h)) friend_public_key)) (\<lambda>friend.
     case fr_channel_status friend of
       Inconsistent _ \<Rightarrow> Ok h
     | Consistent ch \<Rightarrow>
         and_then (cancel_chosen_requests env currency_choice (ch_pending_requests ch) h) (\<lambda>h.
         and_then (cancel_chosen_requests env currency_choice (ch_pending_user_requests ch) h) (\<lambda>h.
         and_then (h_mutate_friend env friend_public_key
           (case currency_choice of
              One currency0 \<Rightarrow> RemovePendingRequestsCurrency currency0
            | All \<Rightarrow> RemovePendingRequests) h) (\<lambda>h.
         h_mutate_friend env friend_public_key
           (case currency_choice of
              One currency0 \<Rightarrow> RemovePendingUserRequestsCurrency currency0
            | All \<Rightarrow> RemovePendingRequests) h))))"

definition cancel_nonuser_pending_requests ::
  "'b env \<Rightarrow> public_key \<Rightarrow> currency_choice \<Rightarrow> 'b hstate \<Rightarrow> ('e, 'b hstate) result"
where
  "cancel_nonuser_pending_requests env friend_public_key currency_choice h =
     and_then (unwrap (hm_get (fs_friends (h_state h)) friend_public_key)) (\<lambda>friend.
     case fr_channel_status friend of
       Inconsistent _ \<Rightarrow> Ok h
     | Consistent ch \<Rightarrow>
         and_then (cancel_chosen_requests env currency_choice (ch_pending_requests ch) h) (\<lambda>h.
         h_mutate_friend env friend_public_key
           (case currency_choice of
              One currency0 \<Rightarrow> RemovePendingRequestsCurrency currency0
            | All \<Rightarrow> RemovePendingRequests) h))"

end
