(* ===== verification/Handle_Control.thy ===== *)
theory Handle_Control
  imports Canceler
begin

text \<open>
  \<open>components/funder/src/handler/handle_control.rs\<close>: the commands of the user, with the
  messages of \<open>proto/src/funder/messages.rs\<close> that carry them. Each command is a
  constructor of \<open>funder_control\<close> whose arguments are the fields of the source's struct.
\<close>

datatype handle_control_error =
    FriendDoesNotExist | NotInvitedToReset | ResetTokenMismatch | NotFirstInRoute
  | PaymentDestNotLastInRoute | InvalidRoute | RequestAlreadyInProgress
  | PendingUserRequestsFull | FriendNotReady | MaxNodeRelaysReached | PaymentAlreadyOpen
  | OpenPaymentNotFound | NewTransactionsNotAllowed | PaymentDoesNotExist | AckStateInvalid
  | AckMismatch | InvoiceAlreadyExists | InvoiceDoesNotExist | InvalidCommit
  | FriendCurrencyDoesNotExist | CanNotRemoveActiveCurrency | CurrencyNotConfigured

record create_payment =
  cp_payment_id :: payment_id
  cp_invoice_id :: invoice_id
  cp_currency :: currency
  cp_total_dest_payment :: u128
  cp_dest_public_key :: public_key

record create_transaction =
  ct_payment_id :: payment_id
  ct_request_id :: uid
  ct_route :: friends_route
  ct_dest_payment :: u128
  ct_fees :: u128

datatype 'b funder_control =
    ControlAddRelay "'b named_relay_address"
  | ControlRemoveRelay public_key
  | ControlAddFriend "'b add_friend"
  | ControlRemoveFriend public_key
  | ControlSetFriendStatus public_key friend_status
  | ControlSetFriendCurrencyMaxDebt public_key currency u128
  | ControlSetFriendRelays public_key "'b relay_address list"
  | ControlSetFriendName public_key string
  | ControlSetFriendCurrencyRate public_key currency rate
  | ControlSetFriendCurrencyRequestsStatus public_key currency requests_status
  | ControlRemoveFriendCurrency public_key currency
  | ControlResetFriendChannel public_key signature
  | ControlCreatePayment create_payment
  | ControlCreateTransaction create_transaction
  | ControlRequestClosePayment payment_id
  | ControlAckClosePayment payment_id uid
  | ControlAddInvoice invoice_id currency u128
  | ControlCancelInvoice invoice_id
  | ControlCommitInvoice commit

type_synonym 'b control_result = "(handle_control_error, 'b hstate) result"

section \<open>Friends\<close>

definition control_set_friend_currency_max_debt ::
  "'b env \<Rightarrow> public_key \<Rightarrow> currency \<Rightarrow> u128 \<Rightarrow> 'b hstate \<Rightarrow> 'b control_result"
where
  "control_set_friend_currency_max_debt env pk currency remote_max_debt h =
     and_then (ok_or (hm_get (fs_friends (h_state h)) pk) FriendDoesNotExist) (\<lambda>friend.
     let update = (\<lambda>config.
           and_then (h_mutate_friend env pk (UpdateCurrencyConfig currency
             (config \<lparr> cfg_remote_max_debt := remote_max_debt \<rparr>)) h) (\<lambda>h.
           Ok (h_command (set_try_send pk) h)))
     in case hm_get (fr_currency_configs friend) currency of
          Some currency_config \<Rightarrow>
            if cfg_remote_max_debt currency_config = remote_max_debt then Ok h
            else update currency_config
        | None \<Rightarrow> update currency_config_new)"

definition control_reset_friend_channel ::
  "public_key \<Rightarrow> signature \<Rightarrow> 'b hstate \<Rightarrow> 'b control_result"
where
  "control_reset_friend_channel pk reset_token h =
     and_then (ok_or (hm_get (fs_friends (h_state h)) pk) FriendDoesNotExist) (\<lambda>friend.
     and_then (case fr_channel_status friend of
         Consistent _ \<Rightarrow> Err NotInvitedToReset
       | Inconsistent channel_inconsistent \<Rightarrow>
           (case chi_opt_remote_reset_terms channel_inconsistent of
              None \<Rightarrow> Err NotInvitedToReset
            | Some remote_reset_terms \<Rightarrow>
                if rt_reset_token remote_reset_terms \<noteq> reset_token then Err ResetTokenMismatch
                else Ok ())) (\<lambda>_.
     Ok (h_command (set_local_reset pk) h)))"

definition enable_friend ::
  "public_key \<Rightarrow> 'b relay_address list \<Rightarrow> 'b hstate \<Rightarrow> ('e, 'b hstate) result"
where
  "enable_friend pk friend_relays h =
     and_then (unwrap (hm_get (fs_friends (h_state h)) pk)) (\<lambda>friend.
     Ok (h_config (ConfigUpdateFriend
       \<lparr> cuf_friend_public_key = pk, cuf_friend_relays = friend_relays,
         cuf_local_relays = sent_local_relays_to_vec (fr_sent_local_relays friend) \<rparr>) h))"

definition disable_friend :: "'b env \<Rightarrow> public_key \<Rightarrow> 'b hstate \<Rightarrow> ('e, 'b hstate) result" where
  "disable_friend env pk h =
     and_then (cancel_pending_requests env pk All h) (\<lambda>h.
     Ok (h_config (ConfigRemoveFriend pk) h))"

text \<open>The channeler learns the new relays, and all friends may have to.\<close>

definition announce_relays :: "'b hstate \<Rightarrow> 'b hstate" where
  "announce_relays h =
     fold (\<lambda>pk. h_command (set_try_send pk)) (hm_keys (fs_friends (h_state h)))
       (h_config (ConfigSetRelays (map relay_address_from (fs_relays (h_state h)))) h)"

definition control_add_relay ::
  "'b env \<Rightarrow> nat \<Rightarrow> 'b named_relay_address \<Rightarrow> 'b hstate \<Rightarrow> 'b control_result"
where
  "control_add_relay env max_node_relays named_relay_address h =
     (if length (fs_relays (h_state h)) \<ge> max_node_relays then Err MaxNodeRelaysReached
      else and_then (h_mutate env (AddRelay named_relay_address) h) (\<lambda>h. Ok (announce_relays h)))"

definition control_remove_relay :: "'b env \<Rightarrow> public_key \<Rightarrow> 'b hstate \<Rightarrow> 'b control_result" where
  "control_remove_relay env public_key h =
     and_then (h_mutate env (RemoveRelay public_key) h) (\<lambda>h. Ok (announce_relays h))"

definition control_add_friend :: "'b env \<Rightarrow> 'b add_friend \<Rightarrow> 'b hstate \<Rightarrow> 'b control_result" where
  "control_add_friend env add_friend h =
     (if \<not> hm_contains (fs_friends (h_state h)) (af_friend_public_key add_friend)
      then h_mutate env (AddFriend add_friend) h else Ok h)"

definition control_remove_friend :: "'b env \<Rightarrow> public_key \<Rightarrow> 'b hstate \<Rightarrow> 'b control_result" where
  "control_remove_friend env pk h =
     and_then (ok_or (hm_get (fs_friends (h_state h)) pk) FriendDoesNotExist) (\<lambda>_.
     and_then (disable_friend env pk h) (\<lambda>h.
     and_then (cancel_local_pending_transactions env pk h) (\<lambda>h.
     h_mutate env (RemoveFriend pk) h)))"

definition control_set_friend_status ::
  "'b env \<Rightarrow> public_key \<Rightarrow> friend_status \<Rightarrow> 'b hstate \<Rightarrow> 'b control_result"
where
  "control_set_friend_status env pk status h =
     and_then (ok_or (hm_get (fs_friends (h_state h)) pk) FriendDoesNotExist) (\<lambda>_.
     and_then (h_mutate_friend env pk (SetStatus status) h) (\<lambda>h.
     and_then (ok_or (hm_get (fs_friends (h_state h)) pk) FriendDoesNotExist) (\<lambda>friend.
     case status of
       Enabled \<Rightarrow> enable_friend pk (fr_remote_relays friend) h
     | Disabled \<Rightarrow> disable_friend env pk h)))"

definition control_set_friend_currency_requests_status ::
  "'b env \<Rightarrow> public_key \<Rightarrow> currency \<Rightarrow> requests_status \<Rightarrow> 'b hstate \<Rightarrow> 'b control_result"
where
  "control_set_friend_currency_requests_status env pk currency status h =
     and_then (ok_or (hm_get (fs_friends (h_state h)) pk) FriendDoesNotExist) (\<lambda>friend.
     let update = (\<lambda>config.
           and_then (if \<not> requests_status_is_open status
                     then cancel_nonuser_pending_requests env pk (One currency) h else Ok h) (\<lambda>h.
           and_then (h_mutate_friend env pk (UpdateCurrencyConfig currency
             (config \<lparr> cfg_is_open := requests_status_is_open status \<rparr>)) h) (\<lambda>h.
           Ok (h_command (set_try_send pk) h))))
     in case hm_get (fr_currency_configs friend) currency of
          Some currency_config \<Rightarrow>
            if cfg_is_open currency_config = requests_status_is_open status then Ok h
            else update currency_config
        | None \<Rightarrow> update currency_config_new)"

definition control_set_friend_relays ::
  "'b env \<Rightarrow> public_key \<Rightarrow> 'b relay_address list \<Rightarrow> 'b hstate \<Rightarrow> 'b control_result"
where
  "control_set_friend_relays env pk relays h =
     and_then (ok_or (hm_get (fs_friends (h_state h)) pk) FriendDoesNotExist) (\<lambda>friend.
     if relays = fr_remote_relays friend then Ok h
     else and_then (h_mutate_friend env pk (SetRemoteRelays relays) h) (\<lambda>h.
       case fr_status friend of
         Enabled \<Rightarrow> Ok (h_config (ConfigUpdateFriend
           \<lparr> cuf_friend_public_key = pk, cuf_friend_relays = relays,
             cuf_local_relays = sent_local_relays_to_vec (fr_sent_local_relays friend) \<rparr>) h)
       | Disabled \<Rightarrow> Ok h))"

definition control_set_friend_name ::
  "'b env \<Rightarrow> public_key \<Rightarrow> string \<Rightarrow> 'b hstate \<Rightarrow> 'b control_result"
where
  "control_set_friend_name env pk name h =
     and_then (ok_or (hm_get (fs_friends (h_state h)) pk) FriendDoesNotExist) (\<lambda>friend.
     if fr_name friend = name then Ok h else h_mutate_friend env pk (SetName name) h)"

definition control_set_friend_currency_rate ::
  "'b env \<Rightarrow> public_key \<Rightarrow> currency \<Rightarrow> rate \<Rightarrow> 'b hstate \<Rightarrow> 'b control_result"
where
  "control_set_friend_currency_rate env pk currency rate h =
     and_then (ok_or (hm_get (fs_friends (h_state h)) pk) FriendDoesNotExist) (\<lambda>friend.
     let update = (\<lambda>config. h_mutate_friend env pk (UpdateCurrencyConfig currency
           (config \<lparr> cfg_rate := rate \<rparr>)))
     in case hm_get (fr_currency_configs friend) currency of
          Some currency_config \<Rightarrow>
            if cfg_rate currency_config = rate then Ok h else update currency_config h
        | None \<Rightarrow> update currency_config_new (h_command (set_try_send pk) h))"

definition control_remove_friend_currency ::
  "'b env \<Rightarrow> public_key \<Rightarrow> currency \<Rightarrow> 'b hstate \<Rightarrow> 'b control_result"
where
  "control_remove_friend_currency env pk currency h =
     and_then (ok_or (hm_get (fs_friends (h_state h)) pk) FriendDoesNotExist) (\<lambda>friend.
     and_then (fail_if (\<not> hm_contains (fr_currency_configs friend) currency) CurrencyNotConfigured) (\<lambda>_.
     and_then (case fr_channel_status friend of
         Consistent ch \<Rightarrow>
           fail_if (currency \<in> set (calc_active (tc_active_currencies (ch_token_channel ch))))
             CanNotRemoveActiveCurrency
       | Inconsistent _ \<Rightarrow> Ok ()) (\<lambda>_.
     and_then (h_mutate_friend env pk (RemoveCurrencyConfig currency) h) (\<lambda>h.
     Ok (h_command (set_try_send pk) h)))))"

section \<open>The buyer\<close>

definition control_create_payment ::
  "'b env \<Rightarrow> create_payment \<Rightarrow> 'b hstate \<Rightarrow> 'b control_result"
where
  "control_create_payment env cp h =
     (if hm_contains (fs_payments (h_state h)) (cp_payment_id cp) then Err PaymentAlreadyOpen
      else (let stage = NewTransactions
                  \<lparr> nt_num_transactions = 0, nt_invoice_id = cp_invoice_id cp,
                    nt_currency = cp_currency cp, nt_total_dest_payment = cp_total_dest_payment cp,
                    nt_dest_public_key = cp_dest_public_key cp \<rparr>;
                (src_plain_lock, h) = h_rand h
            in h_mutate env (UpdatePayment (cp_payment_id cp)
                 \<lparr> pay_src_plain_lock = src_plain_lock, pay_stage = stage \<rparr>) h))"

text \<open>The checks of a new transaction, up to the consistent channel it is sent through.\<close>

definition check_new_transaction ::
  "nat \<Rightarrow> create_transaction \<Rightarrow> 'b hstate \<Rightarrow>
   (handle_control_error, payment \<times> new_transactions \<times> public_key) result"
where
  "check_new_transaction max_pending_user_requests ct h =
     and_then (ok_or (hm_get (fs_payments (h_state h)) (ct_payment_id ct)) OpenPaymentNotFound)
       (\<lambda>payment.
     and_then (case pay_stage payment of
         NewTransactions new_transactions \<Rightarrow> Ok new_transactions
       | _ \<Rightarrow> Err NewTransactionsNotAllowed) (\<lambda>new_transactions.
     let route = ct_route ct in
     and_then (fail_if (route = [] \<or> hd route \<noteq> fs_local_public_key (h_state h)) NotFirstInRoute) (\<lambda>_.
     and_then (fail_if (route = [] \<or> last route \<noteq> nt_dest_public_key new_transactions)
       PaymentDestNotLastInRoute) (\<lambda>_.
     and_then (fail_if (\<not> is_route_valid route) InvalidRoute) (\<lambda>_.
     and_then (unwrap (index_to_pk route 1)) (\<lambda>friend_public_key.
     and_then (ok_or (hm_get (fs_friends (h_state h)) friend_public_key) FriendDoesNotExist) (\<lambda>friend.
     let currency = nt_currency new_transactions in
     and_then (is_friend_ready (h_state h) (h_ephemeral h) friend_public_key currency) (\<lambda>ready.
     and_then (fail_if (\<not> ready) FriendNotReady) (\<lambda>_.
     case fr_channel_status friend of
       Inconsistent _ \<Rightarrow> Panic
     | Consistent ch \<Rightarrow>
         and_then (fail_if (list_ex (\<lambda>(currency0, user_request).
             currency0 = currency \<and> ct_request_id ct = rq_request_id user_request)
             (ch_pending_user_requests ch)) RequestAlreadyInProgress) (\<lambda>_.
         and_then (ok_or (hm_get (tc_mutual_credits (ch_token_channel ch)) currency)
           FriendCurrencyDoesNotExist) (\<lambda>mutual_credit.
         and_then (fail_if (hm_contains (mc_local mutual_credit) (ct_request_id ct))
           RequestAlreadyInProgress) (\<lambda>_.
         and_then (fail_if (length (ch_pending_user_requests ch) \<ge> max_pending_user_requests)
           PendingUserRequestsFull) (\<lambda>_.
         Ok (payment, new_transactions, friend_public_key))))))))))))))"

definition control_create_transaction_inner ::
  "'b env \<Rightarrow> nat \<Rightarrow> create_transaction \<Rightarrow> 'b hstate \<Rightarrow> 'b control_result"
where
  "control_create_transaction_inner env max_pending_user_requests ct h =
     and_then (check_new_transaction max_pending_user_requests ct h)
       (\<lambda>(payment, new_transactions, friend_public_key).
     and_then (h_mutate env (AddTransaction (ct_request_id ct) (ct_payment_id ct)) h) (\<lambda>h.
     and_then (unwrap (u_checked_add (nt_num_transactions new_transactions) 1)) (\<lambda>num_transactions.
     and_then (h_mutate env (UpdatePayment (ct_payment_id ct)
       \<lparr> pay_src_plain_lock = pay_src_plain_lock payment,
         pay_stage = NewTransactions
           (new_transactions \<lparr> nt_num_transactions := num_transactions \<rparr>) \<rparr>) h) (\<lambda>h.
     let request_send_funds =
           \<lparr> rq_request_id = ct_request_id ct,
             rq_src_hashed_lock = hash_lock env (pay_src_plain_lock payment),
             rq_route = drop 2 (ct_route ct),
             rq_dest_payment = ct_dest_payment ct,
             rq_total_dest_payment = nt_total_dest_payment new_transactions,
             rq_invoice_id = nt_invoice_id new_transactions,
             rq_left_fees = ct_fees ct \<rparr>
     in and_then (h_mutate_friend env friend_public_key
          (PushBackPendingUserRequest (nt_currency new_transactions) request_send_funds) h) (\<lambda>h.
        Ok (h_command (set_try_send friend_public_key) h))))))"

text \<open>The result of a transaction that has got its response.\<close>

definition transaction_result_of_response ::
  "'b env \<Rightarrow> currency \<Rightarrow> response_send_funds_op \<Rightarrow> pending_transaction \<Rightarrow> plain_lock \<Rightarrow>
   ('e, transaction_result) result"
where
  "transaction_result_of_response env currency response pending_transaction src_plain_lock =
     (if rs_is_complete response
      then and_then (prepare_commit env currency response pending_transaction src_plain_lock) (\<lambda>commit.
        Ok \<lparr> tr_request_id = rs_request_id response, tr_result = ResultComplete commit \<rparr>)
      else Ok \<lparr> tr_request_id = rs_request_id response, tr_result = ResultSuccess \<rparr>)"

definition control_create_transaction ::
  "'b env \<Rightarrow> nat \<Rightarrow> create_transaction \<Rightarrow> 'b hstate \<Rightarrow> 'b control_result"
where
  "control_create_transaction env max_pending_user_requests ct h =
     and_then (ok_or (hm_get (fs_payments (h_state h)) (ct_payment_id ct)) OpenPaymentNotFound)
       (\<lambda>payment.
     and_then (case pay_stage payment of
         NewTransactions new_transactions \<Rightarrow> Ok new_transactions
       | _ \<Rightarrow> Err NewTransactionsNotAllowed) (\<lambda>new_transactions.
     case hm_get (fs_open_transactions (h_state h)) (ct_request_id ct) of
       Some open_transaction \<Rightarrow>
         (case (ot_opt_response open_transaction, find_local_pending_transaction (h_state h)
             (nt_currency new_transactions) (ct_request_id ct)) of
            (Some response, Some pending_transaction) \<Rightarrow>
              and_then (transaction_result_of_response env (nt_currency new_transactions) response
                pending_transaction (pay_src_plain_lock payment)) (\<lambda>result.
              Ok (h_control (TransactionResult result) h))
          | _ \<Rightarrow> Ok h)
     | None \<Rightarrow>
         (case control_create_transaction_inner env max_pending_user_requests ct h of
            Ok h' \<Rightarrow> Ok h'
          | Err _ \<Rightarrow> Ok (h_control (TransactionResult
              \<lparr> tr_request_id = ct_request_id ct, tr_result = ResultFailure \<rparr>) h)
          | Panic \<Rightarrow> Panic)))"

definition close_payment_stage ::
  "payment_stage \<Rightarrow> 'b hstate \<Rightarrow> ('e, (payment_stage \<times> payment_status option) \<times> 'b hstate) result"
where
  "close_payment_stage stage h =
     (case stage of
        NewTransactions new_transactions \<Rightarrow>
          if nt_num_transactions new_transactions > 0
          then Ok ((InProgress (nt_num_transactions new_transactions), None), h)
          else (let (ack_uid, h) = h_rand h in
                Ok ((Canceled ack_uid, Some (StatusCanceled ack_uid)), h))
      | InProgress num_transactions \<Rightarrow>
          and_then (assert_that (num_transactions > 0)) (\<lambda>_.
          Ok ((InProgress num_transactions, None), h))
      | Success num_transactions receipt ack_uid \<Rightarrow>
          Ok ((Success num_transactions receipt ack_uid,
               Some (StatusSuccess \<lparr> pss_receipt = receipt, pss_ack_uid = ack_uid \<rparr>)), h)
      | Canceled ack_uid \<Rightarrow> Ok ((Canceled ack_uid, Some (StatusCanceled ack_uid)), h)
      | AfterSuccessAck num_transactions \<Rightarrow>
          Ok ((AfterSuccessAck num_transactions, Some PaymentNotFound), h))"

definition control_request_close_payment ::
  "'b env \<Rightarrow> payment_id \<Rightarrow> 'b hstate \<Rightarrow> 'b control_result"
where
  "control_request_close_payment env payment_id h =
     (case hm_get (fs_payments (h_state h)) payment_id of
        None \<Rightarrow> Ok (h_control (ResponseClosePayment
          \<lparr> rcp_payment_id = payment_id, rcp_status = PaymentNotFound \<rparr>) h)
      | Some payment \<Rightarrow>
          and_then (close_payment_stage (pay_stage payment) h) (\<lambda>((new_stage, opt_status), h).
          let h = (case opt_status of
                     Some payment_status \<Rightarrow> h_control (ResponseClosePayment
                       \<lparr> rcp_payment_id = payment_id, rcp_status = payment_status \<rparr>) h
                   | None \<Rightarrow> h)
          in if new_stage = pay_stage payment then Ok h
             else h_mutate env (UpdatePayment payment_id
               \<lparr> pay_src_plain_lock = pay_src_plain_lock payment, pay_stage = new_stage \<rparr>) h))"

definition control_ack_close_payment ::
  "'b env \<Rightarrow> payment_id \<Rightarrow> uid \<Rightarrow> 'b hstate \<Rightarrow> 'b control_result"
where
  "control_ack_close_payment env payment_id ack h =
     and_then (ok_or (hm_get (fs_payments (h_state h)) payment_id) PaymentDoesNotExist) (\<lambda>payment.
     case pay_stage payment of
       NewTransactions _ \<Rightarrow> Err AckStateInvalid
     | InProgress _ \<Rightarrow> Err AckStateInvalid
     | AfterSuccessAck _ \<Rightarrow> Err AckStateInvalid
     | Success num_transactions _ ack_uid \<Rightarrow>
         if ack \<noteq> ack_uid then Err AckMismatch
         else if num_transactions > 0
         then h_mutate env (UpdatePayment payment_id
           \<lparr> pay_src_plain_lock = pay_src_plain_lock payment,
             pay_stage = AfterSuccessAck num_transactions \<rparr>) h
         else h_mutate env (RemovePayment payment_id) h
     | Canceled ack_uid \<Rightarrow>
         if ack \<noteq> ack_uid then Err AckMismatch else h_mutate env (RemovePayment payment_id) h)"

section \<open>The seller\<close>

definition control_add_invoice ::
  "'b env \<Rightarrow> invoice_id \<Rightarrow> currency \<Rightarrow> u128 \<Rightarrow> 'b hstate \<Rightarrow> 'b control_result"
where
  "control_add_invoice env invoice_id currency total_dest_payment h =
     (if hm_contains (fs_open_invoices (h_state h)) invoice_id then Err InvoiceAlreadyExists
      else (let (dest_plain_lock, h) = h_rand h in
            h_mutate env (AddInvoice invoice_id currency total_dest_payment dest_plain_lock) h))"

definition control_cancel_invoice :: "'b env \<Rightarrow> invoice_id \<Rightarrow> 'b hstate \<Rightarrow> 'b control_result" where
  "control_cancel_invoice env invoice_id h =
     and_then (ok_or (hm_get (fs_open_invoices (h_state h)) invoice_id) InvoiceDoesNotExist)
       (\<lambda>open_invoice.
     and_then (fold_r (\<lambda>request_id h.
         and_then (unwrap (find_request_origin (h_state h) (inv_currency open_invoice) request_id))
           (\<lambda>friend_public_key.
         reply_with_cancel env friend_public_key (inv_currency open_invoice) request_id h))
       (inv_incoming_transactions open_invoice) h) (\<lambda>h.
     h_mutate env (RemoveInvoice invoice_id) h))"

text \<open>One collect message of a committed invoice; a request without origin is only logged.\<close>

definition collect_incoming_transaction ::
  "'b env \<Rightarrow> open_invoice \<Rightarrow> plain_lock \<Rightarrow> uid \<Rightarrow> 'b hstate \<Rightarrow> ('e, 'b hstate) result"
where
  "collect_incoming_transaction env open_invoice src_plain_lock request_id h =
     (case find_request_origin (h_state h) (inv_currency open_invoice) request_id of
        None \<Rightarrow> Ok h
      | Some friend_public_key \<Rightarrow>
          and_then (h_mutate_friend env friend_public_key
            (PushBackPendingBackwardsOp (inv_currency open_invoice) (BackCollect
              \<lparr> co_request_id = request_id, co_src_plain_lock = src_plain_lock,
                co_dest_plain_lock = inv_dest_plain_lock open_invoice \<rparr>)) h) (\<lambda>h.
          Ok (h_command (set_try_send friend_public_key) h)))"

definition control_commit_invoice :: "'b env \<Rightarrow> commit \<Rightarrow> 'b hstate \<Rightarrow> 'b control_result" where
  "control_commit_invoice env commit h =
     and_then (ok_or (hm_get (fs_open_invoices (h_state h)) (cm_invoice_id commit))
       InvoiceDoesNotExist) (\<lambda>open_invoice.
     and_then (fail_if (\<not> verify_commit env commit (fs_local_public_key (h_state h)))
       InvalidCommit) (\<lambda>_.
     and_then (fail_if (Some (hash_lock env (cm_src_plain_lock commit)) \<noteq>
         inv_opt_src_hashed_lock open_invoice) InvalidCommit) (\<lambda>_.
     and_then (fold_r (collect_incoming_transaction env open_invoice (cm_src_plain_lock commit))
       (inv_incoming_transactions open_invoice) h) (\<lambda>h.
     h_mutate env (RemoveInvoice (cm_invoice_id commit)) h))))"

section \<open>Dispatch\<close>

fun handle_control_message ::
  "'b env \<Rightarrow> nat \<Rightarrow> nat \<Rightarrow> 'b funder_control \<Rightarrow> 'b hstate \<Rightarrow> 'b control_result"
where
  "handle_control_message env max_node_relays max_pending_user_requests
     (ControlSetFriendCurrencyMaxDebt pk currency remote_max_debt) h =
     control_set_friend_currency_max_debt env pk currency remote_max_debt h"
| "handle_control_message env max_node_relays max_pending_user_requests
     (ControlResetFriendChannel pk reset_token) h = control_reset_friend_channel pk reset_token h"
| "handle_control_message env max_node_relays max_pending_user_requests (ControlAddRelay relay) h =
     control_add_relay env max_node_relays relay h"
| "handle_control_message env max_node_relays max_pending_user_requests (ControlRemoveRelay pk) h =
     control_remove_relay env pk h"
| "handle_control_message env max_node_relays max_pending_user_requests (ControlAddFriend add_friend) h =
     control_add_friend env add_friend h"
| "handle_control_message env max_node_relays max_pending_user_requests (ControlRemoveFriend pk) h =
     control_remove_friend env pk h"
| "handle_control_message env max_node_relays max_pending_user_requests
     (ControlSetFriendStatus pk status) h = control_set_friend_status env pk status h"
| "handle_control_message env max_node_relays max_pending_user_requests
     (ControlSetFriendCurrencyRequestsStatus pk currency requests_status) h =
     control_set_friend_currency_requests_status env pk currency requests_status h"
| "handle_control_message env max_node_relays max_pending_user_requests
     (ControlSetFriendRelays pk relays) h = control_set_friend_relays env pk relays h"
| "handle_control_message env max_node_relays max_pending_user_requests
     (ControlSetFriendName pk name) h = control_set_friend_name env pk name h"
| "handle_control_message env max_node_relays max_pending_user_requests
     (ControlSetFriendCurrencyRate pk currency rate) h =
     control_set_friend_currency_rate env pk currency rate h"
| "handle_control_message env max_node_relays max_pending_user_requests
     (ControlRemoveFriendCurrency pk currency) h = control_remove_friend_currency env pk currency h"
| "handle_control_message env max_node_relays max_pending_user_requests
     (ControlCreatePayment create_payment) h = control_create_payment env create_payment h"
| "handle_control_message env max_node_relays max_pending_user_requests
     (ControlCreateTransaction create_transaction) h =
     control_create_transaction env max_pending_user_requests create_transaction h"
| "handle_control_message env max_node_relays max_pending_user_requests
     (ControlRequestClosePayment payment_id) h = control_request_close_payment env payment_id h"
| "handle_control_message env max_node_relays max_pending_user_requests
     (ControlAckClosePayment payment_id ack_uid) h =
     control_ack_close_payment env payment_id ack_uid h"
| "handle_control_message env max_node_relays max_pending_user_requests
     (ControlAddInvoice invoice_id currency total_dest_payment) h =
     control_add_invoice env invoice_id currency total_dest_payment h"
| "handle_control_message env max_node_relays max_pending_user_requests
     (ControlCancelInvoice invoice_id) h = control_cancel_invoice env invoice_id h"
| "handle_control_message env max_node_relays max_pending_user_requests
     (ControlCommitInvoice commit) h = control_commit_invoice env commit h"

end
