(* ===== verification/Handle_Friend.thy ===== *)
theory Handle_Friend
  imports Handle_Control
begin

text \<open>
  \<open>components/funder/src/handler/handle_friend.rs\<close>: the messages that arrive from friends.
  An accepted move token message is applied to the channel, and each operation in it is passed
  on: a request to the next node of its route or to the invoice that it pays, a response,
  cancellation or collect message to the node it came from or to the payment it belongs to.
\<close>

datatype handle_friend_error = HF_FriendDoesNotExist | InconsistencyWhenTokenOwned

section \<open>Resetting a channel\<close>

definition gen_channel_reset_token :: "'b hstate \<Rightarrow> signature \<times> 'b hstate" where
  "gen_channel_reset_token h = h_rand h"

text \<open>The balances for the reset, in the order of the currencies.\<close>

fun balances_for_reset ::
  "(currency \<times> mutual_credit) list \<Rightarrow> ('e, currency_balance list) result"
where
  "balances_for_reset [] = Ok []"
| "balances_for_reset ((currency, mutual_credit) # mutual_credits) =
     and_then (balance_for_reset mutual_credit) (\<lambda>balance.
     and_then (balances_for_reset mutual_credits) (\<lambda>rest.
     Ok (\<lparr> cb_currency = currency, cb_balance = balance \<rparr> # rest)))"

definition gen_reset_terms ::
  "'b token_channel \<Rightarrow> 'b hstate \<Rightarrow> ('e, reset_terms \<times> 'b hstate) result"
where
  "gen_reset_terms token_channel h =
     (let (reset_token, h) = gen_channel_reset_token h in
      and_then (balances_for_reset (sort_key fst (tc_mutual_credits token_channel)))
        (\<lambda>balance_for_reset.
      Ok (\<lparr> rt_reset_token = reset_token,
            rt_inconsistency_counter = get_inconsistency_counter token_channel + 1,
            rt_balance_for_reset = balance_for_reset \<rparr>, h)))"

text \<open>
  The balances of reset terms as the other side states them; \<open>checked_neg\<close> is unwrapped. The
  sender builds the same list from the terms of the remote side.
\<close>

fun flip_reset_balances :: "currency_balance list \<Rightarrow> ('e, currency_balance_info list) result" where
  "flip_reset_balances [] = Ok []"
| "flip_reset_balances (cb # cbs) =
     and_then (unwrap (i_checked_neg (cb_balance cb))) (\<lambda>balance.
     and_then (flip_reset_balances cbs) (\<lambda>rest.
     Ok (\<lparr> cbi_currency = cb_currency cb,
           cbi_balance_info = \<lparr> bi_balance = balance, bi_local_pending_debt = 0,
             bi_remote_pending_debt = 0 \<rparr> \<rparr> # rest)))"

text \<open>Currencies of the reset that have no configuration get an empty one.\<close>

definition add_missing_configs ::
  "'b env \<Rightarrow> public_key \<Rightarrow> currency_balance list \<Rightarrow> 'b hstate \<Rightarrow> ('e, 'b hstate) result"
where
  "add_missing_configs env pk balances h =
     and_then (unwrap (hm_get (fs_friends (h_state h)) pk)) (\<lambda>friend.
     fold_r (\<lambda>currency_balance h.
       if \<not> hm_contains (fr_currency_configs friend) (cb_currency currency_balance)
       then h_mutate_friend env pk
         (UpdateCurrencyConfig (cb_currency currency_balance) currency_config_new) h
       else Ok h) balances h)"

definition set_remote_relays_if_new ::
  "'b env \<Rightarrow> public_key \<Rightarrow> 'b relay_address list option \<Rightarrow> 'b hstate \<Rightarrow> ('e, 'b hstate) result"
where
  "set_remote_relays_if_new env pk opt_relays h =
     (case opt_relays of
        None \<Rightarrow> Ok h
      | Some remote_relays \<Rightarrow>
          and_then (unwrap (hm_get (fs_friends (h_state h)) pk)) (\<lambda>friend.
          if fr_remote_relays friend \<noteq> remote_relays
          then h_mutate_friend env pk (SetRemoteRelays remote_relays) h else Ok h))"

definition try_reset_channel ::
  "'b env \<Rightarrow> public_key \<Rightarrow> reset_terms \<Rightarrow> 'b move_token_request \<Rightarrow> 'b hstate \<Rightarrow>
   ('e, 'b hstate) result"
where
  "try_reset_channel env friend_public_key local_reset_terms move_token_request h =
     (let move_token = mtr_move_token move_token_request in
      and_then (flip_reset_balances (rt_balance_for_reset local_reset_terms)) (\<lambda>balances_for_reset.
      let remote_token_info =
            \<lparr> ti_mc = \<lparr> mi_local_public_key = friend_public_key,
                mi_remote_public_key = fs_local_public_key (h_state h),
                mi_balances = balances_for_reset \<rparr>,
              ti_counters =
                \<lparr> ci_inconsistency_counter = rt_inconsistency_counter local_reset_terms,
                  ci_move_token_counter = 0 \<rparr> \<rparr>
      in if mt_old_token move_token \<noteq> rt_reset_token local_reset_terms \<or>
            mt_currencies_operations move_token \<noteq> [] \<or>
            hash_token_info env remote_token_info \<noteq> mt_info_hash move_token \<or>
            \<not> verify_move_token env move_token friend_public_key
         then Ok (h_command (set_resend_outgoing friend_public_key) h)
         else
           and_then (new_from_remote_reset env move_token remote_token_info) (\<lambda>token_channel.
           and_then (h_mutate_friend env friend_public_key (SetConsistent token_channel) h) (\<lambda>h.
           and_then (add_missing_configs env friend_public_key
             (rt_balance_for_reset local_reset_terms) h) (\<lambda>h.
           and_then (set_remote_relays_if_new env friend_public_key
             (mt_opt_local_relays move_token) h) (\<lambda>h.
           let h = h_command (set_try_send friend_public_key)
                     (h_command (set_resend_relays friend_public_key) h)
           in Ok (if mtr_token_wanted move_token_request
                  then h_command (set_remote_wants_token friend_public_key) h else h)))))))"

section \<open>Requests\<close>

definition forward_request ::
  "'b env \<Rightarrow> currency \<Rightarrow> request_send_funds_op \<Rightarrow> public_key \<Rightarrow> 'b hstate \<Rightarrow> ('e, 'b hstate) result"
where
  "forward_request env currency request next_pk h =
     and_then (h_mutate_friend env next_pk (PushBackPendingRequest currency request) h) (\<lambda>h.
     Ok (h_command (set_try_send next_pk) h))"

datatype check_request = CheckComplete | CheckSuccess | CheckFailure

text \<open>The sum of what the pending transactions of an invoice pay.\<close>

fun total_paid_loop ::
  "'b funder_state \<Rightarrow> open_invoice \<Rightarrow> uid list \<Rightarrow> u128 \<Rightarrow> ('e, u128) result"
where
  "total_paid_loop state open_invoice [] total_paid = Ok total_paid"
| "total_paid_loop state open_invoice (request_id # request_ids) total_paid =
     and_then (unwrap (find_remote_pending_transaction state (inv_currency open_invoice) request_id))
       (\<lambda>pending_transaction.
     and_then (assert_that (pt_total_dest_payment pending_transaction =
       inv_total_dest_payment open_invoice)) (\<lambda>_.
     and_then (unwrap (u_checked_add total_paid (pt_dest_payment pending_transaction)))
       (\<lambda>total_paid'.
     total_paid_loop state open_invoice request_ids total_paid')))"

definition check_request ::
  "'b funder_state \<Rightarrow> request_send_funds_op \<Rightarrow> ('e, check_request) result"
where
  "check_request state request =
     (case hm_get (fs_open_invoices state) (rq_invoice_id request) of
        None \<Rightarrow> Ok CheckFailure
      | Some open_invoice \<Rightarrow>
          if (case inv_opt_src_hashed_lock open_invoice of
                Some src_hashed_lock \<Rightarrow> src_hashed_lock \<noteq> rq_src_hashed_lock request
              | None \<Rightarrow> False) then Ok CheckFailure
          else if inv_total_dest_payment open_invoice \<noteq> rq_total_dest_payment request
          then Ok CheckFailure
          else if rq_dest_payment request > rq_total_dest_payment request then Ok CheckFailure
          else and_then (total_paid_loop state open_invoice
              (inv_incoming_transactions open_invoice) 0) (\<lambda>total_paid.
            case u_checked_add total_paid (rq_dest_payment request) of
              None \<Rightarrow> Ok CheckFailure
            | Some new_total_paid \<Rightarrow>
                (case cmp new_total_paid (inv_total_dest_payment open_invoice) of
                   Less \<Rightarrow> Ok CheckSuccess
                 | Equal \<Rightarrow> Ok CheckComplete
                 | Greater \<Rightarrow> Ok CheckFailure)))"

text \<open>A request that has reached its destination.\<close>

definition handle_request_as_destination ::
  "'b env \<Rightarrow> public_key \<Rightarrow> currency \<Rightarrow> request_send_funds_op \<Rightarrow> 'b hstate \<Rightarrow> ('e, 'b hstate) result"
where
  "handle_request_as_destination env remote_public_key currency request h =
     and_then (check_request (h_state h) request) (\<lambda>check.
     case check of
       CheckFailure \<Rightarrow>
         reply_with_cancel env remote_public_key currency (rq_request_id request) h
     | _ \<Rightarrow>
         and_then (unwrap (hm_get (fs_open_invoices (h_state h)) (rq_invoice_id request)))
           (\<lambda>open_invoice.
         and_then (if inv_opt_src_hashed_lock open_invoice = None
             then h_mutate env (SetInvoiceSrcHashedLock (rq_invoice_id request)
               (rq_src_hashed_lock request)) h
             else Ok h) (\<lambda>h.
         and_then (h_mutate env (AddIncomingTransaction (rq_invoice_id request)
           (rq_request_id request)) h) (\<lambda>h.
         let h = h \<lparr> h_m_state := queue_unsigned_response remote_public_key currency
                   (create_pending_transaction request) (check = CheckComplete) (h_m_state h) \<rparr>
         in Ok (h_command (set_try_send remote_public_key) h)))))"

text \<open>Whether the next node on the route can take a request.\<close>

definition next_friend_ready ::
  "'b funder_state \<Rightarrow> ephemeral \<Rightarrow> public_key \<Rightarrow> currency \<Rightarrow> ('e, bool) result"
where
  "next_friend_ready state e next_public_key currency =
     (case hm_get (fs_friends state) next_public_key of
        None \<Rightarrow> Ok False
      | Some next_friend \<Rightarrow>
          (case hm_get (fr_currency_configs next_friend) currency of
             None \<Rightarrow> Ok False
           | Some currency_config \<Rightarrow>
               if cfg_is_open currency_config then is_friend_ready state e next_public_key currency
               else Ok False))"

text \<open>The request with the fee of this node taken off, if that is possible.\<close>

definition take_fee :: "rate \<Rightarrow> request_send_funds_op \<Rightarrow> request_send_funds_op option" where
  "take_fee rate request =
     (case calc_fee rate (rq_dest_payment request) of
        None \<Rightarrow> None
      | Some local_fee \<Rightarrow>
          (case u_checked_sub (rq_left_fees request) local_fee of
             None \<Rightarrow> None
           | Some new_left_fees \<Rightarrow> Some (request \<lparr> rq_left_fees := new_left_fees \<rparr>)))"

definition handle_request_send_funds ::
  "'b env \<Rightarrow> public_key \<Rightarrow> currency \<Rightarrow> request_send_funds_op \<Rightarrow> 'b hstate \<Rightarrow> ('e, 'b hstate) result"
where
  "handle_request_send_funds env remote_public_key currency request h =
     (if rq_route request = []
      then handle_request_as_destination env remote_public_key currency request h
      else
        and_then (unwrap (hm_get (fs_friends (h_state h)) remote_public_key)) (\<lambda>friend.
        let is_currency_open =
              (case hm_get (fr_currency_configs friend) currency of
                 Some currency_config \<Rightarrow> cfg_is_open currency_config | None \<Rightarrow> False)
        in if \<not> is_currency_open
           then reply_with_cancel env remote_public_key currency (rq_request_id request) h
           else
             and_then (unwrap (index_to_pk (rq_route request) 0)) (\<lambda>next_public_key.
             and_then (next_friend_ready (h_state h) (h_ephemeral h) next_public_key currency)
               (\<lambda>friend_ready.
             and_then (unwrap (hm_get (fr_currency_configs friend) currency)) (\<lambda>config.
             case (take_fee (cfg_rate config) request, friend_ready) of
               (Some request', True) \<Rightarrow>
                 forward_request env currency (request' \<lparr> rq_route := drop 1 (rq_route request') \<rparr>)
                   next_public_key h
             | _ \<Rightarrow> reply_with_cancel env remote_public_key currency (rq_request_id request) h)))))"

definition handle_request_send_funds_cancel ::
  "'b env \<Rightarrow> public_key \<Rightarrow> currency \<Rightarrow> request_send_funds_op \<Rightarrow> 'b hstate \<Rightarrow> ('e, 'b hstate) result"
where
  "handle_request_send_funds_cancel env remote_public_key currency request h =
     reply_with_cancel env remote_public_key currency (rq_request_id request) h"

section \<open>Responses, cancellations and collect messages\<close>

text \<open>A backwards operation is queued for the friend that the request came from.\<close>

definition queue_backwards_op ::
  "'b env \<Rightarrow> public_key \<Rightarrow> currency \<Rightarrow> backwards_op \<Rightarrow> 'b hstate \<Rightarrow> ('e, 'b hstate) result"
where
  "queue_backwards_op env friend_public_key currency backwards_op h =
     and_then (h_mutate_friend env friend_public_key
       (PushBackPendingBackwardsOp currency backwards_op) h) (\<lambda>h.
     Ok (h_command (set_try_send friend_public_key) h))"

definition handle_own_response ::
  "'b env \<Rightarrow> currency \<Rightarrow> response_send_funds_op \<Rightarrow> pending_transaction \<Rightarrow> 'b hstate \<Rightarrow>
   ('e, 'b hstate) result"
where
  "handle_own_response env currency response pending_transaction h =
     and_then (h_mutate env (SetTransactionResponse response) h) (\<lambda>h.
     and_then (unwrap (hm_get (fs_open_transactions (h_state h)) (rs_request_id response)))
       (\<lambda>open_transaction.
     and_then (unwrap (hm_get (fs_payments (h_state h)) (ot_payment_id open_transaction))) (\<lambda>payment.
     and_then (transaction_result_of_response env currency response pending_transaction
       (pay_src_plain_lock payment)) (\<lambda>result.
     Ok (h_control (TransactionResult result) h)))))"

definition handle_response_send_funds ::
  "'b env \<Rightarrow> currency \<Rightarrow> response_send_funds_op \<Rightarrow> pending_transaction \<Rightarrow> 'b hstate \<Rightarrow>
   ('e, 'b hstate) result"
where
  "handle_response_send_funds env currency response pending_transaction h =
     (case find_request_origin (h_state h) currency (rs_request_id response) of
        None \<Rightarrow> handle_own_response env currency response pending_transaction h
      | Some friend_public_key \<Rightarrow>
          queue_backwards_op env friend_public_key currency (BackResponse response) h)"

definition handle_cancel_send_funds ::
  "'b env \<Rightarrow> currency \<Rightarrow> cancel_send_funds_op \<Rightarrow> pending_transaction \<Rightarrow> 'b hstate \<Rightarrow>
   ('e, 'b hstate) result"
where
  "handle_cancel_send_funds env currency cancel pending_transaction h =
     (case find_request_origin (h_state h) currency (cn_request_id cancel) of
        None \<Rightarrow>
          and_then (remove_transaction env (cn_request_id cancel) h) (\<lambda>h.
          Ok (h_control (TransactionResult
            \<lparr> tr_request_id = pt_request_id pending_transaction, tr_result = ResultFailure \<rparr>) h))
      | Some friend_public_key \<Rightarrow>
          queue_backwards_op env friend_public_key currency (BackCancel cancel) h)"

text \<open>A first collect message makes the receipt of the payment.\<close>

definition first_collected ::
  "'b env \<Rightarrow> currency \<Rightarrow> collect_send_funds_op \<Rightarrow> open_transaction \<Rightarrow> pending_transaction \<Rightarrow>
   u64 \<Rightarrow> 'b hstate \<Rightarrow>
   ('e, (payment_stage option \<times> payment_status option) \<times> 'b hstate) result"
where
  "first_collected env currency collect open_transaction pending_transaction num_transactions h =
     and_then (unwrap (ot_opt_response open_transaction)) (\<lambda>response.
     and_then (prepare_receipt env currency collect response pending_transaction) (\<lambda>receipt.
     let (ack_uid, h) = h_rand h in
     and_then (unwrap (u_checked_sub num_transactions 1)) (\<lambda>n.
     Ok ((Some (Success n receipt ack_uid),
          Some (StatusSuccess \<lparr> pss_receipt = receipt, pss_ack_uid = ack_uid \<rparr>)), h))))"

definition stage_collected ::
  "'b env \<Rightarrow> currency \<Rightarrow> collect_send_funds_op \<Rightarrow> open_transaction \<Rightarrow> pending_transaction \<Rightarrow>
   payment_stage \<Rightarrow> 'b hstate \<Rightarrow>
   ('e, (payment_stage option \<times> payment_status option) \<times> 'b hstate) result"
where
  "stage_collected env currency collect open_transaction pending_transaction stage h =
     (case stage of
        NewTransactions new_transactions \<Rightarrow>
          first_collected env currency collect open_transaction pending_transaction
            (nt_num_transactions new_transactions) h
      | InProgress num_transactions \<Rightarrow>
          and_then (assert_that (num_transactions > 0)) (\<lambda>_.
          first_collected env currency collect open_transaction pending_transaction
            num_transactions h)
      | Success num_transactions receipt ack_uid \<Rightarrow>
          and_then (unwrap (u_checked_sub num_transactions 1)) (\<lambda>n.
          Ok ((Some (Success n receipt ack_uid),
               Some (StatusSuccess \<lparr> pss_receipt = receipt, pss_ack_uid = ack_uid \<rparr>)), h))
      | Canceled _ \<Rightarrow> Panic
      | AfterSuccessAck num_transactions \<Rightarrow>
          and_then (unwrap (u_checked_sub num_transactions 1)) (\<lambda>n.
          Ok ((if n > 0 then Some (AfterSuccessAck n) else None, None), h)))"

definition handle_own_collect ::
  "'b env \<Rightarrow> currency \<Rightarrow> collect_send_funds_op \<Rightarrow> pending_transaction \<Rightarrow> 'b hstate \<Rightarrow>
   ('e, 'b hstate) result"
where
  "handle_own_collect env currency collect pending_transaction h =
     and_then (unwrap (hm_get (fs_open_transactions (h_state h)) (co_request_id collect)))
       (\<lambda>open_transaction.
     and_then (unwrap (hm_get (fs_payments (h_state h)) (ot_payment_id open_transaction))) (\<lambda>payment.
     and_then (stage_collected env currency collect open_transaction pending_transaction
       (pay_stage payment) h) (\<lambda>(update, h).
     and_then (update_payment_stage env (ot_payment_id open_transaction)
       (pay_src_plain_lock payment) update h) (\<lambda>h.
     h_mutate env (RemoveTransaction (co_request_id collect)) h))))"

definition handle_collect_send_funds ::
  "'b env \<Rightarrow> currency \<Rightarrow> collect_send_funds_op \<Rightarrow> pending_transaction \<Rightarrow> 'b hstate \<Rightarrow>
   ('e, 'b hstate) result"
where
  "handle_collect_send_funds env currency collect pending_transaction h =
     (case find_request_origin (h_state h) currency (co_request_id collect) of
        None \<Rightarrow> handle_own_collect env currency collect pending_transaction h
      | Some friend_public_key \<Rightarrow>
          queue_backwards_op env friend_public_key currency (BackCollect collect) h)"

section \<open>Move token messages\<close>

fun handle_incoming_message ::
  "'b env \<Rightarrow> public_key \<Rightarrow> currency \<Rightarrow> incoming_message \<Rightarrow> 'b hstate \<Rightarrow> ('e, 'b hstate) result"
where
  "handle_incoming_message env remote_public_key currency (IncomingRequest request) h =
     handle_request_send_funds env remote_public_key currency request h"
| "handle_incoming_message env remote_public_key currency (IncomingRequestCancel request) h =
     handle_request_send_funds_cancel env remote_public_key currency request h"
| "handle_incoming_message env remote_public_key currency (IncomingResponse pending response) h =
     handle_response_send_funds env currency response pending h"
| "handle_incoming_message env remote_public_key currency (IncomingCancel pending cancel) h =
     handle_cancel_send_funds env currency cancel pending h"
| "handle_incoming_message env remote_public_key currency (IncomingCollect pending collect) h =
     handle_collect_send_funds env currency collect pending h"

definition handle_move_token_output ::
  "'b env \<Rightarrow> public_key \<Rightarrow> currency \<Rightarrow> incoming_message list \<Rightarrow> 'b hstate \<Rightarrow> ('e, 'b hstate) result"
where
  "handle_move_token_output env remote_public_key currency =
     fold_r (handle_incoming_message env remote_public_key currency)"

definition handle_move_token_error ::
  "'b env \<Rightarrow> public_key \<Rightarrow> 'b hstate \<Rightarrow> ('e, 'b hstate) result"
where
  "handle_move_token_error env remote_public_key h =
     and_then (unwrap (hm_get (fs_friends (h_state h)) remote_public_key)) (\<lambda>friend.
     case fr_channel_status friend of
       Inconsistent _ \<Rightarrow> Panic
     | Consistent ch \<Rightarrow>
         let opt_last_incoming_move_token =
               get_last_incoming_move_token_hashed (ch_token_channel ch) in
         and_then (gen_reset_terms (ch_token_channel ch) h) (\<lambda>(local_reset_terms, h).
         and_then (cancel_local_pending_transactions env remote_public_key h) (\<lambda>h.
         and_then (cancel_pending_requests env remote_public_key All h) (\<lambda>h.
         and_then (h_mutate_friend env remote_public_key (SetInconsistent
           \<lparr> chi_opt_last_incoming_move_token = opt_last_incoming_move_token,
             chi_local_reset_terms = local_reset_terms, chi_opt_remote_reset_terms = None \<rparr>) h) (\<lambda>h.
         Ok (h_command (set_try_send remote_public_key) h))))))"

text \<open>A message from the remote side proves that it knows the relays sent last.\<close>

definition clear_relays_transition ::
  "'b env \<Rightarrow> public_key \<Rightarrow> 'b hstate \<Rightarrow> ('e, 'b hstate) result"
where
  "clear_relays_transition env remote_public_key h =
     and_then (unwrap (hm_get (fs_friends (h_state h)) remote_public_key)) (\<lambda>friend.
     case fr_sent_local_relays friend of
       Transition last_address _ \<Rightarrow>
         and_then (h_mutate_friend env remote_public_key
           (SetSentLocalRelays (LastSent last_address)) h) (\<lambda>h.
         and_then (unwrap (hm_get (fs_friends (h_state h)) remote_public_key)) (\<lambda>friend.
         Ok (h_config (ConfigUpdateFriend
           \<lparr> cuf_friend_public_key = remote_public_key,
             cuf_friend_relays = fr_remote_relays friend,
             cuf_local_relays = map relay_address_from last_address \<rparr>) h)))
     | _ \<Rightarrow> Ok h)"

definition handle_move_token_success ::
  "'b env \<Rightarrow> public_key \<Rightarrow> 'b receive_move_token_output \<Rightarrow> bool \<Rightarrow> 'b hstate \<Rightarrow>
   ('e, 'b hstate) result"
where
  "handle_move_token_success env remote_public_key output token_wanted h =
     (let wants = (\<lambda>h. if token_wanted
            then h_command (set_remote_wants_token remote_public_key) h else h)
      in case output of
           Duplicate \<Rightarrow> Ok (wants h)
         | RetransmitOutgoing _ \<Rightarrow> Ok (h_command (set_resend_outgoing remote_public_key) h)
         | Received received \<Rightarrow>
             let h = h_command (set_try_send remote_public_key) h in
             and_then (set_remote_relays_if_new env remote_public_key
               (mtrv_opt_local_relays received) h) (\<lambda>h.
             and_then (fold_r (\<lambda>tc_mutation.
               h_mutate_friend env remote_public_key (TcMutation tc_mutation))
               (mtrv_mutations received) h) (\<lambda>h.
             and_then (clear_relays_transition env remote_public_key h) (\<lambda>h.
             and_then (fold_r (\<lambda>c. handle_move_token_output env remote_public_key
               (mtrc_currency c) (mtrc_incoming_messages c)) (mtrv_currencies received) h) (\<lambda>h.
             Ok (wants h))))))"

definition handle_move_token_request ::
  "'b env \<Rightarrow> public_key \<Rightarrow> 'b move_token_request \<Rightarrow> 'b hstate \<Rightarrow>
   (handle_friend_error, 'b hstate) result"
where
  "handle_move_token_request env remote_public_key request h =
     and_then (ok_or (hm_get (fs_friends (h_state h)) remote_public_key) HF_FriendDoesNotExist)
       (\<lambda>friend.
     case fr_channel_status friend of
       Inconsistent channel_inconsistent \<Rightarrow>
         try_reset_channel env remote_public_key (chi_local_reset_terms channel_inconsistent)
           request h
     | Consistent ch \<Rightarrow>
         let remote_max_debts = hm_collect (map (\<lambda>(currency, currency_config).
               (currency, cfg_remote_max_debt currency_config)) (fr_currency_configs friend))
         in case simulate_receive_move_token env (ch_token_channel ch) (mtr_move_token request)
                remote_max_debts of
              Ok output \<Rightarrow>
                handle_move_token_success env remote_public_key output (mtr_token_wanted request) h
            | Err _ \<Rightarrow> handle_move_token_error env remote_public_key h
            | Panic \<Rightarrow> Panic)"

definition handle_inconsistency_error ::
  "'b env \<Rightarrow> public_key \<Rightarrow> reset_terms \<Rightarrow> 'b hstate \<Rightarrow> (handle_friend_error, 'b hstate) result"
where
  "handle_inconsistency_error env remote_public_key remote_reset_terms h =
     and_then (ok_or (hm_get (fs_friends (h_state h)) remote_public_key) HF_FriendDoesNotExist)
       (\<lambda>friend.
     and_then (case fr_channel_status friend of
         Consistent ch \<Rightarrow>
           and_then (fail_if (get_incoming (ch_token_channel ch) \<noteq> None)
             InconsistencyWhenTokenOwned) (\<lambda>_.
           and_then (gen_reset_terms (ch_token_channel ch) h) (\<lambda>(local_reset_terms, h).
           Ok ((True, local_reset_terms,
             get_last_incoming_move_token_hashed (ch_token_channel ch)), h)))
       | Inconsistent channel_inconsistent \<Rightarrow>
           Ok ((False, chi_local_reset_terms channel_inconsistent,
             chi_opt_last_incoming_move_token channel_inconsistent), h))
       (\<lambda>((channel_was_consistent, new_local_reset_terms, opt_last_incoming_move_token), h).
     and_then (if channel_was_consistent
               then cancel_pending_requests env remote_public_key All h else Ok h) (\<lambda>h.
     and_then (h_mutate_friend env remote_public_key (SetInconsistent
       \<lparr> chi_opt_last_incoming_move_token = opt_last_incoming_move_token,
         chi_local_reset_terms = new_local_reset_terms,
         chi_opt_remote_reset_terms = Some remote_reset_terms \<rparr>) h) (\<lambda>h.
     Ok (if channel_was_consistent then h_command (set_try_send remote_public_key) h else h)))))"

definition handle_friend_message ::
  "'b env \<Rightarrow> public_key \<Rightarrow> 'b friend_message \<Rightarrow> 'b hstate \<Rightarrow>
   (handle_friend_error, 'b hstate) result"
where
  "handle_friend_message env remote_public_key friend_message h =
     and_then (ok_or (hm_get (fs_friends (h_state h)) remote_public_key) HF_FriendDoesNotExist)
       (\<lambda>_.
     case friend_message of
       MoveTokenRequest request \<Rightarrow> handle_move_token_request env remote_public_key request h
     | InconsistencyError remote_reset_terms \<Rightarrow>
         handle_inconsistency_error env remote_public_key remote_reset_terms h)"

end
