(* ===== verification/Sender.thy ===== *)
theory Sender
  imports Handle_Friend
begin

text \<open>
  \<open>components/funder/src/handler/sender.rs\<close>: composing the messages to friends after a
  handler has run, according to its commands; with \<open>sign_responses\<close> of
  \<open>handler/state_wrap.rs\<close>, which runs before it.

  The sender works on an \<open>hstate\<close> whose list of channeler configurations is its own. The
  signature of the identity server is the argument \<open>sign\<close>. The loops over hash maps run in
  the order of the association list. A loop that stops because a message is full returns the
  flag \<open>False\<close> with the state it has reached.
\<close>

record pending_currency =
  pc_outgoing_mc :: mutual_credit
  pc_operations :: "friend_tc_op list"

record 'b pending_move_token =
  pmt_friend_public_key :: public_key
  pmt_pending_currencies :: "(currency, pending_currency) hash_map"
  pmt_opt_local_relays :: "'b relay_address list option"
  pmt_opt_active_currencies :: "currency list option"
  pmt_token_wanted :: bool
  pmt_max_operations_in_batch :: nat
  pmt_may_send_empty :: bool

definition pending_move_token_new :: "public_key \<Rightarrow> nat \<Rightarrow> bool \<Rightarrow> 'b pending_move_token" where
  "pending_move_token_new friend_public_key max_operations_in_batch may_send_empty =
     \<lparr> pmt_friend_public_key = friend_public_key, pmt_pending_currencies = [],
       pmt_opt_local_relays = None, pmt_opt_active_currencies = None, pmt_token_wanted = False,
       pmt_max_operations_in_batch = max_operations_in_batch,
       pmt_may_send_empty = may_send_empty \<rparr>"

datatype pending_queue_error = MaxOperationsReached

text \<open>The consistent channel of a friend, where the source unwraps and calls \<open>unreachable!()\<close>.\<close>

definition consistent_channel ::
  "'b funder_state \<Rightarrow> public_key \<Rightarrow> ('e, 'b channel_consistent) result" where
  "consistent_channel state pk =
     and_then (unwrap (hm_get (fs_friends state) pk)) (\<lambda>friend.
     case fr_channel_status friend of Consistent ch \<Rightarrow> Ok ch | Inconsistent _ \<Rightarrow> Panic)"

definition pmt_queue_operation ::
  "'b env \<Rightarrow> currency \<Rightarrow> friend_tc_op \<Rightarrow> 'b funder_state \<Rightarrow> 'b pending_move_token \<Rightarrow>
   (pending_queue_error, 'b pending_move_token) result"
where
  "pmt_queue_operation env currency operation state pmt =
     (let num_operations = sum_list (map (\<lambda>pc. length (pc_operations pc))
            (hm_values (pmt_pending_currencies pmt)))
      in if num_operations \<ge> pmt_max_operations_in_batch pmt then Err MaxOperationsReached
         else
           and_then (consistent_channel state (pmt_friend_public_key pmt)) (\<lambda>ch.
           and_then (unwrap (get_incoming (ch_token_channel ch))) (\<lambda>tc_in_borrow.
           and_then (unwrap (create_outgoing_mc tc_in_borrow currency)) (\<lambda>outgoing_mc.
           let pending_currency =
                 (case hm_get (pmt_pending_currencies pmt) currency of
                    Some pc \<Rightarrow> pc
                  | None \<Rightarrow> \<lparr> pc_outgoing_mc = outgoing_mc, pc_operations = [] \<rparr>);
               push = (\<lambda>mc. Ok (pmt \<lparr> pmt_pending_currencies := hm_insert currency
                 \<lparr> pc_outgoing_mc = mc,
                   pc_operations = pc_operations pending_currency @ [operation] \<rparr>
                 (pmt_pending_currencies pmt) \<rparr>))
           in case queue_operation env operation (pc_outgoing_mc pending_currency) of
                Ok (mc, _) \<Rightarrow> push mc
              | Err Q_RequestAlreadyExists \<Rightarrow> push (pc_outgoing_mc pending_currency)
              | Err _ \<Rightarrow> Panic
              | Panic \<Rightarrow> Panic))))"

definition create_outgoing_move_token :: "'b tc_out_borrow \<Rightarrow> 'b move_token" where
  "create_outgoing_move_token b = tco_move_token_out (tob_tc_outgoing b)"

record 'b sstate =
  ss_h :: "'b hstate"
  ss_pending_move_tokens :: "(public_key, 'b pending_move_token) hash_map"
  ss_outgoing_messages :: "(public_key \<times> 'b friend_message) list"

definition push_message :: "public_key \<Rightarrow> 'b friend_message \<Rightarrow> 'b sstate \<Rightarrow> 'b sstate" where
  "push_message pk msg s = s \<lparr> ss_outgoing_messages := ss_outgoing_messages s @ [(pk, msg)] \<rparr>"

definition transmit_outgoing :: "public_key \<Rightarrow> bool \<Rightarrow> 'b sstate \<Rightarrow> ('e, 'b sstate) result" where
  "transmit_outgoing friend_public_key token_wanted s =
     and_then (consistent_channel (h_state (ss_h s)) friend_public_key) (\<lambda>ch.
     and_then (unwrap (get_outgoing (ch_token_channel ch))) (\<lambda>tc_out_borrow.
     Ok (push_message friend_public_key (MoveTokenRequest
       \<lparr> mtr_move_token = create_outgoing_move_token tc_out_borrow,
         mtr_token_wanted = token_wanted \<rparr>) s)))"

section \<open>Resetting a channel\<close>

text \<open>The relays the remote side may know, when they are sent again because of a reset.\<close>

definition resent_local_relays ::
  "'b named_relay_address list \<Rightarrow> 'b sent_local_relays \<Rightarrow> 'b sent_local_relays" where
  "resent_local_relays relays sent =
     (case sent of
        NeverSent \<Rightarrow> LastSent relays
      | Transition last_sent before_last_sent \<Rightarrow>
          Transition relays (hs_collect (last_sent @ before_last_sent))
      | LastSent last_sent \<Rightarrow> Transition relays last_sent)"

definition apply_local_reset ::
  "'b env \<Rightarrow> (u8 list \<Rightarrow> signature) \<Rightarrow> public_key \<Rightarrow> channel_inconsistent \<Rightarrow> 'b hstate \<Rightarrow>
   ('e, 'b hstate) result"
where
  "apply_local_reset env sign friend_public_key channel_inconsistent h =
     and_then (unwrap (chi_opt_remote_reset_terms channel_inconsistent)) (\<lambda>remote_reset_terms.
     and_then (unwrap (hm_get (fs_friends (h_state h)) friend_public_key)) (\<lambda>friend.
     and_then (h_mutate_friend env friend_public_key (SetSentLocalRelays
       (resent_local_relays (fs_relays (h_state h)) (fr_sent_local_relays friend))) h) (\<lambda>h.
     let opt_local_relays = Some (map relay_address_from (fs_relays (h_state h))) in
     and_then (flip_reset_balances (rt_balance_for_reset remote_reset_terms)) (\<lambda>balances.
     let token_info =
           \<lparr> ti_mc = \<lparr> mi_local_public_key = fs_local_public_key (h_state h),
               mi_remote_public_key = friend_public_key, mi_balances = balances \<rparr>,
             ti_counters =
               \<lparr> ci_inconsistency_counter = rt_inconsistency_counter remote_reset_terms,
                 ci_move_token_counter = 0 \<rparr> \<rparr>;
         (rand_nonce, h) = h_rand h;
         u_reset_move_token = create_unsigned_move_token env [] opt_local_relays None token_info
           (rt_reset_token remote_reset_terms) rand_nonce;
         reset_move_token = sign_move_token env sign u_reset_move_token;
         token_channel = new_from_local_reset reset_move_token token_info
           (chi_opt_last_incoming_move_token channel_inconsistent)
     in and_then (h_mutate_friend env friend_public_key (SetConsistent token_channel) h) (\<lambda>h.
        add_missing_configs env friend_public_key
          (rt_balance_for_reset remote_reset_terms) h)))))"

section \<open>Collecting operations\<close>

definition sender_queue_operation ::
  "'b env \<Rightarrow> currency \<Rightarrow> friend_tc_op \<Rightarrow> 'b hstate \<Rightarrow> 'b pending_move_token \<Rightarrow>
   ('e, bool \<times> 'b pending_move_token) result"
where
  "sender_queue_operation env currency operation h pmt =
     (case pmt_queue_operation env currency operation (h_state h) pmt of
        Ok pmt' \<Rightarrow> Ok (True, pmt')
      | Err MaxOperationsReached \<Rightarrow> Ok (False, pmt \<lparr> pmt_token_wanted := True \<rparr>)
      | Panic \<Rightarrow> Panic)"

fun backwards_op_to_friend_tc_op :: "backwards_op \<Rightarrow> friend_tc_op" where
  "backwards_op_to_friend_tc_op (BackResponse response) = ResponseSendFunds response"
| "backwards_op_to_friend_tc_op (BackCancel cancel) = CancelSendFunds cancel"
| "backwards_op_to_friend_tc_op (BackCollect collect) = CollectSendFunds collect"

text \<open>
  A loop over one of the queues of a friend: each operation that is put into the message is
  removed from the queue by \<open>pop\<close>.
\<close>

fun queue_pending ::
  "'b env \<Rightarrow> public_key \<Rightarrow> 'b friend_mutation \<Rightarrow> (currency \<times> friend_tc_op) list \<Rightarrow>
   'b hstate \<times> 'b pending_move_token \<Rightarrow> ('e, bool \<times> 'b hstate \<times> 'b pending_move_token) result"
where
  "queue_pending env pk pop [] (h, pmt) = Ok (True, h, pmt)"
| "queue_pending env pk pop ((currency, operation) # operations) (h, pmt) =
     and_then (sender_queue_operation env currency operation h pmt) (\<lambda>(queued, pmt).
     if \<not> queued then Ok (False, h, pmt)
     else and_then (h_mutate_friend env pk pop h) (\<lambda>h.
       queue_pending env pk pop operations (h, pmt)))"

definition append_cancels_to_move_token ::
  "'b env \<Rightarrow> public_key \<Rightarrow> 'b hstate \<times> 'b pending_move_token \<Rightarrow>
   ('e, bool \<times> 'b hstate \<times> 'b pending_move_token) result"
where
  "append_cancels_to_move_token env pk s =
     and_then (consistent_channel (h_state (fst s)) pk) (\<lambda>ch.
     queue_pending env pk PopFrontPendingBackwardsOp
       (map (\<lambda>(currency, op). (currency, backwards_op_to_friend_tc_op op))
         (ch_pending_backwards_ops ch)) s)"

definition queue_pending_requests ::
  "'b env \<Rightarrow> public_key \<Rightarrow> 'b friend_mutation \<Rightarrow>
   ('b channel_consistent \<Rightarrow> (currency \<times> request_send_funds_op) list) \<Rightarrow>
   'b hstate \<times> 'b pending_move_token \<Rightarrow> ('e, bool \<times> 'b hstate \<times> 'b pending_move_token) result"
where
  "queue_pending_requests env pk pop queue s =
     and_then (consistent_channel (h_state (fst s)) pk) (\<lambda>ch.
     queue_pending env pk pop
       (map (\<lambda>(currency, request). (currency, RequestSendFunds request)) (queue ch)) s)"

text \<open>Backwards operations come first, then forwarded requests, then the user's own requests.\<close>

definition queue_all_pending ::
  "'b env \<Rightarrow> public_key \<Rightarrow> 'b hstate \<times> 'b pending_move_token \<Rightarrow>
   ('e, bool \<times> 'b hstate \<times> 'b pending_move_token) result"
where
  "queue_all_pending env pk s =
     and_then (append_cancels_to_move_token env pk s) (\<lambda>(go, s).
     if \<not> go then Ok (False, s)
     else and_then (queue_pending_requests env pk PopFrontPendingRequest ch_pending_requests s)
       (\<lambda>(go, s).
     if \<not> go then Ok (False, s)
     else queue_pending_requests env pk PopFrontPendingUserRequest ch_pending_user_requests s))"

text \<open>The relays are sent when they have changed or when they are to be sent again.\<close>

definition new_sent_local_relays ::
  "bool \<Rightarrow> 'b named_relay_address list \<Rightarrow> 'b sent_local_relays \<Rightarrow> 'b sent_local_relays option" where
  "new_sent_local_relays resend_relays relays sent =
     (if resend_relays then Some (resent_local_relays relays sent)
      else (case sent of
              NeverSent \<Rightarrow> Some (LastSent relays)
            | Transition last_sent _ \<Rightarrow>
                if relays \<noteq> last_sent then Some (Transition relays last_sent) else None
            | LastSent last_sent \<Rightarrow>
                if relays \<noteq> last_sent then Some (Transition relays last_sent) else None))"

definition collect_local_relays ::
  "'b env \<Rightarrow> public_key \<Rightarrow> bool \<Rightarrow> 'b hstate \<times> 'b pending_move_token \<Rightarrow>
   ('e, 'b hstate \<times> 'b pending_move_token) result"
where
  "collect_local_relays env pk resend_relays s =
     (case s of (h, pmt) \<Rightarrow>
      and_then (unwrap (hm_get (fs_friends (h_state h)) pk)) (\<lambda>friend.
      case new_sent_local_relays resend_relays (fs_relays (h_state h))
          (fr_sent_local_relays friend) of
        None \<Rightarrow> Ok (h, pmt)
      | Some new_sent \<Rightarrow>
          let pmt = pmt \<lparr> pmt_opt_local_relays :=
                Some (map relay_address_from (fs_relays (h_state h))) \<rparr> in
          and_then (h_mutate_friend env pk (SetSentLocalRelays new_sent) h) (\<lambda>h.
          and_then (unwrap (hm_get (fs_friends (h_state h)) pk)) (\<lambda>friend.
          Ok (h_config (ConfigUpdateFriend
            \<lparr> cuf_friend_public_key = pk, cuf_friend_relays = fr_remote_relays friend,
              cuf_local_relays = sent_local_relays_to_vec (fr_sent_local_relays friend) \<rparr>) h,
            pmt)))))"

definition collect_active_currencies ::
  "public_key \<Rightarrow> 'b hstate \<times> 'b pending_move_token \<Rightarrow> ('e, 'b hstate \<times> 'b pending_move_token) result"
where
  "collect_active_currencies pk s =
     (case s of (h, pmt) \<Rightarrow>
      and_then (unwrap (hm_get (fs_friends (h_state h)) pk)) (\<lambda>friend.
      and_then (consistent_channel (h_state h) pk) (\<lambda>ch.
      let wanted = hs_collect (hm_keys (fr_currency_configs friend));
          active = tc_active_currencies (ch_token_channel ch)
      in if set wanted \<noteq> set (ac_local active)
         then and_then (assert_that (set (calc_active active) \<subseteq> set wanted)) (\<lambda>_.
           Ok (h, pmt \<lparr> pmt_opt_active_currencies := Some wanted \<rparr>))
         else Ok (h, pmt))))"

definition collect_outgoing_move_token ::
  "'b env \<Rightarrow> public_key \<Rightarrow> bool \<Rightarrow> 'b hstate \<times> 'b pending_move_token \<Rightarrow>
   ('e, bool \<times> 'b hstate \<times> 'b pending_move_token) result"
where
  "collect_outgoing_move_token env pk resend_relays s =
     and_then (collect_local_relays env pk resend_relays s) (\<lambda>s.
     and_then (collect_active_currencies pk s) (\<lambda>s.
     queue_all_pending env pk s))"

definition estimate_should_send :: "'b funder_state \<Rightarrow> public_key \<Rightarrow> ('e, bool) result" where
  "estimate_should_send state pk =
     and_then (unwrap (hm_get (fs_friends state) pk)) (\<lambda>friend.
     if (case fr_sent_local_relays friend of
           NeverSent \<Rightarrow> True
         | Transition relays _ \<Rightarrow> relays \<noteq> fs_relays state
         | LastSent relays \<Rightarrow> relays \<noteq> fs_relays state) then Ok True
     else (case fr_channel_status friend of
             Inconsistent _ \<Rightarrow> Ok False
           | Consistent ch \<Rightarrow>
               Ok (set (hm_keys (fr_currency_configs friend)) \<noteq>
                     set (ac_local (tc_active_currencies (ch_token_channel ch))) \<or>
                   ch_pending_backwards_ops ch \<noteq> [] \<or> ch_pending_requests ch \<noteq> [] \<or>
                   ch_pending_user_requests ch \<noteq> [])))"

section \<open>Sending\<close>

definition send_friend_iter1 ::
  "'b env \<Rightarrow> (u8 list \<Rightarrow> signature) \<Rightarrow> nat \<Rightarrow> public_key \<Rightarrow> friend_send_commands \<Rightarrow> 'b sstate \<Rightarrow>
   ('e, 'b sstate) result"
where
  "send_friend_iter1 env sign max_operations_in_batch pk cmds s =
     and_then (assert_that (fsc_try_send cmds \<or> fsc_resend_relays cmds \<or> fsc_resend_outgoing cmds \<or>
       fsc_remote_wants_token cmds \<or> fsc_local_reset cmds)) (\<lambda>_.
     and_then (unwrap (hm_get (fs_friends (h_state (ss_h s))) pk)) (\<lambda>friend.
     if fsc_local_reset cmds
     then (case fr_channel_status friend of
             Inconsistent channel_inconsistent \<Rightarrow>
               and_then (apply_local_reset env sign pk channel_inconsistent (ss_h s)) (\<lambda>h.
               transmit_outgoing pk True (s \<lparr> ss_h := h \<rparr>))
           | Consistent _ \<Rightarrow> Panic)
     else
       case fr_channel_status friend of
         Inconsistent channel_inconsistent \<Rightarrow>
           Ok (if fsc_resend_outgoing cmds \<or> fsc_try_send cmds
               then push_message pk (InconsistencyError
                 (chi_local_reset_terms channel_inconsistent)) s
               else s)
       | Consistent ch \<Rightarrow>
           (case get_outgoing (ch_token_channel ch) of
              Some tc_out_borrow \<Rightarrow>
                and_then (estimate_should_send (h_state (ss_h s)) pk) (\<lambda>is_pending.
                if is_pending \<or> fsc_resend_outgoing cmds
                then transmit_outgoing pk (is_pending \<or>
                  mt_opt_local_relays (tco_move_token_out (tob_tc_outgoing tc_out_borrow)) \<noteq> None) s
                else Ok s)
            | None \<Rightarrow>
                let pmt = pending_move_token_new pk max_operations_in_batch
                      (fsc_resend_outgoing cmds \<or> fsc_remote_wants_token cmds) in
                and_then (collect_outgoing_move_token env pk (fsc_resend_relays cmds) (ss_h s, pmt))
                  (\<lambda>(_, h, pmt).
                Ok (s \<lparr> ss_h := h,
                  ss_pending_move_tokens := hm_insert pk pmt (ss_pending_move_tokens s) \<rparr>)))))"

definition send_move_token ::
  "'b env \<Rightarrow> (u8 list \<Rightarrow> signature) \<Rightarrow> public_key \<Rightarrow> 'b pending_move_token \<Rightarrow> 'b sstate \<Rightarrow>
   ('e, 'b sstate) result"
where
  "send_move_token env sign pk pmt s =
     (if pmt_pending_currencies pmt = [] \<and> pmt_opt_active_currencies pmt = None \<and>
         pmt_opt_local_relays pmt = None \<and> \<not> pmt_may_send_empty pmt
      then Ok s
      else
        let token_wanted = pmt_token_wanted pmt \<or> pmt_opt_local_relays pmt \<noteq> None;
            (rand_nonce, h) = h_rand (ss_h s) in
        and_then (consistent_channel (h_state h) pk) (\<lambda>ch.
        and_then (unwrap (get_incoming (ch_token_channel ch))) (\<lambda>tc_in_borrow.
        let currencies_operations = map (\<lambda>(currency, pending_currency).
              \<lparr> cop_currency = currency, cop_operations = pc_operations pending_currency \<rparr>)
              (pmt_pending_currencies pmt) in
        and_then (unwrap_result (simulate_send_move_token env tc_in_borrow currencies_operations
          (pmt_opt_local_relays pmt) (pmt_opt_active_currencies pmt) rand_nonce)) (\<lambda>output.
        and_then (fold_r (\<lambda>tc_mutation. h_mutate_friend env pk (TcMutation tc_mutation))
          (smo_mutations output) h) (\<lambda>h.
        let move_token = sign_move_token env sign (smo_unsigned_move_token output) in
        and_then (h_mutate_friend env pk (TcMutation (SetDirection
          (SetOutgoing move_token (smo_token_info output)))) h) (\<lambda>h.
        and_then (consistent_channel (h_state h) pk) (\<lambda>ch.
        and_then (unwrap (get_outgoing (ch_token_channel ch))) (\<lambda>tc_out_borrow.
        Ok (push_message pk (MoveTokenRequest
          \<lparr> mtr_move_token = create_outgoing_move_token tc_out_borrow,
            mtr_token_wanted = token_wanted \<rparr>) (s \<lparr> ss_h := h \<rparr>))))))))))"

definition init_cancel_pending_move_token ::
  "ephemeral \<Rightarrow> nat \<Rightarrow> public_key list \<Rightarrow> (public_key, 'b pending_move_token) hash_map \<Rightarrow>
   (public_key, 'b pending_move_token) hash_map"
where
  "init_cancel_pending_move_token e max_operations_in_batch cancel_public_keys tokens =
     (let keys = hm_keys tokens in
      fold (\<lambda>pk tokens.
        if \<not> is_online (eph_liveness e) pk \<or> pk \<in> set keys then tokens
        else hm_insert pk (pending_move_token_new pk max_operations_in_batch False) tokens)
        cancel_public_keys tokens)"

text \<open>The second iteration, over the pending messages of the first.\<close>

fun append_all_cancels ::
  "'b env \<Rightarrow> ephemeral \<Rightarrow> (public_key, 'b pending_move_token) hash_map \<Rightarrow> 'b hstate \<Rightarrow>
   ('e, (public_key, 'b pending_move_token) hash_map \<times> 'b hstate) result"
where
  "append_all_cancels env e [] h = Ok ([], h)"
| "append_all_cancels env e ((pk, pmt) # tokens) h =
     and_then (assert_that (is_online (eph_liveness e) pk)) (\<lambda>_.
     and_then (append_cancels_to_move_token env pk (h, pmt)) (\<lambda>(_, h, pmt).
     and_then (append_all_cancels env e tokens h) (\<lambda>(tokens, h).
     Ok ((pk, pmt) # tokens, h))))"

definition create_friend_messages ::
  "'b env \<Rightarrow> (u8 list \<Rightarrow> signature) \<Rightarrow> nat \<Rightarrow> send_commands \<Rightarrow> 'b hstate \<Rightarrow> ('e, 'b sstate) result"
where
  "create_friend_messages env sign max_operations_in_batch cmds h =
     (let e = h_ephemeral h in
      and_then (fold_r (\<lambda>(pk, friend_send_commands) s.
          if \<not> is_online (eph_liveness e) pk then Ok s
          else send_friend_iter1 env sign max_operations_in_batch pk friend_send_commands s)
        cmds \<lparr> ss_h = h, ss_pending_move_tokens = [], ss_outgoing_messages = [] \<rparr>) (\<lambda>s.
      let tokens = init_cancel_pending_move_token e max_operations_in_batch []
            (ss_pending_move_tokens s) in
      and_then (append_all_cancels env e tokens (ss_h s)) (\<lambda>(tokens, h).
      fold_r (\<lambda>(pk, pmt) s.
          and_then (assert_that (is_online (eph_liveness e) pk)) (\<lambda>_.
          send_move_token env sign pk pmt s))
        tokens (s \<lparr> ss_h := h, ss_pending_move_tokens := tokens \<rparr>))))"

section \<open>Signing responses\<close>

definition sign_response ::
  "'b env \<Rightarrow> (u8 list \<Rightarrow> signature) \<Rightarrow> semi_response \<Rightarrow> 'b hstate \<Rightarrow> ('e, 'b hstate) result"
where
  "sign_response env sign semi h =
     (let pending_transaction = sr_pending_transaction semi in
      and_then (unwrap (hm_get (fs_open_invoices (h_state h)) (pt_invoice_id pending_transaction)))
        (\<lambda>open_invoice.
      let (rand_nonce, h) = h_rand h;
          response = create_response_send_funds env sign (sr_currency semi) pending_transaction
            (hash_lock env (inv_dest_plain_lock open_invoice)) (sr_is_complete semi) rand_nonce
      in h_mutate_friend env (sr_friend_public_key semi)
           (PushBackPendingBackwardsOp (sr_currency semi) (BackResponse response)) h))"

text \<open>Responses are taken from the end of the list until it is empty.\<close>

definition sign_responses ::
  "'b env \<Rightarrow> (u8 list \<Rightarrow> signature) \<Rightarrow> 'b hstate \<Rightarrow> ('e, 'b hstate) result"
where
  "sign_responses env sign h =
     fold_r (sign_response env sign) (rev (mfs_unsigned_responses (h_m_state h)))
       (h \<lparr> h_m_state := (h_m_state h) \<lparr> mfs_unsigned_responses := [] \<rparr> \<rparr>)"

end
