(* ===== verification/Funder_Handler.thy ===== *)
theory Funder_Handler
  imports Sender
begin

text \<open>
  \<open>handler/handle_init.rs\<close>, \<open>handler/handle_liveness.rs\<close> and \<open>handler/handler.rs\<close> of the
  funder: the function that takes one incoming message, runs its handler, signs the responses,
  composes the messages to friends and returns the mutations for the database. The report for
  the user, which is computed from the mutations, is left out of the output.
\<close>

section \<open>Initialisation and liveness\<close>

definition handle_init :: "'b hstate \<Rightarrow> 'b hstate" where
  "handle_init h =
     (let enabled_friends = map (\<lambda>friend.
            \<lparr> cuf_friend_public_key = fr_remote_public_key friend,
              cuf_friend_relays = fr_remote_relays friend,
              cuf_local_relays = sent_local_relays_to_vec (fr_sent_local_relays friend) \<rparr>)
            (filter (\<lambda>friend. fr_status friend = Enabled) (hm_values (fs_friends (h_state h))));
          h = h_config (ConfigSetRelays (map relay_address_from (fs_relays (h_state h)))) h
      in fold (\<lambda>enabled_friend. h_config (ConfigUpdateFriend enabled_friend)) enabled_friends h)"

datatype incoming_liveness_message = Online public_key | Offline public_key

datatype handle_liveness_error = HL_FriendDoesNotExist | FriendIsDisabled | FriendAlreadyOnline

definition h_mutate_ephemeral :: "ephemeral_mutation \<Rightarrow> 'b hstate \<Rightarrow> 'b hstate" where
  "h_mutate_ephemeral mutation h = h \<lparr> h_m_ephemeral := me_mutate mutation (h_m_ephemeral h) \<rparr>"

fun handle_liveness_message ::
  "'b env \<Rightarrow> incoming_liveness_message \<Rightarrow> 'b hstate \<Rightarrow> (handle_liveness_error, 'b hstate) result"
where
  "handle_liveness_message env (Online friend_public_key) h =
     and_then (ok_or (hm_get (fs_friends (h_state h)) friend_public_key) HL_FriendDoesNotExist)
       (\<lambda>friend.
     and_then (fail_if (fr_status friend = Disabled) FriendIsDisabled) (\<lambda>_.
     and_then (fail_if (is_online (eph_liveness (h_ephemeral h)) friend_public_key)
       FriendAlreadyOnline) (\<lambda>_.
     Ok (h_mutate_ephemeral (LivenessMutation (SetOnline friend_public_key))
       (h_command (set_resend_outgoing friend_public_key) h)))))"
| "handle_liveness_message env (Offline friend_public_key) h =
     (let h = h_mutate_ephemeral (LivenessMutation (SetOffline friend_public_key)) h in
      if hm_get (fs_friends (h_state h)) friend_public_key = None then Ok h
      else cancel_pending_requests env friend_public_key All h)"

section \<open>One incoming message\<close>

datatype 'b funder_incoming_comm =
    IncomingLiveness incoming_liveness_message
  | IncomingFriend public_key "'b friend_message"

datatype 'b funder_incoming =
    Init
  | Control uid "'b funder_control"
  | Comm "'b funder_incoming_comm"

datatype funder_handler_error =
    HandleFriendError handle_friend_error
  | HandleLivenessError handle_liveness_error

text \<open>The limits of the node: relays, operations in a message, and requests of the user.\<close>

record funder_limits =
  lim_max_node_relays :: nat
  lim_max_operations_in_batch :: nat
  lim_max_pending_user_requests :: nat

text \<open>An error of a control message is only logged; the state is the one before it.\<close>

fun funder_handle_incoming ::
  "'b env \<Rightarrow> funder_limits \<Rightarrow> 'b funder_incoming \<Rightarrow> 'b hstate \<Rightarrow>
   (funder_handler_error, 'b hstate \<times> uid option) result"
where
  "funder_handle_incoming env limits Init h = Ok (handle_init h, None)"
| "funder_handle_incoming env limits (Control app_request_id control) h =
     (case handle_control_message env (lim_max_node_relays limits)
         (lim_max_pending_user_requests limits) control h of
        Ok h' \<Rightarrow> Ok (h', Some app_request_id)
      | Err _ \<Rightarrow> Ok (h, Some app_request_id)
      | Panic \<Rightarrow> Panic)"
| "funder_handle_incoming env limits (Comm (IncomingLiveness message)) h =
     and_then (map_err HandleLivenessError (handle_liveness_message env message h)) (\<lambda>h.
     Ok (h, None))"
| "funder_handle_incoming env limits (Comm (IncomingFriend origin_public_key message)) h =
     and_then (map_err HandleFriendError
       (handle_friend_message env origin_public_key message h)) (\<lambda>h.
     Ok (h, None))"

datatype 'b funder_outgoing_comm =
    OutFriendMessage public_key "'b friend_message"
  | OutChannelerConfig "'b channeler_config"

record 'b funder_handler_output =
  fho_funder_mutations :: "'b funder_mutation list"
  fho_ephemeral_mutations :: "ephemeral_mutation list"
  fho_outgoing_comms :: "'b funder_outgoing_comm list"
  fho_outgoing_control :: "funder_outgoing_control list"

definition hstate_new :: "'b funder_state \<Rightarrow> ephemeral \<Rightarrow> rng \<Rightarrow> 'b hstate" where
  "hstate_new state e r =
     \<lparr> h_m_state = mutable_funder_state_new state, h_m_ephemeral = mutable_ephemeral_new e,
       h_send_commands = send_commands_new, h_outgoing_control = [], h_channeler_config = [],
       h_rng = r \<rparr>"

text \<open>The state after a message: handler, signatures, messages to friends.\<close>

definition funder_process ::
  "'b env \<Rightarrow> (u8 list \<Rightarrow> signature) \<Rightarrow> funder_limits \<Rightarrow> 'b funder_incoming \<Rightarrow> 'b hstate \<Rightarrow>
   (funder_handler_error, 'b hstate \<times> 'b sstate) result"
where
  "funder_process env sign limits incoming h =
     and_then (funder_handle_incoming env limits incoming h) (\<lambda>(h, _).
     and_then (sign_responses env sign h) (\<lambda>h.
     and_then (create_friend_messages env sign (lim_max_operations_in_batch limits)
       (h_send_commands h) (h \<lparr> h_channeler_config := [] \<rparr>)) (\<lambda>s.
     Ok (h, s))))"

definition funder_handle_message ::
  "'b env \<Rightarrow> (u8 list \<Rightarrow> signature) \<Rightarrow> rng \<Rightarrow> 'b funder_state \<Rightarrow> ephemeral \<Rightarrow> funder_limits \<Rightarrow>
   'b funder_incoming \<Rightarrow> (funder_handler_error, 'b funder_handler_output) result"
where
  "funder_handle_message env sign r state e limits incoming =
     and_then (funder_process env sign limits incoming (hstate_new state e r)) (\<lambda>(h, s).
     and_then (mfs_done (h_m_state (ss_h s))) (\<lambda>(_, funder_mutations, _).
     Ok \<lparr> fho_funder_mutations = funder_mutations,
          fho_ephemeral_mutations = me_mutations (h_m_ephemeral (ss_h s)),
          fho_outgoing_comms =
            map OutChannelerConfig (h_channeler_config h) @
            map OutChannelerConfig (h_channeler_config (ss_h s)) @
            map (\<lambda>(pk, msg). OutFriendMessage pk msg) (ss_outgoing_messages s),
          fho_outgoing_control = h_outgoing_control h \<rparr>))"

end
