(* ===== verification/Handler_Steps.thy ===== *)
theory Handler_Steps
  imports Funder_Handler
begin

text \<open>
  The handlers of the funder as a transition system. \<open>fstep\<close> has one rule for each way in
  which a handler may change the stored state: most mutations stand alone, but the mutations of
  transactions and payments come in groups with a condition. Every handler is shown to be a
  sequence of such steps, so a property that the steps keep holds after every message.
\<close>

named_theorems steps \<open>handlers are sequences of steps\<close>

text \<open>A case distinction that returns \<open>Ok\<close>.\<close>

lemma ok_case_iffs:
  "(case st of Inconsistent chi \<Rightarrow> f chi | Consistent ch \<Rightarrow> g ch) = Ok y \<longleftrightarrow>
     (\<exists>chi. st = Inconsistent chi \<and> f chi = Ok y) \<or> (\<exists>ch. st = Consistent ch \<and> g ch = Ok y)"
  "(case opt of None \<Rightarrow> a | Some x \<Rightarrow> k x) = Ok y \<longleftrightarrow>
     opt = None \<and> a = Ok y \<or> (\<exists>x. opt = Some x \<and> k x = Ok y)"
  "(case fs of Enabled \<Rightarrow> a | Disabled \<Rightarrow> b) = Ok y \<longleftrightarrow>
     fs = Enabled \<and> a = Ok y \<or> fs = Disabled \<and> b = Ok y"
  "(if c then a else b) = Ok y \<longleftrightarrow> c \<and> a = Ok y \<or> \<not> c \<and> b = Ok y"
  "(case p of (u, v) \<Rightarrow> l u v) = Ok y \<longleftrightarrow> (\<exists>u v. p = (u, v) \<and> l u v = Ok y)"
  "(case r of Ok x \<Rightarrow> k x | Err e \<Rightarrow> l' e | Panic \<Rightarrow> Panic) = Ok y \<longleftrightarrow>
     (\<exists>x. r = Ok x \<and> k x = Ok y) \<or> (\<exists>e. r = Err e \<and> l' e = Ok y)"
  by (auto split: channel_status.splits option.splits friend_status.splits prod.splits
      result.splits)

lemma new_transactions_iff:
  "(case stage of NewTransactions nt \<Rightarrow> Ok nt | _ \<Rightarrow> Err e) = Ok y \<longleftrightarrow> stage = NewTransactions y"
  by (auto split: payment_stage.splits)

lemma consistent_channel_cast:
  "consistent_channel state pk = (Ok ch :: ('e, _) result) \<Longrightarrow>
   consistent_channel state pk = (Ok ch :: ('f, _) result)"
  by (auto simp: consistent_channel_def rust_simps split: channel_status.splits)

section \<open>Payments and their transactions\<close>

definition stage_num :: "payment_stage \<Rightarrow> nat" where
  "stage_num stage =
     (case stage of
        NewTransactions nt \<Rightarrow> unat (nt_num_transactions nt)
      | InProgress n \<Rightarrow> unat n
      | Success n _ _ \<Rightarrow> unat n
      | Canceled _ \<Rightarrow> 0
      | AfterSuccessAck n \<Rightarrow> unat n)"

text \<open>A payment that only waits for its transactions has one left.\<close>

definition stage_ok :: "payment_stage \<Rightarrow> bool" where
  "stage_ok stage =
     (case stage of InProgress n \<Rightarrow> 0 < n | AfterSuccessAck n \<Rightarrow> 0 < n | _ \<Rightarrow> True)"

definition set_stage :: "payment_id \<Rightarrow> plain_lock \<Rightarrow> payment_stage option \<Rightarrow> 'b funder_mutation" where
  "set_stage payment_id src_plain_lock opt_stage =
     (case opt_stage of
        Some stage \<Rightarrow> UpdatePayment payment_id
          \<lparr> pay_src_plain_lock = src_plain_lock, pay_stage = stage \<rparr>
      | None \<Rightarrow> RemovePayment payment_id)"

text \<open>A change of stage by which a payment loses \<open>k\<close> transactions.\<close>

definition stage_loses :: "nat \<Rightarrow> payment_stage \<Rightarrow> payment_stage option \<Rightarrow> bool" where
  "stage_loses k stage opt_stage \<longleftrightarrow>
     (case opt_stage of
        Some stage' \<Rightarrow> stage_num stage = stage_num stage' + k \<and> stage_ok stage'
      | None \<Rightarrow> stage_num stage = k)"

section \<open>The steps\<close>

fun plain_mutation :: "'b funder_mutation \<Rightarrow> bool" where
  "plain_mutation (AddTransaction _ _) = False"
| "plain_mutation (RemoveTransaction _) = False"
| "plain_mutation (UpdatePayment _ _) = False"
| "plain_mutation (RemovePayment _) = False"
| "plain_mutation _ = True"

text \<open>Only a friend that is there is removed.\<close>

fun removal_known :: "'b funder_state \<Rightarrow> 'b funder_mutation \<Rightarrow> bool" where
  "removal_known state (RemoveFriend pk) = hm_contains (fs_friends state) pk"
| "removal_known state _ = True"

abbreviation mfs_mutate_all ::
  "'b env \<Rightarrow> 'b funder_mutation list \<Rightarrow> 'b mutable_funder_state \<Rightarrow>
   (unit, 'b mutable_funder_state) result" where
  "mfs_mutate_all env \<equiv> fold_r (mfs_mutate env)"

inductive fstep :: "'b env \<Rightarrow> 'b mutable_funder_state \<Rightarrow> 'b mutable_funder_state \<Rightarrow> bool"
  for env :: "'b env"
where
  plain: "plain_mutation mutation \<Longrightarrow> removal_known (mfs_state m) mutation \<Longrightarrow>
    mfs_mutate_all env [mutation] m = Ok m' \<Longrightarrow> fstep env m m'"
| queue: "fstep env m (m \<lparr> mfs_unsigned_responses := rs \<rparr>)"
| new_payment: "hm_get (fs_payments (mfs_state m)) payment_id = None \<Longrightarrow>
    pay_stage payment = NewTransactions nt \<Longrightarrow> nt_num_transactions nt = 0 \<Longrightarrow>
    mfs_mutate_all env [UpdatePayment payment_id payment] m = Ok m' \<Longrightarrow> fstep env m m'"
| new_transaction: "hm_get (fs_open_transactions (mfs_state m)) request_id = None \<Longrightarrow>
    hm_get (fs_payments (mfs_state m)) payment_id = Some payment \<Longrightarrow>
    stage_num stage = stage_num (pay_stage payment) + 1 \<Longrightarrow> stage_ok stage \<Longrightarrow>
    mfs_mutate_all env [AddTransaction request_id payment_id,
      set_stage payment_id lock (Some stage)] m = Ok m' \<Longrightarrow> fstep env m m'"
| end_transaction: "hm_get (fs_open_transactions (mfs_state m)) request_id = Some ot \<Longrightarrow>
    hm_get (fs_payments (mfs_state m)) (ot_payment_id ot) = Some payment \<Longrightarrow>
    stage_loses 1 (pay_stage payment) opt_stage \<Longrightarrow>
    mutations = [RemoveTransaction request_id, set_stage (ot_payment_id ot) lock opt_stage] \<or>
    mutations = [set_stage (ot_payment_id ot) lock opt_stage, RemoveTransaction request_id] \<Longrightarrow>
    mfs_mutate_all env mutations m = Ok m' \<Longrightarrow> fstep env m m'"
| change_stage: "hm_get (fs_payments (mfs_state m)) payment_id = Some payment \<Longrightarrow>
    stage_loses 0 (pay_stage payment) opt_stage \<Longrightarrow>
    mfs_mutate_all env [set_stage payment_id lock opt_stage] m = Ok m' \<Longrightarrow> fstep env m m'"

abbreviation fsteps where
  "fsteps env \<equiv> (fstep env)\<^sup>*\<^sup>*"

locale step_invariant =
  fixes env :: "'b env"
    and inv :: "'b mutable_funder_state \<Rightarrow> bool"
  assumes inv_step: "fstep env m m' \<Longrightarrow> inv m \<Longrightarrow> inv m'"
begin

lemma inv_steps: "fsteps env m m' \<Longrightarrow> inv m \<Longrightarrow> inv m'"
  by (induction rule: rtranclp_induct) (auto intro: inv_step)

end

section \<open>The handlers are sequences of steps\<close>

lemma h_mutate_m_state:
  assumes "h_mutate env mutation h = (Ok h' :: ('e, _) result)"
  shows "mfs_mutate env mutation (h_m_state h) = (Ok (h_m_state h') :: (unit, _) result)"
proof -
  from assms obtain m where m: "mfs_mutate env mutation (h_m_state h) = (Ok m :: ('e, _) result)"
    and h': "h' = h \<lparr> h_m_state := m \<rparr>"
    by (auto simp: h_mutate_def rust_simps)
  show ?thesis using mfs_mutate_cast [OF m] by (simp add: h')
qed

lemma h_mutate_steps:
  assumes "h_mutate env mutation h = (Ok h' :: ('e, _) result)" and "plain_mutation mutation"
    and "removal_known (h_state h) mutation" and "fsteps env m (h_m_state h)"
  shows "fsteps env m (h_m_state h')"
  using assms(4) fstep.plain [OF assms(2,3), of env "h_m_state h'"] h_mutate_m_state [OF assms(1)]
  by (simp add: rtranclp.rtrancl_into_rtrancl)

lemma h_mutate_friend_steps [steps]:
  "h_mutate_friend env pk mutation h = Ok h' \<Longrightarrow> fsteps env m (h_m_state h) \<Longrightarrow>
   fsteps env m (h_m_state h')"
  unfolding h_mutate_friend_def by (erule h_mutate_steps) simp_all

lemma fold_r_steps:
  assumes "fold_r f xs h = Ok h'" and "fsteps env m (h_m_state h)"
    and "\<And>x h h'. f x h = Ok h' \<Longrightarrow> fsteps env m (h_m_state h) \<Longrightarrow> fsteps env m (h_m_state h')"
  shows "fsteps env m (h_m_state h')"
  using fold_r_invariant [OF assms(1), where P = "\<lambda>h. fsteps env m (h_m_state h)"] assms(2,3)
  by blast

lemma reply_with_cancel_steps [steps]:
  "reply_with_cancel env pk c rid h = Ok h' \<Longrightarrow> fsteps env m (h_m_state h) \<Longrightarrow>
   fsteps env m (h_m_state h')"
  by (auto simp: reply_with_cancel_def rust_simps elim!: steps)

text \<open>The new stage of a payment is stored by one mutation.\<close>

lemma update_payment_stage_m_state:
  assumes "update_payment_stage env payment_id lock (opt_stage, st) h = (Ok h' :: ('e, _) result)"
  shows "mfs_mutate env (set_stage payment_id lock opt_stage) (h_m_state h) =
    (Ok (h_m_state h') :: (unit, _) result)"
  using assms h_mutate_m_state [where 'e = 'e]
  by (cases opt_stage; cases st) (fastforce simp: update_payment_stage_def set_stage_def)+

lemma unat_checked_pred: "u_checked_sub n 1 = Some k \<Longrightarrow> unat n = unat k + 1" for n k :: u64
proof -
  assume "u_checked_sub n 1 = Some k"
  then have "uint n = uint k + 1" by (simp add: int_simps)
  then have "int (unat n) = int (unat k) + 1" by (simp only: uint_nat)
  then show ?thesis by linarith
qed

lemma stage_without_transaction_loses:
  assumes "stage_without_transaction stage h = (Ok ((opt_stage, st), h') :: ('e, _) result)"
  shows "stage_loses 1 stage opt_stage"
  using assms
  by (cases stage)
    (auto simp: stage_without_transaction_def rust_simps Let_def stage_loses_def stage_num_def
      stage_ok_def word_gt_0 split: if_splits prod.splits dest!: unat_checked_pred)

lemma stage_without_transaction_m_state:
  assumes "stage_without_transaction stage h = (Ok (update, h') :: ('e, _) result)"
  shows "h_m_state h' = h_m_state h"
  using assms
  by (cases stage)
    (auto simp: stage_without_transaction_def rust_simps Let_def
      split: if_splits prod.splits dest: h_rand_m_state)

lemma remove_transaction_steps [steps]:
  assumes "remove_transaction env request_id h = (Ok h' :: ('e, _) result)"
    and "fsteps env m (h_m_state h)"
  shows "fsteps env m (h_m_state h')"
proof -
  from assms(1) obtain ot payment h1 opt_stage st h2 where
    ot: "hm_get (fs_open_transactions (h_state h)) request_id = Some ot"
    and p: "hm_get (fs_payments (h_state h)) (ot_payment_id ot) = Some payment"
    and h1: "h_mutate env (RemoveTransaction request_id) h = (Ok h1 :: ('e, _) result)"
    and st: "stage_without_transaction (pay_stage payment) h1 = (Ok ((opt_stage, st), h2) :: ('e, _) result)"
    and h': "update_payment_stage env (ot_payment_id ot) (pay_src_plain_lock payment)
      (opt_stage, st) h2 = (Ok h' :: ('e, _) result)"
    by (auto simp: remove_transaction_def rust_simps)
  have "mfs_mutate_all env [RemoveTransaction request_id,
      set_stage (ot_payment_id ot) (pay_src_plain_lock payment) opt_stage] (h_m_state h) =
        Ok (h_m_state h')"
    using h_mutate_m_state [OF h1] update_payment_stage_m_state [OF h']
      stage_without_transaction_m_state [OF st] by simp
  from fstep.end_transaction [OF ot p stage_without_transaction_loses [OF st] disjI1 [OF refl] this]
    assms(2)
  show ?thesis by simp
qed

lemma cancel_by_origin_steps [steps]:
  "cancel_by_origin env c rid origin h = Ok h' \<Longrightarrow> fsteps env m (h_m_state h) \<Longrightarrow>
   fsteps env m (h_m_state h')"
  by (auto simp: cancel_by_origin_def split: option.splits elim!: steps)

lemma cancel_local_pending_transactions_steps [steps]:
  assumes "cancel_local_pending_transactions env pk h = (Ok h' :: ('e, _) result)"
    and "fsteps env m (h_m_state h)"
  shows "fsteps env m (h_m_state h')"
proof -
  have inner: "fsteps env m (h_m_state g')"
    if "fold_r (cancel_local_transaction env c) ps g = (Ok g' :: ('e, _) result)"
      "fsteps env m (h_m_state g)" for c ps g g'
    using that by (rule fold_r_steps)
      (auto simp: cancel_local_transaction_def split: prod.splits elim!: steps)
  show ?thesis
    using assms
    by (auto simp: cancel_local_pending_transactions_def rust_simps ok_case_iffs
        elim!: fold_r_steps inner)
qed

lemma cancel_chosen_requests_steps [steps]:
  assumes "cancel_chosen_requests env choice rs h = (Ok h' :: ('e, _) result)"
    and "fsteps env m (h_m_state h)"
  shows "fsteps env m (h_m_state h')"
  using assms unfolding cancel_chosen_requests_def
  by (rule fold_r_steps)
    (auto simp: cancel_request_def split: currency_choice.splits if_splits prod.splits elim!: steps)

lemma cancel_pending_requests_steps [steps]:
  "cancel_pending_requests env pk choice h = Ok h' \<Longrightarrow> fsteps env m (h_m_state h) \<Longrightarrow>
   fsteps env m (h_m_state h')"
  by (auto simp: cancel_pending_requests_def rust_simps ok_case_iffs elim!: steps)

lemma cancel_nonuser_pending_requests_steps [steps]:
  "cancel_nonuser_pending_requests env pk choice h = Ok h' \<Longrightarrow> fsteps env m (h_m_state h) \<Longrightarrow>
   fsteps env m (h_m_state h')"
  by (auto simp: cancel_nonuser_pending_requests_def rust_simps ok_case_iffs elim!: steps)

subsection \<open>Control messages\<close>

lemma announce_relays_m_state [simp]: "h_m_state (announce_relays h) = h_m_state h"
proof -
  have "h_m_state (fold (\<lambda>pk. h_command (set_try_send pk)) pks g) = h_m_state g"
    for pks and g :: "'a hstate"
    by (induction pks arbitrary: g) auto
  then show ?thesis by (simp add: announce_relays_def)
qed

lemma disable_friend_steps [steps]:
  "disable_friend env pk h = Ok h' \<Longrightarrow> fsteps env m (h_m_state h) \<Longrightarrow> fsteps env m (h_m_state h')"
  by (auto simp: disable_friend_def rust_simps elim!: steps)

lemma enable_friend_steps [steps]:
  "enable_friend pk relays h = Ok h' \<Longrightarrow> fsteps env m (h_m_state h) \<Longrightarrow> fsteps env m (h_m_state h')"
  by (auto simp: enable_friend_def rust_simps)

lemma control_friend_steps:
  "control_set_friend_currency_max_debt env pk c d h = Ok h' \<Longrightarrow> fsteps env m (h_m_state h) \<Longrightarrow>
     fsteps env m (h_m_state h')"
  "control_reset_friend_channel pk token h = Ok h' \<Longrightarrow> fsteps env m (h_m_state h) \<Longrightarrow>
     fsteps env m (h_m_state h')"
  "control_set_friend_currency_requests_status env pk c st h = Ok h' \<Longrightarrow>
     fsteps env m (h_m_state h) \<Longrightarrow> fsteps env m (h_m_state h')"
  "control_set_friend_relays env pk relays h = Ok h' \<Longrightarrow> fsteps env m (h_m_state h) \<Longrightarrow>
     fsteps env m (h_m_state h')"
  "control_set_friend_name env pk name h = Ok h' \<Longrightarrow> fsteps env m (h_m_state h) \<Longrightarrow>
     fsteps env m (h_m_state h')"
  "control_set_friend_currency_rate env pk c r h = Ok h' \<Longrightarrow> fsteps env m (h_m_state h) \<Longrightarrow>
     fsteps env m (h_m_state h')"
  "control_remove_friend_currency env pk c h = Ok h' \<Longrightarrow> fsteps env m (h_m_state h) \<Longrightarrow>
     fsteps env m (h_m_state h')"
  "control_set_friend_status env pk status h = Ok h' \<Longrightarrow> fsteps env m (h_m_state h) \<Longrightarrow>
     fsteps env m (h_m_state h')"
  by (auto simp: control_set_friend_currency_max_debt_def control_reset_friend_channel_def
      control_set_friend_currency_requests_status_def control_set_friend_relays_def
      control_set_friend_name_def control_set_friend_currency_rate_def
      control_remove_friend_currency_def control_set_friend_status_def rust_simps Let_def
      ok_case_iffs elim!: steps intro: steps)

text \<open>The cancellations that come before the removal of a friend keep the friend.\<close>

lemma mfs_mutate_knows:
  assumes "mfs_mutate env mutation m = Ok m'" and "hm_contains (fs_friends (mfs_state m)) pk"
    and "\<And>pk'. mutation \<noteq> RemoveFriend pk'"
  shows "hm_contains (fs_friends (mfs_state m')) pk"
  using assms
  by (cases mutation) (auto simp: mfs_mutate_def rust_simps Let_def hm_contains_def hm_get_insert)

lemma h_mutate_knows:
  "h_mutate env mutation h = Ok h' \<Longrightarrow> (\<And>pk'. mutation \<noteq> RemoveFriend pk') \<Longrightarrow>
   hm_contains (fs_friends (h_state h)) pk \<Longrightarrow> hm_contains (fs_friends (h_state h')) pk"
  using mfs_mutate_knows [of env mutation "h_m_state h" _ pk] by (auto simp: h_mutate_def rust_simps)

lemma fold_r_knows:
  assumes "fold_r f xs h = Ok h'" and "hm_contains (fs_friends (h_state h)) pk"
    and "\<And>x h h'. f x h = Ok h' \<Longrightarrow> hm_contains (fs_friends (h_state h)) pk \<Longrightarrow>
      hm_contains (fs_friends (h_state h')) pk"
  shows "hm_contains (fs_friends (h_state h')) pk"
  using fold_r_invariant [OF assms(1), where P = "\<lambda>h. hm_contains (fs_friends (h_state h)) pk"] assms(2,3)
  by blast

lemma remove_transaction_knows:
  assumes "remove_transaction env request_id h = (Ok h' :: ('e, _) result)"
    and "hm_contains (fs_friends (h_state h)) pk"
  shows "hm_contains (fs_friends (h_state h')) pk"
proof -
  from assms(1) obtain ot payment h1 opt_stage st h2 where
    "hm_get (fs_open_transactions (h_state h)) request_id = Some ot"
    and "hm_get (fs_payments (h_state h)) (ot_payment_id ot) = Some payment"
    and h1: "h_mutate env (RemoveTransaction request_id) h = (Ok h1 :: ('e, _) result)"
    and st: "stage_without_transaction (pay_stage payment) h1 = (Ok ((opt_stage, st), h2) :: ('e, _) result)"
    and h': "update_payment_stage env (ot_payment_id ot) (pay_src_plain_lock payment)
      (opt_stage, st) h2 = (Ok h' :: ('e, _) result)"
    by (auto simp: remove_transaction_def rust_simps)
  have "hm_contains (fs_friends (h_state h2)) pk"
    using h_mutate_knows [OF h1 _ assms(2)] stage_without_transaction_m_state [OF st] by simp
  with update_payment_stage_m_state [OF h'] show ?thesis
    by (rule mfs_mutate_knows) (simp add: set_stage_def split: option.splits)
qed

lemma cancel_by_origin_knows:
  "cancel_by_origin env c rid origin h = Ok h' \<Longrightarrow> hm_contains (fs_friends (h_state h)) pk \<Longrightarrow>
   hm_contains (fs_friends (h_state h')) pk"
  by (auto simp: cancel_by_origin_def reply_with_cancel_def h_mutate_friend_def rust_simps
      split: option.splits elim: h_mutate_knows remove_transaction_knows)

lemma cancel_local_pending_transactions_knows:
  assumes "cancel_local_pending_transactions env pk0 h = (Ok h' :: ('e, _) result)"
    and "hm_contains (fs_friends (h_state h)) pk"
  shows "hm_contains (fs_friends (h_state h')) pk"
proof -
  have inner: "hm_contains (fs_friends (h_state g')) pk"
    if "fold_r (cancel_local_transaction env c) ps g = (Ok g' :: ('e, _) result)"
      "hm_contains (fs_friends (h_state g)) pk" for c ps g g'
    using that by (rule fold_r_knows)
      (auto simp: cancel_local_transaction_def split: prod.splits elim: cancel_by_origin_knows)
  show ?thesis
    using assms
    by (auto simp: cancel_local_pending_transactions_def rust_simps ok_case_iffs
        elim!: fold_r_knows inner)
qed

lemma cancel_pending_requests_knows:
  assumes "cancel_pending_requests env pk0 choice h = (Ok h' :: ('e, _) result)"
    and "hm_contains (fs_friends (h_state h)) pk"
  shows "hm_contains (fs_friends (h_state h')) pk"
proof -
  have inner: "hm_contains (fs_friends (h_state g')) pk"
    if "cancel_chosen_requests env choice rs g = (Ok g' :: ('e, _) result)"
      "hm_contains (fs_friends (h_state g)) pk" for rs g g'
    using that unfolding cancel_chosen_requests_def
    by (rule fold_r_knows) (auto simp: cancel_request_def split: currency_choice.splits if_splits prod.splits
        elim: cancel_by_origin_knows)
  show ?thesis
    using assms
    by (auto simp: cancel_pending_requests_def h_mutate_friend_def rust_simps ok_case_iffs
        elim!: inner h_mutate_knows)
qed

lemma control_remove_friend_steps:
  assumes "control_remove_friend env pk h = Ok h'" and "fsteps env m (h_m_state h)"
  shows "fsteps env m (h_m_state h')"
proof -
  from assms(1) obtain friend h1 h2 where
    pk: "hm_get (fs_friends (h_state h)) pk = Some friend"
    and h1: "disable_friend env pk h = (Ok h1 :: (handle_control_error, _) result)"
    and h2: "cancel_local_pending_transactions env pk h1 = (Ok h2 :: (handle_control_error, _) result)"
    and h': "h_mutate env (RemoveFriend pk) h2 = (Ok h' :: (handle_control_error, _) result)"
    by (auto simp: control_remove_friend_def rust_simps)
  have "hm_contains (fs_friends (h_state h1)) pk"
    using h1 pk cancel_pending_requests_knows [of env pk All h _ pk]
    by (auto simp: disable_friend_def rust_simps hm_contains_def h_config_def)
  then have "hm_contains (fs_friends (h_state h2)) pk"
    by (rule cancel_local_pending_transactions_knows [OF h2])
  moreover have "fsteps env m (h_m_state h2)"
    by (rule cancel_local_pending_transactions_steps [OF h2 disable_friend_steps [OF h1 assms(2)]])
  ultimately show ?thesis
    by (intro h_mutate_steps [OF h']) simp_all
qed

lemma control_node_steps:
  "control_add_relay env n relay h = Ok h' \<Longrightarrow> fsteps env m (h_m_state h) \<Longrightarrow>
     fsteps env m (h_m_state h')"
  "control_remove_relay env pk h = Ok h' \<Longrightarrow> fsteps env m (h_m_state h) \<Longrightarrow>
     fsteps env m (h_m_state h')"
  "control_add_friend env af h = Ok h' \<Longrightarrow> fsteps env m (h_m_state h) \<Longrightarrow>
     fsteps env m (h_m_state h')"
  by (auto simp: control_add_relay_def control_remove_relay_def control_add_friend_def rust_simps split: if_splits elim!: steps h_mutate_steps)

lemma control_create_payment_steps:
  assumes "control_create_payment env cp h = Ok h'" and "fsteps env m (h_m_state h)"
  shows "fsteps env m (h_m_state h')"
proof -
  define nt where "nt = \<lparr> nt_num_transactions = 0, nt_invoice_id = cp_invoice_id cp,
    nt_currency = cp_currency cp, nt_total_dest_payment = cp_total_dest_payment cp,
    nt_dest_public_key = cp_dest_public_key cp \<rparr>"
  from assms(1) obtain lock h1 where
    none: "hm_get (fs_payments (h_state h)) (cp_payment_id cp) = None"
    and h1: "h_rand h = (lock, h1)"
    and h': "h_mutate env (UpdatePayment (cp_payment_id cp)
      \<lparr> pay_src_plain_lock = lock, pay_stage = NewTransactions nt \<rparr>) h1 =
        (Ok h' :: (handle_control_error, _) result)"
    by (auto simp: control_create_payment_def Let_def ok_case_iffs hm_contains_def nt_def)
  have nt: "nt_num_transactions nt = 0" by (simp add: nt_def)
  have "fstep env (h_m_state h) (h_m_state h')"
    by (rule fstep.new_payment [OF none _ nt, where
          payment = "\<lparr> pay_src_plain_lock = lock, pay_stage = NewTransactions nt \<rparr>"])
      (use h_mutate_m_state [OF h'] h_rand_m_state [OF h1] in simp_all)
  with assms(2) show ?thesis by simp
qed

lemma unat_checked_succ: "u_checked_add n 1 = Some k \<Longrightarrow> unat k = unat n + 1" for n k :: u64
proof -
  assume "u_checked_add n 1 = Some k"
  then have "uint k = uint n + 1" by (simp add: int_simps)
  then have "int (unat k) = int (unat n) + 1" by (simp only: uint_nat)
  then show ?thesis by linarith
qed

lemma control_create_transaction_inner_steps:
  assumes "control_create_transaction_inner env n ct h = Ok h'"
    and none: "hm_get (fs_open_transactions (h_state h)) (ct_request_id ct) = None"
    and "fsteps env m (h_m_state h)"
  shows "fsteps env m (h_m_state h')"
proof -
  from assms(1) obtain payment nt pk h1 k h2 rq h3 where
    chk: "check_new_transaction n ct h = Ok (payment, nt, pk)"
    and h1: "h_mutate env (AddTransaction (ct_request_id ct) (ct_payment_id ct)) h =
      (Ok h1 :: (handle_control_error, _) result)"
    and k: "u_checked_add (nt_num_transactions nt) 1 = Some k"
    and h2: "h_mutate env (UpdatePayment (ct_payment_id ct)
      \<lparr> pay_src_plain_lock = pay_src_plain_lock payment,
        pay_stage = NewTransactions (nt \<lparr> nt_num_transactions := k \<rparr>) \<rparr>) h1 =
        (Ok h2 :: (handle_control_error, _) result)"
    and h3: "h_mutate_friend env pk (PushBackPendingUserRequest (nt_currency nt) rq) h2 =
      (Ok h3 :: (handle_control_error, _) result)"
    and h': "h_m_state h' = h_m_state h3"
    by (auto simp: control_create_transaction_inner_def rust_simps Let_def)
  have p: "hm_get (fs_payments (h_state h)) (ct_payment_id ct) = Some payment"
    and st: "pay_stage payment = NewTransactions nt"
    using chk by (auto simp: check_new_transaction_def rust_simps Let_def ok_case_iffs
        new_transactions_iff)
  have "fstep env (h_m_state h) (h_m_state h2)"
    by (rule fstep.new_transaction [OF none p, where
          stage = "NewTransactions (nt \<lparr> nt_num_transactions := k \<rparr>)" and
          lock = "pay_src_plain_lock payment"])
      (use unat_checked_succ [OF k] h_mutate_m_state [OF h1] h_mutate_m_state [OF h2] st in
        \<open>simp_all add: stage_num_def stage_ok_def set_stage_def\<close>)
  with assms(3) have "fsteps env m (h_m_state h2)" by simp
  then show ?thesis unfolding h' by (rule h_mutate_friend_steps [OF h3])
qed

lemma control_create_transaction_steps:
  assumes "control_create_transaction env n ct h = Ok h'" and "fsteps env m (h_m_state h)"
  shows "fsteps env m (h_m_state h')"
  using assms control_create_transaction_inner_steps [of env n ct h h' m]
  by (auto simp: control_create_transaction_def rust_simps ok_case_iffs
      split: result.splits option.splits prod.splits)

text \<open>A change of stage that keeps the number of transactions.\<close>

lemma change_stage_steps:
  assumes "h_mutate env (set_stage payment_id lock opt_stage) h = (Ok h' :: ('e, _) result)"
    and "hm_get (fs_payments (h_state h)) payment_id = Some payment"
    and "stage_loses 0 (pay_stage payment) opt_stage"
    and "fsteps env m (h_m_state h)"
  shows "fsteps env m (h_m_state h')"
  using fstep.change_stage [OF assms(2,3), of env lock "h_m_state h'"] h_mutate_m_state [OF assms(1)]
    assms(4)
  by simp

lemma control_request_close_payment_steps:
  assumes "control_request_close_payment env payment_id h = Ok h'"
    and "fsteps env m (h_m_state h)"
  shows "fsteps env m (h_m_state h')"
proof (cases "hm_get (fs_payments (h_state h)) payment_id")
  case None
  then show ?thesis using assms by (auto simp: control_request_close_payment_def)
next
  case (Some payment)
  with assms(1) obtain stage st h1 where
    c: "close_payment_stage (pay_stage payment) h =
      (Ok ((stage, st), h1) :: (handle_control_error, _) result)"
    by (auto simp: control_request_close_payment_def rust_simps)
  define h2 where "h2 = (case st of Some payment_status \<Rightarrow> h_control (ResponseClosePayment
      \<lparr> rcp_payment_id = payment_id, rcp_status = payment_status \<rparr>) h1 | None \<Rightarrow> h1)"
  have h2: "h_m_state h2 = h_m_state h1" by (simp add: h2_def split: option.splits)
  have h': "if stage = pay_stage payment then h' = h2
    else h_mutate env (set_stage payment_id (pay_src_plain_lock payment) (Some stage)) h2 =
      (Ok h' :: (handle_control_error, _) result)"
    using assms(1) Some c
    by (simp add: control_request_close_payment_def Let_def set_stage_def h2_def split: if_splits)
  have h1: "h_m_state h1 = h_m_state h"
    using c by (auto simp: close_payment_stage_def rust_simps Let_def
        split: payment_stage.splits if_splits prod.splits dest: h_rand_m_state)
  have "stage_loses 0 (pay_stage payment) (Some stage)" if "stage \<noteq> pay_stage payment"
    using c that by (cases "pay_stage payment") (auto simp: close_payment_stage_def rust_simps Let_def
        stage_loses_def stage_num_def stage_ok_def word_gt_0 split: if_splits prod.splits)
  with h' show ?thesis
    using assms(2) Some h1 h2 by (auto split: if_splits elim!: change_stage_steps)
qed

lemma control_ack_close_payment_steps:
  assumes "control_ack_close_payment env payment_id ack h = Ok h'"
    and "fsteps env m (h_m_state h)"
  shows "fsteps env m (h_m_state h')"
proof -
  from assms(1) obtain payment opt_stage where
    p: "hm_get (fs_payments (h_state h)) payment_id = Some payment"
    and st: "stage_loses 0 (pay_stage payment) opt_stage"
    and h': "h_mutate env (set_stage payment_id (pay_src_plain_lock payment) opt_stage) h =
      (Ok h' :: (handle_control_error, _) result)"
  proof -
    assume *: "\<And>payment opt_stage.
      hm_get (fs_payments (h_state h)) payment_id = Some payment \<Longrightarrow>
      stage_loses 0 (pay_stage payment) opt_stage \<Longrightarrow>
      h_mutate env (set_stage payment_id (pay_src_plain_lock payment) opt_stage) h =
        (Ok h' :: (handle_control_error, _) result) \<Longrightarrow> thesis"
    from assms(1) obtain payment where "hm_get (fs_payments (h_state h)) payment_id = Some payment"
      by (auto simp: control_ack_close_payment_def rust_simps)
    with assms(1) show thesis
      using * [of payment None] * [of payment "Some (AfterSuccessAck k)" for k]
      by (cases "pay_stage payment")
        (auto simp: control_ack_close_payment_def stage_loses_def stage_num_def stage_ok_def
          set_stage_def word_gt_0 split: if_splits)
  qed
  from change_stage_steps [OF h' p st assms(2)] show ?thesis .
qed

lemma control_invoice_steps:
  "control_add_invoice env iid c amount h = Ok h' \<Longrightarrow> fsteps env m (h_m_state h) \<Longrightarrow>
     fsteps env m (h_m_state h')"
  "control_cancel_invoice env iid h = Ok h' \<Longrightarrow> fsteps env m (h_m_state h) \<Longrightarrow>
     fsteps env m (h_m_state h')"
  "control_commit_invoice env commit h = Ok h' \<Longrightarrow> fsteps env m (h_m_state h) \<Longrightarrow>
     fsteps env m (h_m_state h')"
  by (auto simp: control_add_invoice_def control_cancel_invoice_def control_commit_invoice_def
      collect_incoming_transaction_def rust_simps Let_def ok_case_iffs h_rand_m_state
      elim!: steps h_mutate_steps fold_r_steps)

lemma handle_control_message_steps [steps]:
  "handle_control_message env n k control h = Ok h' \<Longrightarrow> fsteps env m (h_m_state h) \<Longrightarrow>
   fsteps env m (h_m_state h')"
  by (cases control)
    (auto elim!: control_friend_steps control_node_steps control_remove_friend_steps control_invoice_steps
      control_create_payment_steps control_create_transaction_steps
      control_request_close_payment_steps control_ack_close_payment_steps)

subsection \<open>Messages of friends\<close>

lemma gen_reset_terms_m_state:
  "gen_reset_terms tc h = Ok (terms, h') \<Longrightarrow> h_m_state h' = h_m_state h"
  by (auto simp: gen_reset_terms_def gen_channel_reset_token_def rust_simps Let_def ok_case_iffs
      dest: h_rand_m_state)

lemma add_missing_configs_steps [steps]:
  "add_missing_configs env pk bs h = Ok h' \<Longrightarrow> fsteps env m (h_m_state h) \<Longrightarrow>
   fsteps env m (h_m_state h')"
  by (auto simp: add_missing_configs_def rust_simps ok_case_iffs split: if_splits
      elim!: fold_r_steps steps)

lemma set_remote_relays_if_new_steps [steps]:
  "set_remote_relays_if_new env pk relays h = Ok h' \<Longrightarrow> fsteps env m (h_m_state h) \<Longrightarrow>
   fsteps env m (h_m_state h')"
  by (auto simp: set_remote_relays_if_new_def rust_simps ok_case_iffs elim!: steps)

lemma try_reset_channel_steps [steps]:
  "try_reset_channel env pk terms req h = Ok h' \<Longrightarrow> fsteps env m (h_m_state h) \<Longrightarrow>
   fsteps env m (h_m_state h')"
  by (auto simp: try_reset_channel_def rust_simps Let_def ok_case_iffs split: if_splits
      elim!: steps)

lemma queue_unsigned_response_steps:
  "fsteps env m m' \<Longrightarrow> fsteps env m (queue_unsigned_response pk c pt b m')"
  unfolding queue_unsigned_response_def by (erule rtranclp.rtrancl_into_rtrancl) (rule fstep.queue)

lemma handle_request_as_destination_steps [steps]:
  assumes "handle_request_as_destination env pk c rq h = (Ok h' :: ('e, _) result)"
    and "fsteps env m (h_m_state h)"
  shows "fsteps env m (h_m_state h')"
proof -
  obtain chk where chk: "check_request (h_state h) rq = (Ok chk :: ('e, _) result)"
    using assms(1) by (auto simp: handle_request_as_destination_def rust_simps)
  show ?thesis
    using assms chk
    by (cases chk)
      (auto simp: handle_request_as_destination_def rust_simps Let_def ok_case_iffs
        intro!: queue_unsigned_response_steps elim!: steps h_mutate_steps)
qed

lemma handle_request_send_funds_steps [steps]:
  "handle_request_send_funds env pk c rq h = Ok h' \<Longrightarrow> fsteps env m (h_m_state h) \<Longrightarrow>
   fsteps env m (h_m_state h')"
  by (auto simp: handle_request_send_funds_def forward_request_def rust_simps Let_def ok_case_iffs
      split: option.splits bool.splits elim!: steps)

lemma queue_backwards_op_steps [steps]:
  "queue_backwards_op env pk c op h = Ok h' \<Longrightarrow> fsteps env m (h_m_state h) \<Longrightarrow>
   fsteps env m (h_m_state h')"
  by (auto simp: queue_backwards_op_def rust_simps elim!: steps)

lemma handle_response_send_funds_steps [steps]:
  "handle_response_send_funds env c rs pt h = Ok h' \<Longrightarrow> fsteps env m (h_m_state h) \<Longrightarrow>
   fsteps env m (h_m_state h')"
  by (auto simp: handle_response_send_funds_def handle_own_response_def rust_simps ok_case_iffs
      elim!: steps h_mutate_steps)

lemma handle_cancel_send_funds_steps [steps]:
  "handle_cancel_send_funds env c cn pt h = Ok h' \<Longrightarrow> fsteps env m (h_m_state h) \<Longrightarrow>
   fsteps env m (h_m_state h')"
  by (auto simp: handle_cancel_send_funds_def rust_simps ok_case_iffs elim!: steps)

lemma first_collected_OkD:
  assumes "first_collected env c co ot pt n h = (Ok ((opt_stage, st), h') :: ('e, _) result)"
  shows "(\<exists>k rc ack. u_checked_sub n 1 = Some k \<and> opt_stage = Some (Success k rc ack)) \<and>
    h_m_state h' = h_m_state h"
  using assms
  by (auto simp: first_collected_def rust_simps Let_def ok_case_iffs dest: h_rand_m_state)

lemma stage_collected_loses:
  assumes "stage_collected env c co ot pt stage h = (Ok ((opt_stage, st), h') :: ('e, _) result)"
  shows "stage_loses 1 stage opt_stage \<and> h_m_state h' = h_m_state h"
  using assms
  by (cases stage)
    (auto simp: stage_collected_def rust_simps stage_loses_def stage_num_def stage_ok_def word_gt_0
      split: if_splits dest!: first_collected_OkD unat_checked_pred)

lemma handle_own_collect_steps [steps]:
  assumes "handle_own_collect env c co pt h = (Ok h' :: ('e, _) result)"
    and "fsteps env m (h_m_state h)"
  shows "fsteps env m (h_m_state h')"
proof -
  from assms(1) obtain ot payment opt_stage st h1 h2 where
    ot: "hm_get (fs_open_transactions (h_state h)) (co_request_id co) = Some ot"
    and p: "hm_get (fs_payments (h_state h)) (ot_payment_id ot) = Some payment"
    and st: "stage_collected env c co ot pt (pay_stage payment) h =
      (Ok ((opt_stage, st), h1) :: ('e, _) result)"
    and h2: "update_payment_stage env (ot_payment_id ot) (pay_src_plain_lock payment)
      (opt_stage, st) h1 = (Ok h2 :: ('e, _) result)"
    and h': "h_mutate env (RemoveTransaction (co_request_id co)) h2 = (Ok h' :: ('e, _) result)"
    by (auto simp: handle_own_collect_def rust_simps)
  have "mfs_mutate_all env [set_stage (ot_payment_id ot) (pay_src_plain_lock payment) opt_stage,
      RemoveTransaction (co_request_id co)] (h_m_state h) = Ok (h_m_state h')"
    using h_mutate_m_state [OF h'] update_payment_stage_m_state [OF h2]
      stage_collected_loses [OF st] by simp
  from fstep.end_transaction [OF ot p conjunct1 [OF stage_collected_loses [OF st]]
      disjI2 [OF refl] this] assms(2)
  show ?thesis by simp
qed

lemma handle_incoming_message_steps [steps]:
  "handle_incoming_message env pk c msg h = Ok h' \<Longrightarrow> fsteps env m (h_m_state h) \<Longrightarrow>
   fsteps env m (h_m_state h')"
  by (cases msg) (auto simp: handle_request_send_funds_cancel_def handle_collect_send_funds_def
      ok_case_iffs elim!: steps)

lemma handle_move_token_output_steps [steps]:
  "handle_move_token_output env pk c msgs h = Ok h' \<Longrightarrow> fsteps env m (h_m_state h) \<Longrightarrow>
   fsteps env m (h_m_state h')"
  by (auto simp: handle_move_token_output_def elim!: fold_r_steps steps)

lemma handle_move_token_error_steps [steps]:
  "handle_move_token_error env pk h = Ok h' \<Longrightarrow> fsteps env m (h_m_state h) \<Longrightarrow>
   fsteps env m (h_m_state h')"
  by (auto simp: handle_move_token_error_def rust_simps Let_def ok_case_iffs gen_reset_terms_m_state
      elim!: steps)

lemma clear_relays_transition_steps [steps]:
  "clear_relays_transition env pk h = Ok h' \<Longrightarrow> fsteps env m (h_m_state h) \<Longrightarrow>
   fsteps env m (h_m_state h')"
  by (clarsimp simp: clear_relays_transition_def rust_simps)
    (auto simp: rust_simps split: sent_local_relays.split_asm elim!: steps)

lemma handle_move_token_success_steps [steps]:
  assumes "handle_move_token_success env pk received wanted h = (Ok h' :: ('e, _) result)"
    and "fsteps env m (h_m_state h)"
  shows "fsteps env m (h_m_state h')"
  using assms
  by (cases received)
    (auto simp: handle_move_token_success_def rust_simps Let_def split: if_splits
      elim!: steps fold_r_steps)

lemma handle_move_token_request_steps [steps]:
  "handle_move_token_request env pk request h = Ok h' \<Longrightarrow> fsteps env m (h_m_state h) \<Longrightarrow>
   fsteps env m (h_m_state h')"
  by (auto simp: handle_move_token_request_def rust_simps Let_def ok_case_iffs elim!: steps)

lemma handle_inconsistency_error_steps [steps]:
  "handle_inconsistency_error env pk terms h = Ok h' \<Longrightarrow> fsteps env m (h_m_state h) \<Longrightarrow>
   fsteps env m (h_m_state h')"
  by (auto simp: handle_inconsistency_error_def rust_simps Let_def ok_case_iffs
      gen_reset_terms_m_state split: if_splits elim!: steps)

lemma handle_friend_message_steps [steps]:
  "handle_friend_message env pk msg h = Ok h' \<Longrightarrow> fsteps env m (h_m_state h) \<Longrightarrow>
   fsteps env m (h_m_state h')"
  by (cases msg) (auto simp: handle_friend_message_def rust_simps elim!: steps)

subsection \<open>The sender\<close>

lemma apply_local_reset_steps [steps]:
  "apply_local_reset env sign pk chi h = Ok h' \<Longrightarrow> fsteps env m (h_m_state h) \<Longrightarrow>
   fsteps env m (h_m_state h')"
  by (auto simp: apply_local_reset_def rust_simps Let_def ok_case_iffs h_rand_m_state
      elim!: steps)

lemma transmit_outgoing_steps [steps]:
  "transmit_outgoing pk wanted s = Ok s' \<Longrightarrow> fsteps env m (h_m_state (ss_h s)) \<Longrightarrow>
   fsteps env m (h_m_state (ss_h s'))"
  by (auto simp: transmit_outgoing_def push_message_def rust_simps)

lemma queue_pending_steps [steps]:
  "queue_pending env pk pop ops s = Ok (go, s') \<Longrightarrow> fsteps env m (h_m_state (fst s)) \<Longrightarrow>
   fsteps env m (h_m_state (fst s'))"
proof (induction ops arbitrary: s)
  case Nil
  then show ?case by (cases s) simp
next
  case (Cons op ops)
  then show ?case
    by (cases s; cases op) (auto simp: rust_simps ok_case_iffs elim!: Cons.IH steps)
qed

lemma queue_all_pending_steps [steps]:
  "queue_all_pending env pk s = Ok (go, s') \<Longrightarrow> fsteps env m (h_m_state (fst s)) \<Longrightarrow>
   fsteps env m (h_m_state (fst s'))"
  by (auto simp: queue_all_pending_def append_cancels_to_move_token_def queue_pending_requests_def
      rust_simps split: if_splits dest!: queue_pending_steps)

lemma collect_local_relays_steps [steps]:
  "collect_local_relays env pk resend s = Ok s' \<Longrightarrow> fsteps env m (h_m_state (fst s)) \<Longrightarrow>
   fsteps env m (h_m_state (fst s'))"
  by (auto simp: collect_local_relays_def rust_simps Let_def ok_case_iffs elim!: steps)

lemma collect_active_currencies_fst: "collect_active_currencies pk s = Ok s' \<Longrightarrow> fst s' = fst s"
  by (auto simp: collect_active_currencies_def rust_simps Let_def ok_case_iffs)

lemma collect_outgoing_move_token_steps [steps]:
  "collect_outgoing_move_token env pk resend s = Ok (go, s') \<Longrightarrow>
   fsteps env m (h_m_state (fst s)) \<Longrightarrow> fsteps env m (h_m_state (fst s'))"
  by (clarsimp simp: collect_outgoing_move_token_def rust_simps)
    (metis collect_active_currencies_fst collect_local_relays_steps queue_all_pending_steps)

lemma send_friend_iter1_steps [steps]:
  "send_friend_iter1 env sign max_ops pk cmds s = Ok s' \<Longrightarrow>
   fsteps env m (h_m_state (ss_h s)) \<Longrightarrow> fsteps env m (h_m_state (ss_h s'))"
  by (auto simp: send_friend_iter1_def push_message_def rust_simps Let_def ok_case_iffs
      split: if_splits elim!: steps dest!: collect_outgoing_move_token_steps)

lemma append_all_cancels_steps [steps]:
  "append_all_cancels env e tokens h = Ok (tokens', h') \<Longrightarrow> fsteps env m (h_m_state h) \<Longrightarrow>
   fsteps env m (h_m_state h')"
proof (induction tokens arbitrary: tokens' h)
  case (Cons token tokens)
  then show ?case
    by (cases token)
      (force simp: append_cancels_to_move_token_def rust_simps
        elim!: Cons.IH dest: queue_pending_steps [where m = m])
qed simp

lemma send_move_token_steps [steps]:
  "send_move_token env sign pk pmt s = Ok s' \<Longrightarrow>
   fsteps env m (h_m_state (ss_h s)) \<Longrightarrow> fsteps env m (h_m_state (ss_h s'))"
  by (auto simp: send_move_token_def push_message_def rust_simps Let_def ok_case_iffs h_rand_m_state
      elim!: steps fold_r_steps)

lemma fold_r_sender_steps:
  assumes "fold_r f xs s = Ok s'" and "fsteps env m (h_m_state (ss_h s))"
    and "\<And>x s s'. f x s = Ok s' \<Longrightarrow> fsteps env m (h_m_state (ss_h s)) \<Longrightarrow>
      fsteps env m (h_m_state (ss_h s'))"
  shows "fsteps env m (h_m_state (ss_h s'))"
  using fold_r_invariant [OF assms(1), where P = "\<lambda>s. fsteps env m (h_m_state (ss_h s))"]
    assms(2,3) by blast

lemma create_friend_messages_steps [steps]:
  "create_friend_messages env sign max_ops cmds h = Ok s \<Longrightarrow> fsteps env m (h_m_state h) \<Longrightarrow>
   fsteps env m (h_m_state (ss_h s))"
  by (auto simp: create_friend_messages_def rust_simps Let_def split: if_splits
      elim!: fold_r_sender_steps steps)

subsection \<open>One incoming message\<close>

lemma sign_responses_steps [steps]:
  assumes "sign_responses env sign h = Ok h'" and "fsteps env m (h_m_state h)"
  shows "fsteps env m (h_m_state h')"
proof -
  have "fsteps env m ((h_m_state h) \<lparr> mfs_unsigned_responses := [] \<rparr>)"
    using assms(2) fstep.queue by (rule rtranclp.rtrancl_into_rtrancl)
  then show ?thesis using assms(1)
    by (auto simp: sign_responses_def sign_response_def rust_simps Let_def ok_case_iffs
        h_rand_m_state elim!: fold_r_steps steps)
qed

lemma handle_init_m_state: "h_m_state (handle_init h) = h_m_state h" for h :: "'b hstate"
proof -
  have "h_m_state (fold (\<lambda>x. h_config (ConfigUpdateFriend x)) xs h) = h_m_state h"
    for xs and h :: "'b hstate"
    by (induction xs arbitrary: h) (auto simp: h_config_def)
  then show ?thesis by (simp add: handle_init_def Let_def h_config_def)
qed

lemma funder_handle_incoming_steps [steps]:
  assumes "funder_handle_incoming env limits incoming h = Ok (h', app)"
    and "fsteps env m (h_m_state h)"
  shows "fsteps env m (h_m_state h')"
  using assms
proof (cases "(env, limits, incoming, h)" rule: funder_handle_incoming.cases)
  case (3 env limits message h)
  then show ?thesis using assms
    by (cases message) (auto simp: rust_simps h_mutate_ephemeral_def Let_def split: if_splits
        elim!: steps)
qed (auto simp: handle_init_m_state ok_case_iffs rust_simps elim!: steps)

lemma funder_process_steps:
  "funder_process env sign limits incoming h = Ok (h', s) \<Longrightarrow> fsteps env m (h_m_state h) \<Longrightarrow>
   fsteps env m (h_m_state (ss_h s))"
  by (auto simp: funder_process_def rust_simps elim!: steps)

end
