(* ===== verification/Funder_Loop.thy ===== *)
theory Funder_Loop
  imports Funder_Handler
begin

text \<open>
  The loop of the funder (\<open>components/funder/src/funder.rs\<close>), the state of the node that the
  database holds (\<open>components/node/src/types.rs\<close>, with the configuration of the index client)
  and the database in a file (\<open>components/database/src/file_db.rs\<close>).

  The encoding of \<open>serde_json\<close> is a parameter (\<open>serde\<close>), and an event says whether the write to
  the file succeeds. The database is shared: requests of the index client interleave with those
  of the funder.
\<close>

section \<open>The state of the node\<close>

record 'b named_index_server_address =
  nis_public_key :: public_key
  nis_address :: 'b
  nis_name :: string

record 'b index_client_config =
  icc_index_servers :: "'b named_index_server_address list"

definition index_client_config_new :: "'b index_client_config" where
  "index_client_config_new = \<lparr> icc_index_servers = [] \<rparr>"

datatype 'b index_client_config_mutation =
    AddIndexServer "'b named_index_server_address"
  | RemoveIndexServer public_key

fun index_client_config_mutate ::
  "'b index_client_config_mutation \<Rightarrow> 'b index_client_config \<Rightarrow> ('e, 'b index_client_config) result"
where
  "index_client_config_mutate (AddIndexServer server) config =
     Ok (config \<lparr> icc_index_servers :=
       filter (\<lambda>s. nis_public_key s \<noteq> nis_public_key server) (icc_index_servers config) @
         [server] \<rparr>)"
| "index_client_config_mutate (RemoveIndexServer public_key) config =
     Ok (config \<lparr> icc_index_servers :=
       filter (\<lambda>s. nis_public_key s \<noteq> public_key) (icc_index_servers config) \<rparr>)"

datatype 'b node_mutation =
    NodeFunder "'b funder_mutation"
  | NodeIndexClient "'b index_client_config_mutation"

record 'b node_state =
  ns_funder_state :: "'b funder_state"
  ns_index_client_config :: "'b index_client_config"

definition node_state_new :: "public_key \<Rightarrow> 'b node_state" where
  "node_state_new local_public_key =
     \<lparr> ns_funder_state = funder_state_new local_public_key [],
       ns_index_client_config = index_client_config_new \<rparr>"

fun node_mutate :: "'b env \<Rightarrow> 'b node_mutation \<Rightarrow> 'b node_state \<Rightarrow> ('e, 'b node_state) result" where
  "node_mutate env (NodeFunder funder_mutation) node =
     and_then (funder_mutate env funder_mutation (ns_funder_state node)) (\<lambda>funder_state.
     Ok (node \<lparr> ns_funder_state := funder_state \<rparr>))"
| "node_mutate env (NodeIndexClient mutation) node =
     and_then (index_client_config_mutate mutation (ns_index_client_config node)) (\<lambda>config.
     Ok (node \<lparr> ns_index_client_config := config \<rparr>))"

section \<open>The database\<close>

record ('s, 'f) serde =
  to_string_pretty :: "'s \<Rightarrow> 'f option"
  from_str :: "'f \<Rightarrow> 's option"

datatype 'e file_db_error =
  OpenError | WriteError | SerdeJsonError | MutateError 'e | FileAlreadyExists

record ('s, 'f) file_db =
  fdb_state :: 's
  fdb_file :: 'f

definition file_db_create ::
  "('s, 'f) serde \<Rightarrow> bool \<Rightarrow> 'f option \<Rightarrow> 's \<Rightarrow> ('e file_db_error, ('s, 'f) file_db) result" where
  "file_db_create serde write_ok opt_file initial_state =
     and_then (fail_if (opt_file \<noteq> None) FileAlreadyExists) (\<lambda>_.
     and_then (ok_or (to_string_pretty serde initial_state) SerdeJsonError) (\<lambda>ser_string.
     and_then (fail_if (\<not> write_ok) WriteError) (\<lambda>_.
     and_then (ok_or (from_str serde ser_string) SerdeJsonError) (\<lambda>state.
     Ok \<lparr> fdb_state = state, fdb_file = ser_string \<rparr>))))"

definition file_db_load ::
  "('s, 'f) serde \<Rightarrow> 'f option \<Rightarrow> ('e file_db_error, ('s, 'f) file_db) result" where
  "file_db_load serde opt_file =
     and_then (ok_or opt_file OpenError) (\<lambda>ser_string.
     and_then (ok_or (from_str serde ser_string) SerdeJsonError) (\<lambda>state.
     Ok \<lparr> fdb_state = state, fdb_file = ser_string \<rparr>))"

text \<open>The loop over the mutations: the state it has reached, and how it ended.\<close>

fun mutate_db_loop ::
  "('m \<Rightarrow> 's \<Rightarrow> ('e, 's) result) \<Rightarrow> 'm list \<Rightarrow> 's \<Rightarrow> 's \<times> ('e, unit) result" where
  "mutate_db_loop mutate [] s = (s, Ok ())"
| "mutate_db_loop mutate (mutation # mutations) s =
     (case mutate mutation s of
        Ok s' \<Rightarrow> mutate_db_loop mutate mutations s'
      | Err e \<Rightarrow> (s, Err e)
      | Panic \<Rightarrow> (s, Panic))"

definition mutate_db ::
  "('m \<Rightarrow> 's \<Rightarrow> ('e, 's) result) \<Rightarrow> ('s, 'f) serde \<Rightarrow> bool \<Rightarrow> 'm list \<Rightarrow> ('s, 'f) file_db \<Rightarrow>
   ('s, 'f) file_db \<times> ('e file_db_error, unit) result"
where
  "mutate_db mutate serde write_ok mutations db =
     (case mutate_db_loop mutate mutations (fdb_state db) of (state, res) \<Rightarrow>
      let db = db \<lparr> fdb_state := state \<rparr> in
      case and_then (map_err MutateError res) (\<lambda>_.
          and_then (ok_or (to_string_pretty serde state) SerdeJsonError) (\<lambda>ser_string.
          and_then (fail_if (\<not> write_ok) WriteError) (\<lambda>_. Ok ser_string))) of
        Ok ser_string \<Rightarrow> (db \<lparr> fdb_file := ser_string \<rparr>, Ok ())
      | Err e \<Rightarrow> (db, Err e)
      | Panic \<Rightarrow> (db, Panic))"

section \<open>The loop\<close>

datatype funder_error = FE_IncomingControlClosed | FE_IncomingCommClosed | FE_DbError

text \<open>
  What the node's tasks do next: the funder takes a message, drawing from a given source of
  randomness; one of its streams closes; or the index client changes its configuration.
\<close>

datatype 'b node_event =
    FunderIncoming rng bool "'b funder_incoming"
  | IncomingControlClosed
  | IncomingCommClosed
  | IndexClientRequest bool "'b index_client_config_mutation"

record ('b, 'f) node =
  nd_funder_state :: "'b funder_state"
  nd_ephemeral :: ephemeral
  nd_db :: "('b node_state, 'f) file_db"
  nd_outgoing_comms :: "'b funder_outgoing_comm list"
  nd_outgoing_control :: "funder_outgoing_control list"

definition node_new :: "('b node_state, 'f) file_db \<Rightarrow> ('b, 'f) node" where
  "node_new db =
     \<lparr> nd_funder_state = ns_funder_state (fdb_state db), nd_ephemeral = ephemeral_new, nd_db = db,
       nd_outgoing_comms = [], nd_outgoing_control = [] \<rparr>"

definition apply_handler_output ::
  "'b env \<Rightarrow> ('b node_state, 'f) serde \<Rightarrow> bool \<Rightarrow> 'b funder_handler_output \<Rightarrow> ('b, 'f) node \<Rightarrow>
   ('b, 'f) node \<times> (funder_error, unit) result"
where
  "apply_handler_output env serde write_ok out node =
     (case replay (funder_mutate env) (fho_funder_mutations out) (nd_funder_state node) of
        Ok funder_state \<Rightarrow>
          let (db, res) =
                (if fho_funder_mutations out = [] then (nd_db node, Ok ())
                 else mutate_db (node_mutate env) serde write_ok
                   (map NodeFunder (fho_funder_mutations out)) (nd_db node));
              node = node \<lparr> nd_funder_state := funder_state, nd_db := db \<rparr>
          in (case res of
                Ok _ \<Rightarrow>
                  (node \<lparr> nd_ephemeral :=
                       fold ephemeral_mutate (fho_ephemeral_mutations out) (nd_ephemeral node),
                     nd_outgoing_comms := nd_outgoing_comms node @ fho_outgoing_comms out,
                     nd_outgoing_control := nd_outgoing_control node @ fho_outgoing_control out \<rparr>,
                   Ok ())
              | Err (_ :: unit file_db_error) \<Rightarrow> (node, Err FE_DbError)
              | Panic \<Rightarrow> (node, Panic))
      | Err (_ :: unit) \<Rightarrow> (node, Panic)
      | Panic \<Rightarrow> (node, Panic))"

fun node_step ::
  "'b env \<Rightarrow> (u8 list \<Rightarrow> signature) \<Rightarrow> ('b node_state, 'f) serde \<Rightarrow> funder_limits \<Rightarrow> 'b node_event \<Rightarrow>
   ('b, 'f) node \<Rightarrow> ('b, 'f) node \<times> (funder_error, unit) result"
where
  "node_step env sign serde limits (FunderIncoming r write_ok incoming) node =
     (case funder_handle_message env sign r (nd_funder_state node) (nd_ephemeral node) limits
         incoming of
        Ok out \<Rightarrow> apply_handler_output env serde write_ok out node
      | Err _ \<Rightarrow> (node, Ok ())
      | Panic \<Rightarrow> (node, Panic))"
| "node_step env sign serde limits IncomingControlClosed node = (node, Err FE_IncomingControlClosed)"
| "node_step env sign serde limits IncomingCommClosed node = (node, Err FE_IncomingCommClosed)"
| "node_step env sign serde limits (IndexClientRequest write_ok mutation) node =
     (case mutate_db (node_mutate env) serde write_ok [NodeIndexClient mutation] (nd_db node) of
        (db, Ok _) \<Rightarrow> (node \<lparr> nd_db := db \<rparr>, Ok ())
      | (db, Err (_ :: unit file_db_error)) \<Rightarrow> (node \<lparr> nd_db := db \<rparr>, Err FE_DbError)
      | (db, Panic) \<Rightarrow> (node \<lparr> nd_db := db \<rparr>, Panic))"

fun node_run ::
  "'b env \<Rightarrow> (u8 list \<Rightarrow> signature) \<Rightarrow> ('b node_state, 'f) serde \<Rightarrow> funder_limits \<Rightarrow>
   'b node_event list \<Rightarrow> ('b, 'f) node \<Rightarrow> ('b, 'f) node \<times> (funder_error, unit) result"
where
  "node_run env sign serde limits [] node = (node, Ok ())"
| "node_run env sign serde limits (event # events) node =
     (case node_step env sign serde limits event node of
        (node, Ok _) \<Rightarrow> node_run env sign serde limits events node
      | stopped \<Rightarrow> stopped)"

text \<open>The message \<open>Init\<close> comes first.\<close>

definition inner_funder_loop ::
  "'b env \<Rightarrow> (u8 list \<Rightarrow> signature) \<Rightarrow> ('b node_state, 'f) serde \<Rightarrow> funder_limits \<Rightarrow> rng \<Rightarrow>
   'b node_event list \<Rightarrow> ('b node_state, 'f) file_db \<Rightarrow>
   ('b, 'f) node \<times> (funder_error, unit) result"
where
  "inner_funder_loop env sign serde limits r events db =
     node_run env sign serde limits (FunderIncoming r True Init # events) (node_new db)"

section \<open>A concrete node\<close>

text \<open>A database that stores the state itself, limits, and a source of bytes that counts.\<close>

definition sample_serde :: "('s, 's) serde" where
  "sample_serde = \<lparr> to_string_pretty = Some, from_str = Some \<rparr>"

definition sample_limits :: funder_limits where
  "sample_limits = \<lparr> lim_max_node_relays = 4, lim_max_operations_in_batch = 8,
     lim_max_pending_user_requests = 8 \<rparr>"

definition sample_rng :: rng where
  "sample_rng = \<lparr> rng_tape = of_nat, rng_pos = 0 \<rparr>"

definition sample_create_payment :: "unit funder_incoming" where
  "sample_create_payment = Control 1 (ControlCreatePayment
     \<lparr> cp_payment_id = 1, cp_invoice_id = 2, cp_currency = Currency ''FST'',
       cp_total_dest_payment = 10, cp_dest_public_key = 2 \<rparr>)"

definition sample_events :: "unit node_event list" where
  "sample_events =
     [FunderIncoming sample_rng True sample_create_payment,
      IndexClientRequest False (AddIndexServer
        \<lparr> nis_public_key = 3, nis_address = (), nis_name = ''x'' \<rparr>)]"

text \<open>
  A node with one friend, who is online; in the currency \<open>FST\<close> its balance is 100.
  The node has an open invoice and a payment with one open transaction.
\<close>

definition sample_token :: move_token_hashed where
  "sample_token =
     \<lparr> mth_prefix_hash = 0,
       mth_token_info =
         \<lparr> ti_mc = \<lparr> mi_local_public_key = 2, mi_remote_public_key = 1, mi_balances = [] \<rparr>,
           ti_counters = \<lparr> ci_inconsistency_counter = 0, ci_move_token_counter = 0 \<rparr> \<rparr>,
       mth_rand_nonce = 0, mth_new_token = 0 \<rparr>"

definition sample_channel :: "mutual_credit \<Rightarrow> unit channel_consistent" where
  "sample_channel mc = channel_consistent_new
     \<lparr> tc_direction = TcIncoming \<lparr> tci_move_token_in = sample_token \<rparr>,
       tc_mutual_credits = [(Currency ''FST'', mc)],
       tc_active_currencies = \<lparr> ac_local = [Currency ''FST''], ac_remote = [Currency ''FST''] \<rparr> \<rparr>"

definition sample_credit :: mutual_credit where
  "sample_credit = mutual_credit_new 1 2 (Currency ''FST'') 100"

definition sample_pending :: "uid \<Rightarrow> pending_transaction" where
  "sample_pending request_id =
     \<lparr> pt_request_id = request_id, pt_route = [3], pt_dest_payment = 10, pt_total_dest_payment = 10,
       pt_invoice_id = 9, pt_left_fees = 1, pt_src_hashed_lock = 11, pt_stage = Request \<rparr>"

definition sample_node :: "public_key \<Rightarrow> public_key \<Rightarrow> unit channel_status \<Rightarrow> unit hstate" where
  "sample_node local_pk remote_pk status = hstate_new
     \<lparr> fs_local_public_key = local_pk, fs_relays = [],
       fs_friends =
         [(remote_pk, \<lparr> fr_local_public_key = local_pk, fr_remote_public_key = remote_pk, fr_remote_relays = [],
            fr_sent_local_relays = LastSent [], fr_name = ''b'',
            fr_currency_configs = [(Currency ''FST'', currency_config_new)],
            fr_status = Enabled, fr_channel_status = status \<rparr>)],
       fs_open_invoices = [(9, open_invoice_new (Currency ''FST'') 100 12)],
       fs_open_transactions = [(7, \<lparr> ot_payment_id = 1, ot_opt_response = None \<rparr>)],
       fs_payments =
         [(1, \<lparr> pay_src_plain_lock = 11,
            pay_stage = NewTransactions
              \<lparr> nt_num_transactions = 1, nt_invoice_id = 8, nt_currency = Currency ''FST'',
                nt_total_dest_payment = 10, nt_dest_public_key = 2 \<rparr> \<rparr>)] \<rparr>
     \<lparr> eph_liveness = \<lparr> lv_friends = [remote_pk] \<rparr> \<rparr> sample_rng"

definition sample_foreign_request :: request_send_funds_op where
  "sample_foreign_request =
     \<lparr> rq_request_id = 5, rq_src_hashed_lock = 11, rq_route = [], rq_dest_payment = 40,
       rq_total_dest_payment = 100, rq_invoice_id = 9, rq_left_fees = 0 \<rparr>"

lemmas sample_simps = sample_node_def hstate_new_def mutable_funder_state_new_def hm_get_def
  sample_foreign_request_def sample_channel_def channel_consistent_new_def

end
