(* ===== verification/Reset_Protocol.thy ===== *)
theory Reset_Protocol
  imports Tc_Protocol Handler_Steps Funder_Loop
begin

text \<open>
  The reset of an inconsistent channel, from end to end: \<open>gen_reset_terms\<close> and
  \<open>try_reset_channel\<close> of \<open>handler/handle_friend.rs\<close> on the side that offers terms,
  \<open>apply_local_reset\<close> of \<open>handler/sender.rs\<close> on the side that accepts them.
\<close>

section \<open>The terms\<close>

lemma balances_for_reset_OkD:
  "balances_for_reset mcs = (Ok cbs :: ('e, _) result) \<Longrightarrow>
   list_all2 (\<lambda>(c, mc) cb. cb_currency cb = c \<and>
     balance_for_reset mc = (Ok (cb_balance cb) :: ('e, _) result)) mcs cbs"
  by (induction mcs arbitrary: cbs rule: balances_for_reset.induct) (auto simp: rust_simps)

lemma list_all2_currencies:
  "list_all2 (\<lambda>(c, mc) cb. cb_currency cb = c \<and> P mc cb) mcs cbs \<Longrightarrow>
   map cb_currency cbs = map fst mcs"
  by (induction rule: list_all2_induct) auto

definition terms_ok :: "reset_terms \<Rightarrow> bool" where
  "terms_ok terms \<longleftrightarrow>
     sorted_wrt (<) (map cb_currency (rt_balance_for_reset terms)) \<and>
     list_all (\<lambda>cb. sint (cb_balance cb) \<noteq> - (2 ^ 127)) (rt_balance_for_reset terms)"

lemma gen_reset_terms_OkD:
  assumes "gen_reset_terms tc h = (Ok (terms, h') :: ('e, _) result)"
    and "hm_wf (tc_mutual_credits tc)"
  shows "sorted_wrt (<) (map cb_currency (rt_balance_for_reset terms)) \<and>
    (\<forall>c mc. hm_get (tc_mutual_credits tc) c = Some mc \<longrightarrow>
      (\<exists>cb\<in>set (rt_balance_for_reset terms). cb_currency cb = c \<and>
        balance_for_reset mc = (Ok (cb_balance cb) :: ('e, _) result)))"
proof -
  let ?mcs = "sort_key fst (tc_mutual_credits tc)" and ?cbs = "rt_balance_for_reset terms"
  have a2: "list_all2 (\<lambda>(c, mc) cb. cb_currency cb = c \<and>
      balance_for_reset mc = (Ok (cb_balance cb) :: ('e, _) result)) ?mcs ?cbs"
    using assms(1) balances_for_reset_OkD by (auto simp: gen_reset_terms_def rust_simps Let_def
        split: prod.splits)
  have "sorted (map fst ?mcs)" "distinct (map fst ?mcs)"
    using assms(2) by (simp_all add: hm_wf_def hm_keys_def distinct_map inj_on_def)
  then have "sorted_wrt (<) (map cb_currency ?cbs)"
    by (simp add: list_all2_currencies [OF a2] strict_sorted_iff)
  moreover have "\<exists>cb\<in>set ?cbs. cb_currency cb = c \<and>
      balance_for_reset mc = (Ok (cb_balance cb) :: ('e, _) result)"
    if "hm_get (tc_mutual_credits tc) c = Some mc" for c mc
  proof -
    have "(c, mc) \<in> set ?mcs" using hm_get_SomeD [OF that] by simp
    then obtain i where "i < length ?mcs" "?mcs ! i = (c, mc)" unfolding in_set_conv_nth by blast
    with list_all2_nthD [OF a2, of i] list_all2_lengthD [OF a2] show ?thesis
      by (intro bexI [of _ "?cbs ! i"]) auto
  qed
  ultimately show ?thesis by blast
qed

abbreviation flip_reset_balance :: "currency_balance \<Rightarrow> currency_balance_info" where
  "flip_reset_balance cb \<equiv>
     \<lparr> cbi_currency = cb_currency cb,
       cbi_balance_info = \<lparr> bi_balance = - cb_balance cb, bi_local_pending_debt = 0,
         bi_remote_pending_debt = 0 \<rparr> \<rparr>"

lemma fits_neg:
  "sint b \<noteq> - (2 ^ 127) \<Longrightarrow> fits_i 128 (- sint b) \<and> sint (- b) = - sint b" for b :: i128
proof -
  assume "sint b \<noteq> - (2 ^ 127)"
  then have f: "fits_i 128 (- sint b)"
    using sint_range_size [of b] by (simp add: fits_i_def word_size)
  then show ?thesis
    using i_checked_neg_Some [of b "- b"] by (simp add: i_checked_neg_def)
qed

lemma flip_reset_balances_Ok:
  "list_all (\<lambda>cb. sint (cb_balance cb) \<noteq> - (2 ^ 127)) cbs \<Longrightarrow>
   flip_reset_balances cbs = Ok (map flip_reset_balance cbs)"
  by (induction cbs) (simp_all add: i_checked_neg_def fits_neg)

lemma reset_info_ok_terms:
  assumes "terms_ok terms"
    and "mi_balances (ti_mc info) = map flip_reset_balance (rt_balance_for_reset terms)"
  shows "reset_info_ok info"
  using assms fits_i_sint [where 'a = 128]
  by (auto simp: reset_info_ok_def terms_ok_def list_all_iff comp_def fits_neg)

section \<open>Configurations and relays\<close>

lemma update_config_keeps_channel:
  assumes "consistent_channel (h_state h) pk = (Ok ch :: ('e, _) result)"
  shows "\<exists>h'. h_mutate_friend env pk (UpdateCurrencyConfig c config) h = (Ok h' :: ('e, _) result) \<and>
    consistent_channel (h_state h') pk = (Ok ch :: ('e, _) result)"
  using assms
  by (auto simp: consistent_channel_def h_mutate_friend_def h_mutate_def mfs_mutate_def rust_simps
      hm_simps ok_case_iffs)

lemma add_missing_configs_keeps_channel:
  assumes "consistent_channel (h_state h) pk = (Ok ch :: ('e, _) result)"
  shows "\<exists>h'. add_missing_configs env pk cbs h = (Ok h' :: ('e, _) result) \<and>
    consistent_channel (h_state h') pk = (Ok ch :: ('e, _) result)"
proof -
  have "\<exists>h'. fold_r (\<lambda>cb h. if P cb then h_mutate_friend env pk
        (UpdateCurrencyConfig (cb_currency cb) config) h else Ok h) cbs h = (Ok h' :: ('e, _) result) \<and>
      consistent_channel (h_state h') pk = (Ok ch :: ('e, _) result)" for P config
    using assms
  proof (induction cbs arbitrary: h)
    case (Cons cb cbs)
    then show ?case
      using update_config_keeps_channel [OF Cons.prems, of env "cb_currency cb" config]
      by (cases "P cb") auto
  qed simp
  then show ?thesis
    using assms by (auto simp: add_missing_configs_def consistent_channel_def rust_simps)
qed

lemma set_remote_relays_keeps_channel:
  assumes "consistent_channel (h_state h) pk = (Ok ch :: ('e, _) result)"
  shows "\<exists>h'. set_remote_relays_if_new env pk opt_relays h = (Ok h' :: ('e, _) result) \<and>
    consistent_channel (h_state h') pk = (Ok ch :: ('e, _) result)"
proof -
  obtain friend where friend: "hm_get (fs_friends (h_state h)) pk = Some friend"
    using assms by (auto simp: consistent_channel_def rust_simps)
  show ?thesis
    using assms friend
    by (cases "opt_relays = None \<or> opt_relays = Some (fr_remote_relays friend)")
      (auto simp: set_remote_relays_if_new_def consistent_channel_def h_mutate_friend_def h_mutate_def
        mfs_mutate_def rust_simps hm_simps ok_case_iffs)
qed

section \<open>Both sides\<close>

text \<open>A channel that waits for a reset, with the same terms on both sides.\<close>

definition sample_inconsistent :: "reset_terms \<Rightarrow> channel_inconsistent" where
  "sample_inconsistent terms = \<lparr> chi_opt_last_incoming_move_token = None,
     chi_local_reset_terms = terms, chi_opt_remote_reset_terms = Some terms \<rparr>"

text \<open>The token information that the two sides agree on: from the view of the accepting side.\<close>

definition reset_token_info :: "public_key \<Rightarrow> public_key \<Rightarrow> reset_terms \<Rightarrow> token_info" where
  "reset_token_info local_pk remote_pk terms =
     \<lparr> ti_mc = \<lparr> mi_local_public_key = local_pk, mi_remote_public_key = remote_pk,
         mi_balances = map flip_reset_balance (rt_balance_for_reset terms) \<rparr>,
       ti_counters = \<lparr> ci_inconsistency_counter = rt_inconsistency_counter terms,
         ci_move_token_counter = 0 \<rparr> \<rparr>"

lemma apply_local_reset_Ok:
  assumes "hm_get (fs_friends (h_state h)) a = Some friend"
    and "chi_opt_remote_reset_terms chi = Some terms" and "terms_ok terms"
  shows "\<exists>h' relays nonce. apply_local_reset env sign a chi h = (Ok h' :: ('e, _) result) \<and>
    consistent_channel (h_state h') a = (Ok (channel_consistent_new (new_from_local_reset
      (sign_move_token env sign (create_unsigned_move_token env [] relays None
        (reset_token_info (fs_local_public_key (h_state h)) a terms) (rt_reset_token terms) nonce))
      (reset_token_info (fs_local_public_key (h_state h)) a terms)
      (chi_opt_last_incoming_move_token chi))) :: ('e, _) result)"
proof -
  let ?info = "reset_token_info (fs_local_public_key (h_state h)) a terms"
  obtain h1 where h1: "h_mutate_friend env a (SetSentLocalRelays
      (resent_local_relays (fs_relays (h_state h)) (fr_sent_local_relays friend))) h =
      (Ok h1 :: ('e, _) result)"
    and s1: "fs_local_public_key (h_state h1) = fs_local_public_key (h_state h)"
      "\<exists>friend1. hm_get (fs_friends (h_state h1)) a = Some friend1"
    using assms(1) by (auto simp: h_mutate_friend_def h_mutate_def mfs_mutate_def hm_simps)
  obtain nonce :: rand_value and h2 where h2: "h_rand h1 = (nonce, h2)" by (rule prod.exhaust)
  let ?mt = "sign_move_token env sign (create_unsigned_move_token env []
    (Some (map relay_address_from (fs_relays (h_state h1)))) None ?info (rt_reset_token terms) nonce)"
  let ?ch = "channel_consistent_new (new_from_local_reset ?mt ?info
    (chi_opt_last_incoming_move_token chi))"
  obtain h3 where h3: "h_mutate_friend env a (SetConsistent (new_from_local_reset ?mt ?info
      (chi_opt_last_incoming_move_token chi))) h2 = (Ok h3 :: ('e, _) result)"
    and ch: "consistent_channel (h_state h3) a = (Ok ?ch :: ('e, _) result)"
    using s1(2) h_rand_m_state [OF h2]
    by (auto simp: h_mutate_friend_def h_mutate_def mfs_mutate_def hm_simps consistent_channel_def)
  obtain h' where "add_missing_configs env a (rt_balance_for_reset terms) h3 = (Ok h' :: ('e, _) result)"
    and "consistent_channel (h_state h') a = (Ok ?ch :: ('e, _) result)"
    using add_missing_configs_keeps_channel [OF ch] by blast
  moreover have "flip_reset_balances (rt_balance_for_reset terms) =
      (Ok (map flip_reset_balance (rt_balance_for_reset terms)) :: ('e, _) result)"
    using assms(3) by (intro flip_reset_balances_Ok) (simp add: terms_ok_def)
  ultimately have "apply_local_reset env sign a chi h = (Ok h' :: ('e, _) result)"
    using assms(1,2) h1 h2 h3 s1(1) by (simp add: apply_local_reset_def Let_def reset_token_info_def)
  then show ?thesis using \<open>consistent_channel (h_state h') a = _\<close> by blast
qed

lemma try_reset_channel_Ok:
  assumes "hm_get (fs_friends (h_state h)) b = Some friend" and "terms_ok terms"
    and "mt_old_token mt = rt_reset_token terms" and "mt_currencies_operations mt = []"
    and "mt_info_hash mt = hash_token_info env (reset_token_info b (fs_local_public_key (h_state h)) terms)"
    and "verify_move_token env mt b"
    and "new_from_remote_reset env mt (reset_token_info b (fs_local_public_key (h_state h)) terms) =
      (Ok tc :: ('e, _) result)"
  shows "\<exists>h'. try_reset_channel env b terms \<lparr> mtr_move_token = mt, mtr_token_wanted = w \<rparr> h =
      (Ok h' :: ('e, _) result) \<and>
    consistent_channel (h_state h') b = (Ok (channel_consistent_new tc) :: ('e, _) result)"
proof -
  have flip: "flip_reset_balances (rt_balance_for_reset terms) =
      (Ok (map flip_reset_balance (rt_balance_for_reset terms)) :: ('e, _) result)"
    using assms(2) by (intro flip_reset_balances_Ok) (simp add: terms_ok_def)
  obtain h1 where h1: "h_mutate_friend env b (SetConsistent tc) h = (Ok h1 :: ('e, _) result)"
    and ch1: "consistent_channel (h_state h1) b = (Ok (channel_consistent_new tc) :: ('e, _) result)"
    using assms(1)
    by (auto simp: h_mutate_friend_def h_mutate_def mfs_mutate_def hm_simps consistent_channel_def)
  obtain h2 where h2: "add_missing_configs env b (rt_balance_for_reset terms) h1 =
      (Ok h2 :: ('e, _) result)"
    and ch2: "consistent_channel (h_state h2) b = (Ok (channel_consistent_new tc) :: ('e, _) result)"
    using add_missing_configs_keeps_channel [OF ch1] by blast
  obtain h3 where h3: "set_remote_relays_if_new env b (mt_opt_local_relays mt) h2 =
      (Ok h3 :: ('e, _) result)"
    and ch3: "consistent_channel (h_state h3) b = (Ok (channel_consistent_new tc) :: ('e, _) result)"
    using set_remote_relays_keeps_channel [OF ch2] by blast
  show ?thesis
    using flip h1 h2 h3 ch3 assms(3-7)
    by (simp add: try_reset_channel_def Let_def reset_token_info_def)
qed

lemma hm_get_reset_credits:
  assumes "sorted_wrt (<) (map cb_currency cbs)" and "cb \<in> set cbs"
  shows "hm_get (map (reset_credit a b uminus) (map flip_reset_balance cbs)) (cb_currency cb) =
    Some (mutual_credit_new a b (cb_currency cb) (cb_balance cb))"
  unfolding hm_get_def
proof (rule map_of_is_SomeI)
  show "distinct (map fst (map (reset_credit a b uminus) (map flip_reset_balance cbs)))"
    using assms(1) by (simp add: comp_def reset_credit_def strict_sorted_iff)
  show "(cb_currency cb, mutual_credit_new a b (cb_currency cb) (cb_balance cb))
      \<in> set (map (reset_credit a b uminus) (map flip_reset_balance cbs))"
    using assms(2) by (force simp: reset_credit_def)
qed

lemma verify_signed_move_token:
  "\<forall>msg. verify_signature env msg pk (sign msg) \<Longrightarrow> verify_move_token env (sign_move_token env sign u) pk"
  by (simp add: verify_move_token_def) (simp add: sign_move_token_def)

text \<open>The side that has offered the terms accepts the message of the other side.\<close>

lemma reset_message_accepted:
  assumes "hm_get (fs_friends (h_state h)) b = Some friend"
    and "fr_channel_status friend = Inconsistent chi" and "terms_ok (chi_local_reset_terms chi)"
    and "mt = sign_move_token env sign (create_unsigned_move_token env [] relays None
      (reset_token_info b (fs_local_public_key (h_state h)) (chi_local_reset_terms chi))
      (rt_reset_token (chi_local_reset_terms chi)) nonce)"
    and "\<forall>msg. verify_signature env msg b (sign msg)"
  shows "\<exists>h' inn. handle_friend_message env b (MoveTokenRequest
      \<lparr> mtr_move_token = mt, mtr_token_wanted = wanted \<rparr>) h = Ok h' \<and>
    consistent_channel (h_state h') b = (Ok (channel_consistent_new inn) :: (unit, _) result) \<and>
    tc_synced env (new_from_local_reset mt (reset_token_info b (fs_local_public_key (h_state h))
      (chi_local_reset_terms chi)) opt) inn \<and>
    tc_mutual_credits inn = map (reset_credit (fs_local_public_key (h_state h)) b uminus)
      (map flip_reset_balance (rt_balance_for_reset (chi_local_reset_terms chi)))"
proof -
  let ?info = "reset_token_info b (fs_local_public_key (h_state h)) (chi_local_reset_terms chi)"
  have info: "reset_info_ok ?info"
    by (rule reset_info_ok_terms [OF assms(3)]) (simp add: reset_token_info_def)
  obtain inn where inn: "new_from_remote_reset env mt ?info = (Ok inn :: (handle_friend_error, _) result)"
    and sync: "tc_synced env (new_from_local_reset mt ?info opt) inn"
    and credits: "tc_mutual_credits inn = map (reset_credit (fs_local_public_key (h_state h)) b uminus)
      (map flip_reset_balance (rt_balance_for_reset (chi_local_reset_terms chi)))"
    using reset_sync [OF info, of env mt opt, where 'e = handle_friend_error]
    by (auto simp: reset_token_info_def)
  have "verify_move_token env mt b"
    using verify_signed_move_token [OF assms(5)] by (simp add: assms(4))
  then obtain h' where "try_reset_channel env b (chi_local_reset_terms chi)
      \<lparr> mtr_move_token = mt, mtr_token_wanted = wanted \<rparr> h = (Ok h' :: (handle_friend_error, _) result)"
    and "consistent_channel (h_state h') b =
      (Ok (channel_consistent_new inn) :: (handle_friend_error, _) result)"
    using try_reset_channel_Ok [OF assms(1,3) _ _ _ _ inn, of wanted]
    by (auto simp: assms(4) sign_move_token_def create_unsigned_move_token_def)
  then show ?thesis
    using assms(1,2) sync credits
    by (auto simp: handle_friend_message_def handle_move_token_request_def
        intro: consistent_channel_cast)
qed

text \<open>
  C15. A reset restores a broken channel, from end to end. Node \<open>a\<close> has marked its channel as
  inconsistent and has generated reset terms from the last state of the channel; node \<open>b\<close> has
  received these terms, and its user agrees. If no balance is the least integer, then \<open>b\<close>
  succeeds in composing a signed reset message, \<open>a\<close> accepts this message, both have a
  consistent channel again, the two ends are synchronised, and in every currency the new
  balance of \<open>a\<close> is the one that it had announced, its old balance together with the credits
  that were frozen for the requests of \<open>b\<close>.
\<close>

theorem reset_restores_sync:
  assumes "gen_reset_terms tc h = (Ok (terms, h') :: (unit, _) result)"
    and "hm_wf (tc_mutual_credits tc)"
    and "\<forall>cb \<in> set (rt_balance_for_reset terms). sint (cb_balance cb) \<noteq> - (2 ^ 127)"
    and "hm_get (fs_friends (h_state ha)) b = Some friend_b"
    and "fr_channel_status friend_b = Inconsistent chi_a" and "chi_local_reset_terms chi_a = terms"
    and "fs_local_public_key (h_state ha) = a"
    and "hm_get (fs_friends (h_state hb)) a = Some friend_a"
    and "chi_opt_remote_reset_terms chi_b = Some terms"
    and "fs_local_public_key (h_state hb) = b"
    and "\<forall>msg. verify_signature env msg b (sign msg)"
  shows "\<exists>hb' ch_b tco ha' ch_a.
    apply_local_reset env sign a chi_b hb = (Ok hb' :: (unit, _) result) \<and>
    consistent_channel (h_state hb') a = (Ok ch_b :: (unit, _) result) \<and>
    tc_direction (ch_token_channel ch_b) = TcOutgoing tco \<and>
    handle_friend_message env b (MoveTokenRequest
      \<lparr> mtr_move_token = tco_move_token_out tco, mtr_token_wanted = wanted \<rparr>) ha = Ok ha' \<and>
    consistent_channel (h_state ha') b = (Ok ch_a :: (unit, _) result) \<and>
    tc_synced env (ch_token_channel ch_b) (ch_token_channel ch_a) \<and>
    (\<forall>c mc. hm_get (tc_mutual_credits tc) c = Some mc \<longrightarrow>
      (\<exists>mc'. hm_get (tc_mutual_credits (ch_token_channel ch_a)) c = Some mc' \<and>
        balance_for_reset mc = (Ok (mcb_balance (mc_balance mc')) :: (unit, _) result)))"
proof -
  have terms: "terms_ok terms"
    using gen_reset_terms_OkD [OF assms(1,2)] assms(3) by (simp add: terms_ok_def list_all_iff)
  let ?info = "reset_token_info b a terms"
  obtain hb' relays nonce where hb': "apply_local_reset env sign a chi_b hb = (Ok hb' :: (unit, _) result)"
    and ch_b: "consistent_channel (h_state hb') a = (Ok (channel_consistent_new (new_from_local_reset
      (sign_move_token env sign (create_unsigned_move_token env [] relays None ?info
        (rt_reset_token terms) nonce)) ?info (chi_opt_last_incoming_move_token chi_b))) :: (unit, _) result)"
    using apply_local_reset_Ok [OF assms(8,9) terms] assms(10) by blast
  define mt where "mt = sign_move_token env sign (create_unsigned_move_token env [] relays None ?info
    (rt_reset_token terms) nonce)"
  obtain ha' inn where ha': "handle_friend_message env b (MoveTokenRequest
      \<lparr> mtr_move_token = mt, mtr_token_wanted = wanted \<rparr>) ha = Ok ha'"
    and ch_a: "consistent_channel (h_state ha') b = (Ok (channel_consistent_new inn) :: (unit, _) result)"
    and sync: "tc_synced env (new_from_local_reset mt ?info (chi_opt_last_incoming_move_token chi_b)) inn"
    and credits: "tc_mutual_credits inn = map (reset_credit a b uminus)
      (map flip_reset_balance (rt_balance_for_reset terms))"
    using reset_message_accepted [OF assms(4,5), of mt env sign relays nonce wanted
        "chi_opt_last_incoming_move_token chi_b"] terms assms(6,7,11)
    by (auto simp: mt_def)
  have "\<exists>mc'. hm_get (tc_mutual_credits inn) c = Some mc' \<and>
      balance_for_reset mc = (Ok (mcb_balance (mc_balance mc')) :: (unit, _) result)"
    if mc: "hm_get (tc_mutual_credits tc) c = Some mc" for c mc
  proof -
    obtain cb where "cb \<in> set (rt_balance_for_reset terms)" "cb_currency cb = c"
      "balance_for_reset mc = (Ok (cb_balance cb) :: (unit, _) result)"
      using gen_reset_terms_OkD [OF assms(1,2)] mc by blast
    then show ?thesis
      using hm_get_reset_credits [of "rt_balance_for_reset terms" cb a b] terms credits
      by (auto simp: terms_ok_def mutual_credit_new_def mc_balance_new_def)
  qed
  then show ?thesis
    using hb' ch_b ha' ch_a sync
    by (intro exI conjI) (auto simp: mt_def channel_consistent_new_def new_from_local_reset_def Let_def)
qed

theorem reset_restores_sync_witness:
  "let tc = ch_token_channel (sample_channel sample_credit) in
   \<exists>terms h' hb' ch_b tco ha' ch_a.
    gen_reset_terms tc (sample_node 1 2 (Consistent (sample_channel sample_credit))) =
      (Ok (terms, h') :: (unit, _) result) \<and>
    apply_local_reset sample_env (sample_sign 2) 1 (sample_inconsistent terms)
      (sample_node 2 1 (Inconsistent (sample_inconsistent terms))) = (Ok hb' :: (unit, _) result) \<and>
    consistent_channel (h_state hb') 1 = (Ok ch_b :: (unit, _) result) \<and>
    tc_direction (ch_token_channel ch_b) = TcOutgoing tco \<and>
    handle_friend_message sample_env 2 (MoveTokenRequest
      \<lparr> mtr_move_token = tco_move_token_out tco, mtr_token_wanted = True \<rparr>)
      (sample_node 1 2 (Inconsistent (sample_inconsistent terms))) = Ok ha' \<and>
    consistent_channel (h_state ha') 2 = (Ok ch_a :: (unit, _) result) \<and>
    tc_synced sample_env (ch_token_channel ch_b) (ch_token_channel ch_a)"
proof -
  let ?tc = "ch_token_channel (sample_channel sample_credit)"
  let ?h = "sample_node 1 2 (Consistent (sample_channel sample_credit))"
  have b: "balance_for_reset sample_credit = (Ok 100 :: (unit, _) result)"
    by (simp add: sample_credit_def balance_for_reset_def mutual_credit_new_def mc_balance_new_def
        checked_add_unsigned_def i_checked_add_def fits_i_def)
  obtain token h' where "gen_channel_reset_token ?h = (token, h')" by (rule prod.exhaust)
  with b obtain terms where gen: "gen_reset_terms ?tc ?h = (Ok (terms, h') :: (unit, _) result)"
    and bal: "rt_balance_for_reset terms = [\<lparr> cb_currency = Currency ''FST'', cb_balance = 100 \<rparr>]"
    by (auto simp: gen_reset_terms_def sample_channel_def channel_consistent_new_def)
  have wf: "hm_wf (tc_mutual_credits ?tc)" by (simp add: sample_simps hm_wf_def hm_keys_def)
  have min: "\<forall>cb \<in> set (rt_balance_for_reset terms). sint (cb_balance cb) \<noteq> - (2 ^ 127)"
    by (simp add: bal)
  have sig: "\<forall>msg. verify_signature sample_env msg 2 (sample_sign 2 msg)"
    by (simp add: verify_signature_def sample_env_def)
  let ?ha = "sample_node 1 2 (Inconsistent (sample_inconsistent terms))"
  let ?hb = "sample_node 2 1 (Inconsistent (sample_inconsistent terms))"
  obtain fa fb where fb: "hm_get (fs_friends (h_state ?ha)) 2 = Some fb"
    and st: "fr_channel_status fb = Inconsistent (sample_inconsistent terms)"
    and fa: "hm_get (fs_friends (h_state ?hb)) 1 = Some fa"
    by (simp add: sample_simps)
  have keys: "fs_local_public_key (h_state ?ha) = 1" "fs_local_public_key (h_state ?hb) = 2"
    by (simp_all add: sample_simps)
  have chi: "chi_local_reset_terms (sample_inconsistent terms) = terms"
    "chi_opt_remote_reset_terms (sample_inconsistent terms) = Some terms"
    by (simp_all add: sample_inconsistent_def)
  show ?thesis
    unfolding Let_def
    using gen reset_restores_sync [OF gen wf min fb st chi(1) keys(1) fa chi(2) keys(2) sig, of True]
    by (elim exE conjE) (intro exI conjI)
qed

end
