(* ===== verification/Funder_Invariants.thy ===== *)
theory Funder_Invariants
  imports Handler_Steps Funder_Loop
begin

text \<open>
  Two invariants of the funder, both shown for the steps of \<open>Handler_Steps\<close> and hence for every
  message: the mutations that a message returns for the database replay from the old state to
  the new one (\<open>journaled\<close>), and every payment counts exactly its open transactions
  (\<open>payments_ok\<close>), which makes the lookup of a transaction's payment safe.
\<close>

definition journaled :: "'b env \<Rightarrow> 'b mutable_funder_state \<Rightarrow> bool" where
  "journaled env m \<longleftrightarrow>
     replay (funder_mutate env) (mfs_mutations m) (mfs_initial_state m) =
       (Ok (mfs_state m) :: (unit, _) result) \<and>
     funder_wf (mfs_initial_state m)"

text \<open>The number of open transactions of a payment.\<close>

definition open_count :: "payment_id \<Rightarrow> 'b funder_state \<Rightarrow> int" where
  "open_count payment_id state =
     hm.total (\<lambda>ot. if ot_payment_id ot = payment_id then 1 else 0) (fs_open_transactions state)"

definition account_ok :: "int \<Rightarrow> payment option \<Rightarrow> bool" where
  "account_ok n opt_payment \<longleftrightarrow>
     (case opt_payment of
        None \<Rightarrow> n = 0
      | Some payment \<Rightarrow> n = int (stage_num (pay_stage payment)) \<and> stage_ok (pay_stage payment))"

definition payments_ok :: "'b funder_state \<Rightarrow> bool" where
  "payments_ok state \<longleftrightarrow> (\<forall>payment_id.
     account_ok (open_count payment_id state) (hm_get (fs_payments state) payment_id))"

definition accounts_ok :: "'b mutable_funder_state \<Rightarrow> bool" where
  "accounts_ok m \<longleftrightarrow> funder_wf (mfs_state m) \<and> payments_ok (mfs_state m)"

section \<open>The journal\<close>

lemma mfs_mutate_journaled:
  "mfs_mutate env mutation m = (Ok m' :: (unit, _) result) \<Longrightarrow> journaled env m \<Longrightarrow> journaled env m'"
  by (auto simp: mfs_mutate_def journaled_def replay_append rust_simps)

lemma mfs_mutate_all_journaled:
  assumes "mfs_mutate_all env mutations m = Ok m'" and "journaled env m"
  shows "journaled env m'"
  using fold_r_invariant [OF assms(1), where P = "journaled env"] mfs_mutate_journaled assms(2)
  by blast

lemma fstep_mutates:
  "fstep env m m' \<Longrightarrow>
   (\<exists>mutations. mfs_mutate_all env mutations m = Ok m') \<or>
   (\<exists>rs. m' = m \<lparr> mfs_unsigned_responses := rs \<rparr>)"
  by (erule fstep.cases) (blast+)

lemma fstep_journaled: "fstep env m m' \<Longrightarrow> journaled env m \<Longrightarrow> journaled env m'"
  by (drule fstep_mutates) (auto intro: mfs_mutate_all_journaled, simp add: journaled_def)

interpretation jinv: step_invariant env "journaled env" for env :: "'b env"
  by unfold_locales (rule fstep_journaled)

lemma journaled_wf: "journaled env m \<Longrightarrow> funder_wf (mfs_state m)"
  using fsj.replay_wf [of env "mfs_mutations m" "mfs_initial_state m" "mfs_state m"]
  by (auto simp: journaled_def)

lemma fstep_initial:
  assumes "fstep env m m'"
  shows "mfs_initial_state m' = mfs_initial_state m"
proof -
  have "mfs_initial_state n' = mfs_initial_state n"
    if "mfs_mutate_all env mutations n = Ok n'" for mutations n n'
    using that by (induction mutations arbitrary: n) (auto simp: mfs_mutate_def rust_simps)
  then show ?thesis using fstep_mutates [OF assms] by auto
qed

section \<open>Payments\<close>

lemma open_count_nonneg: "funder_wf state \<Longrightarrow> 0 \<le> open_count pid state"
  by (simp add: open_count_def funder_wf_def hm.total_nonneg)

lemma open_count_payments [simp]:
  "open_count pid (state \<lparr> fs_payments := ps \<rparr>) = open_count pid state"
  by (simp add: open_count_def)

lemma open_count_add:
  assumes "funder_wf state" and "hm_get (fs_open_transactions state) request_id = None"
    and "fs_open_transactions state' = hm_insert request_id ot (fs_open_transactions state)"
  shows "open_count pid state' = open_count pid state + (if ot_payment_id ot = pid then 1 else 0)"
  using assms by (simp add: open_count_def funder_wf_def hm.total_insert_fresh)

lemma open_count_remove:
  assumes "funder_wf state" and "hm_get (fs_open_transactions state) request_id = Some ot"
    and "fs_open_transactions state' = hm_remove request_id (fs_open_transactions state)"
  shows "open_count pid state' = open_count pid state - (if ot_payment_id ot = pid then 1 else 0)"
  using assms hm.total_remove [of "fs_open_transactions state" request_id ot
      "\<lambda>ot. if ot_payment_id ot = pid then 1 else 0"]
  by (simp add: open_count_def funder_wf_def)

lemma account_ok_simps [simp]:
  "account_ok n None \<longleftrightarrow> n = 0"
  "account_ok n (Some payment) \<longleftrightarrow>
     n = int (stage_num (pay_stage payment)) \<and> stage_ok (pay_stage payment)"
  by (simp_all add: account_ok_def)

lemma payments_okD:
  "payments_ok state \<Longrightarrow>
   account_ok (open_count pid state) (hm_get (fs_payments state) pid)"
  by (simp add: payments_ok_def)

text \<open>A change of one payment, of the transactions or of both.\<close>

lemma payments_ok_update:
  assumes "payments_ok state"
    and "\<And>q. q \<noteq> pid \<Longrightarrow> hm_get (fs_payments state') q = hm_get (fs_payments state) q"
    and "\<And>q. q \<noteq> pid \<Longrightarrow> open_count q state' = open_count q state"
    and "account_ok (open_count pid state') (hm_get (fs_payments state') pid)"
  shows "payments_ok state'"
  using assms unfolding payments_ok_def by metis

lemma plain_mutation_payments_ok:
  assumes "plain_mutation mutation"
    and "funder_mutate env mutation state = (Ok state' :: (unit, _) result)"
    and "funder_wf state" and "payments_ok state"
  shows "payments_ok state'"
proof -
  have "fs_payments state' = fs_payments state \<and> open_count q state' = open_count q state" for q
    using assms(1-3)
    by (cases mutation)
      (auto simp: rust_simps open_count_def Let_def funder_wf_def hm.total_insert_same_weight)
  then show ?thesis using assms(4) by (simp add: payments_ok_def)
qed

text \<open>A transaction and the stage of its payment change together.\<close>

lemma set_stage_state:
  "funder_mutate env (set_stage pid lock opt_stage) state = Ok state' \<longleftrightarrow>
     state' = state \<lparr> fs_payments :=
       (case opt_stage of
          Some stage \<Rightarrow> hm_insert pid \<lparr> pay_src_plain_lock = lock, pay_stage = stage \<rparr>
            (fs_payments state)
        | None \<Rightarrow> hm_remove pid (fs_payments state)) \<rparr>"
  by (auto simp: set_stage_def split: option.splits)

lemma mfs_mutate_all_state:
  "mfs_mutate_all env mutations m = Ok m' \<Longrightarrow>
   replay (funder_mutate env) mutations (mfs_state m) = (Ok (mfs_state m') :: (unit, _) result)"
  by (induction mutations arbitrary: m) (force simp: mfs_mutate_def rust_simps)+

lemma end_transaction_payments_ok:
  assumes "hm_get (fs_open_transactions state) request_id = Some ot"
    and "hm_get (fs_payments state) (ot_payment_id ot) = Some payment"
    and "stage_loses 1 (pay_stage payment) opt_stage"
    and "mutations = [RemoveTransaction request_id, set_stage (ot_payment_id ot) lock opt_stage] \<or>
      mutations = [set_stage (ot_payment_id ot) lock opt_stage, RemoveTransaction request_id]"
    and "replay (funder_mutate env) mutations state = (Ok state' :: (unit, _) result)"
    and "funder_wf state" and "payments_ok state"
  shows "payments_ok state'"
  using assms(2-5) payments_okD [OF assms(7), of "ot_payment_id ot"]
  by (intro payments_ok_update [OF assms(7), where pid = "ot_payment_id ot"])
    (auto simp: rust_simps set_stage_state hm_simps open_count_remove [OF assms(6,1)]
      stage_loses_def split: option.splits)

lemma fstep_payments_ok:
  assumes "fstep env m m'" and wf: "funder_wf (mfs_state m)" and ok: "payments_ok (mfs_state m)"
  shows "payments_ok (mfs_state m')"
proof -
  obtain state' where s': "mfs_state m' = state'" by simp
  note replayed = mfs_mutate_all_state [of env _ m m', unfolded s']
  from assms(1) have "payments_ok state'"
  proof cases
    case (plain mutation)
    then show ?thesis
      using plain_mutation_payments_ok [OF plain(1) _ wf ok] replayed [OF plain(3)]
      by (auto simp: rust_simps)
  next
    case (queue rs)
    then show ?thesis using ok s' by auto
  next
    case (new_payment pid payment nt)
    then show ?thesis
      using payments_okD [OF ok, of pid] replayed [OF new_payment(4)]
      by (intro payments_ok_update [OF ok, where pid = pid])
        (auto simp: hm_simps stage_num_def stage_ok_def)
  next
    case (new_transaction request_id pid payment stage lock)
    then show ?thesis
      using payments_okD [OF ok, of pid] replayed [OF new_transaction(5)]
      by (intro payments_ok_update [OF ok, where pid = pid])
        (auto simp: rust_simps set_stage_state hm_simps open_count_add [OF wf new_transaction(1)])
  next
    case (end_transaction request_id ot payment opt_stage mutations lock)
    show ?thesis
      by (rule end_transaction_payments_ok [OF end_transaction(1-4)
            replayed [OF end_transaction(5)] wf ok])
  next
    case (change_stage pid payment opt_stage lock)
    then show ?thesis
      using payments_okD [OF ok, of pid] replayed [OF change_stage(3)]
      by (intro payments_ok_update [OF ok, where pid = pid])
        (auto simp: rust_simps set_stage_state hm_simps stage_loses_def split: option.splits)
  qed
  then show ?thesis by (simp add: s')
qed

lemma fstep_accounts_ok:
  assumes "fstep env m m'" and "accounts_ok m"
  shows "accounts_ok m'"
proof -
  have "funder_wf (mfs_state m')"
    using fstep_mutates [OF assms(1)] assms(2) fsj.replay_wf [OF mfs_mutate_all_state]
    by (auto simp: accounts_ok_def)
  then show ?thesis using fstep_payments_ok [OF assms(1)] assms(2) by (simp add: accounts_ok_def)
qed

interpretation ainv: step_invariant env accounts_ok for env :: "'b env"
  by unfold_locales (rule fstep_accounts_ok)

section \<open>One message\<close>

lemma funder_handle_message_OkD:
  assumes "funder_handle_message env sign r state e limits incoming = Ok out"
  obtains h s where "funder_process env sign limits incoming (hstate_new state e r) = Ok (h, s)"
    and "fsteps env (mutable_funder_state_new state) (h_m_state (ss_h s))"
    and "fho_funder_mutations out = mfs_mutations (h_m_state (ss_h s))"
proof -
  from assms obtain h s where
    p: "funder_process env sign limits incoming (hstate_new state e r) = Ok (h, s)"
    and out: "fho_funder_mutations out = mfs_mutations (h_m_state (ss_h s))"
    by (auto simp: funder_handle_message_def mfs_done_def rust_simps)
  have "fsteps env (mutable_funder_state_new state) (h_m_state (ss_h s))"
    by (rule funder_process_steps [OF p]) (simp add: hstate_new_def)
  with p out that show thesis by blast
qed

lemma fsteps_initial: "fsteps env m m' \<Longrightarrow> mfs_initial_state m' = mfs_initial_state m"
  by (induction rule: rtranclp_induct) (auto dest: fstep_initial)

lemma sample_payment_accepted:
  "\<exists>out. funder_handle_message sample_env (sample_sign 1) sample_rng (funder_state_new 1 [])
     ephemeral_new sample_limits sample_create_payment = Ok out"
proof -
  have "case funder_handle_message sample_env (sample_sign 1) sample_rng (funder_state_new 1 [])
      ephemeral_new sample_limits sample_create_payment of Ok _ \<Rightarrow> True | _ \<Rightarrow> False"
    by code_simp
  then show ?thesis by (auto split: result.splits)
qed

text \<open>
  C14. Whatever message the funder handles, the mutations that it returns for the database,
  applied in order to the state it started from, succeed without a panic and give exactly the
  state that the handlers, the signing of responses and the sender have worked out together;
  and that state is well formed again.
\<close>

theorem handled_message_journal:
  assumes "funder_handle_message env sign r state e limits incoming = Ok out"
    and "funder_wf state"
  shows "\<exists>h s. funder_process env sign limits incoming (hstate_new state e r) = Ok (h, s) \<and>
    replay (funder_mutate env) (fho_funder_mutations out) state =
      (Ok (h_state (ss_h s)) :: (unit, _) result) \<and>
    funder_wf (h_state (ss_h s))"
proof -
  obtain h s where p: "funder_process env sign limits incoming (hstate_new state e r) = Ok (h, s)"
    and steps: "fsteps env (mutable_funder_state_new state) (h_m_state (ss_h s))"
    and out: "fho_funder_mutations out = mfs_mutations (h_m_state (ss_h s))"
    by (rule funder_handle_message_OkD [OF assms(1)])
  have j: "journaled env (h_m_state (ss_h s))"
    by (rule jinv.inv_steps [OF steps])
      (simp add: journaled_def mutable_funder_state_new_def assms(2))
  with p out fsteps_initial [OF steps] journaled_wf [OF j] show ?thesis
    by (auto simp: journaled_def mutable_funder_state_new_def)
qed

theorem handled_message_journal_witness:
  "funder_wf (funder_state_new 1 [] :: unit funder_state) \<and>
   (\<exists>out h s. funder_handle_message sample_env (sample_sign 1) sample_rng (funder_state_new 1 [])
        ephemeral_new sample_limits sample_create_payment = Ok out \<and>
      funder_process sample_env (sample_sign 1) sample_limits sample_create_payment
        (hstate_new (funder_state_new 1 []) ephemeral_new sample_rng) = Ok (h, s) \<and>
      replay (funder_mutate sample_env) (fho_funder_mutations out) (funder_state_new 1 []) =
        (Ok (h_state (ss_h s)) :: (unit, _) result))"
proof -
  have wf: "funder_wf (funder_state_new 1 [] :: unit funder_state)" by code_simp
  obtain out where out: "funder_handle_message sample_env (sample_sign 1) sample_rng
      (funder_state_new 1 []) ephemeral_new sample_limits sample_create_payment = Ok out"
    using sample_payment_accepted by blast
  from wf out handled_message_journal [OF out wf] show ?thesis by blast
qed

lemma handled_message_accounts:
  assumes "funder_handle_message env sign r state e limits incoming = Ok out"
    and "funder_wf state" and "payments_ok state"
  shows "\<exists>state'. replay (funder_mutate env) (fho_funder_mutations out) state =
      (Ok state' :: (unit, _) result) \<and> funder_wf state' \<and> payments_ok state'"
proof -
  obtain h s where "funder_process env sign limits incoming (hstate_new state e r) = Ok (h, s)"
    and steps: "fsteps env (mutable_funder_state_new state) (h_m_state (ss_h s))"
    and out: "fho_funder_mutations out = mfs_mutations (h_m_state (ss_h s))"
    by (rule funder_handle_message_OkD [OF assms(1)])
  have "journaled env (h_m_state (ss_h s))"
    by (rule jinv.inv_steps [OF steps])
      (simp add: journaled_def mutable_funder_state_new_def assms(2))
  moreover have "accounts_ok (h_m_state (ss_h s))"
    by (rule ainv.inv_steps [OF steps])
      (simp add: accounts_ok_def mutable_funder_state_new_def assms)
  ultimately show ?thesis
    using out fsteps_initial [OF steps]
    by (auto simp: journaled_def accounts_ok_def mutable_funder_state_new_def)
qed

section \<open>Runs of a node\<close>

definition serde_ok :: "('s, 'f) serde \<Rightarrow> bool" where
  "serde_ok serde \<longleftrightarrow> (\<forall>s f. to_string_pretty serde s = Some f \<longrightarrow> from_str serde f = Some s)"

definition node_state_ok :: "'b node_state \<Rightarrow> bool" where
  "node_state_ok ns \<longleftrightarrow> funder_wf (ns_funder_state ns) \<and> payments_ok (ns_funder_state ns) \<and>
     distinct (map nis_public_key (icc_index_servers (ns_index_client_config ns)))"

text \<open>The file can be loaded, and holds a state with the invariants.\<close>

definition file_ok :: "('b node_state, 'f) serde \<Rightarrow> ('b node_state, 'f) file_db \<Rightarrow> bool" where
  "file_ok serde db \<longleftrightarrow>
     (\<exists>ns. file_db_load serde (Some (fdb_file db)) =
        (Ok \<lparr> fdb_state = ns, fdb_file = fdb_file db \<rparr> :: (unit file_db_error, _) result) \<and>
      node_state_ok ns)"

definition node_ok :: "('b node_state, 'f) serde \<Rightarrow> ('b, 'f) node \<Rightarrow> bool" where
  "node_ok serde node \<longleftrightarrow>
     nd_funder_state node = ns_funder_state (fdb_state (nd_db node)) \<and>
     from_str serde (fdb_file (nd_db node)) = Some (fdb_state (nd_db node)) \<and>
     node_state_ok (fdb_state (nd_db node))"

lemma node_ok_file_ok: "node_ok serde node \<Longrightarrow> file_ok serde (nd_db node)"
  by (auto simp: node_ok_def file_ok_def file_db_load_def)

lemma mutate_db_loop_funder:
  "replay (funder_mutate env) ms (ns_funder_state ns) = (Ok state :: ('e, _) result) \<Longrightarrow>
   mutate_db_loop (node_mutate env) (map NodeFunder ms) ns =
     (ns \<lparr> ns_funder_state := state \<rparr>, Ok () :: ('e, unit) result)"
  by (induction ms arbitrary: ns) (auto simp: rust_simps)

text \<open>A request to the database writes the new state, or leaves the file as it is.\<close>

lemma mutate_db_cases:
  assumes "mutate_db_loop mutate ms (fdb_state db) = (s, Ok ())"
    and "mutate_db mutate serde write_ok ms db = (db', res)"
    and "serde_ok serde"
  shows "fdb_state db' = s \<and>
    (res = Ok () \<and> from_str serde (fdb_file db') = Some s \<or>
     (\<exists>e. res = Err e) \<and> fdb_file db' = fdb_file db)"
  using assms
  by (cases "to_string_pretty serde s")
    (auto simp: mutate_db_def serde_ok_def Let_def fail_if_def split: if_splits)

lemma mutate_db_node_ok:
  assumes "mutate_db_loop mutate ms (fdb_state (nd_db node)) = (ns, Ok ())"
    and "mutate_db mutate serde write_ok ms (nd_db node) = (db, res)"
    and "serde_ok serde" and "node_ok serde node" and "node_state_ok ns"
  shows "file_ok serde db \<and> fdb_state db = ns \<and> (res = Ok () \<or> (\<exists>e. res = Err e)) \<and>
    (res = Ok () \<longrightarrow> from_str serde (fdb_file db) = Some ns)"
  using mutate_db_cases [OF assms(1-3)] node_ok_file_ok [OF assms(4)] assms(5)
  by (auto simp: file_ok_def file_db_load_def)

lemma apply_handler_output_ok:
  assumes "replay (funder_mutate env) (fho_funder_mutations out) (nd_funder_state node) =
      (Ok state :: (unit, _) result)"
    and "funder_wf state" and "payments_ok state" and "serde_ok serde" and "node_ok serde node"
    and step: "apply_handler_output env serde write_ok out node = (node', res)"
  shows "file_ok serde (nd_db node') \<and> res \<noteq> Panic \<and> (res = Ok () \<longrightarrow> node_ok serde node')"
proof (cases "fho_funder_mutations out = []")
  case True
  then show ?thesis
    using assms node_ok_file_ok [OF assms(5)]
    by (auto simp: apply_handler_output_def node_ok_def)
next
  case False
  let ?ns = "(fdb_state (nd_db node)) \<lparr> ns_funder_state := state \<rparr>"
  obtain db dres where
    db: "mutate_db (node_mutate env) serde write_ok (map NodeFunder (fho_funder_mutations out))
      (nd_db node) = (db, dres :: (unit file_db_error, unit) result)" by fastforce
  have "mutate_db_loop (node_mutate env) (map NodeFunder (fho_funder_mutations out))
      (fdb_state (nd_db node)) = (?ns, Ok () :: (unit, unit) result)"
    using mutate_db_loop_funder [of env "fho_funder_mutations out" "fdb_state (nd_db node)" state]
      assms(1,5) by (simp add: node_ok_def)
  moreover have "node_state_ok ?ns"
    using assms(2,3,5) by (simp add: node_state_ok_def node_ok_def)
  ultimately show ?thesis
    using mutate_db_node_ok [OF _ db assms(4,5), of ?ns] step assms(1) False \<open>node_state_ok ?ns\<close>
    by (auto simp: apply_handler_output_def db node_ok_def)
qed

lemma node_step_ok:
  assumes "serde_ok serde" and "node_ok serde node"
    and "node_step env sign serde limits event node = (node', res)"
  shows "file_ok serde (nd_db node') \<and> (res = Ok () \<longrightarrow> node_ok serde node')"
proof (cases event)
  case (FunderIncoming r write_ok incoming)
  show ?thesis
  proof (cases "funder_handle_message env sign r (nd_funder_state node) (nd_ephemeral node) limits
      incoming")
    case (Ok out)
    obtain state where "replay (funder_mutate env) (fho_funder_mutations out)
        (nd_funder_state node) = (Ok state :: (unit, _) result)"
      and "funder_wf state" and "payments_ok state"
      using handled_message_accounts [OF Ok] assms(2) by (auto simp: node_ok_def node_state_ok_def)
    from apply_handler_output_ok [OF this assms(1,2)] show ?thesis
      using assms(3) FunderIncoming Ok by simp
  qed (use assms node_ok_file_ok [OF assms(2)] FunderIncoming in auto)
next
  case (IndexClientRequest write_ok mutation)
  obtain config where config:
    "index_client_config_mutate mutation (ns_index_client_config (fdb_state (nd_db node))) =
      (Ok config :: (unit, _) result)"
    by (cases mutation) auto
  obtain db dres where
    db: "mutate_db (node_mutate env) serde write_ok [NodeIndexClient mutation] (nd_db node) =
      (db, dres :: (unit file_db_error, unit) result)" by fastforce
  have nsok: "node_state_ok ((fdb_state (nd_db node)) \<lparr> ns_index_client_config := config \<rparr>)"
    using config assms(2)
    by (cases mutation) (auto simp: node_state_ok_def node_ok_def distinct_map_filter_snoc
        distinct_map_filter)
  from mutate_db_node_ok [OF _ db assms(1,2) nsok]
  show ?thesis
    using assms(2,3) config nsok
    by (auto simp: IndexClientRequest db node_ok_def)
qed (use assms node_ok_file_ok [OF assms(2)] in auto)

lemma node_run_ok:
  assumes "serde_ok serde" and "node_ok serde node"
    and "node_run env sign serde limits events node = (node', res)"
  shows "file_ok serde (nd_db node') \<and> (res = Ok () \<longrightarrow> node_ok serde node')"
  using assms(2,3)
proof (induction events arbitrary: node)
  case Nil
  then show ?case using node_ok_file_ok by auto
next
  case (Cons event events)
  obtain node1 res1 where step: "node_step env sign serde limits event node = (node1, res1)"
    by fastforce
  show ?case
    using node_step_ok [OF assms(1) Cons.prems(1) step] Cons.prems(2) Cons.IH [of node1]
    by (cases res1) (auto simp: step)
qed

lemma funder_state_new_ok: "funder_wf (funder_state_new pk []) \<and> payments_ok (funder_state_new pk [])"
  by (simp add: funder_wf_def payments_ok_def funder_state_new_def open_count_def)

lemma node_new_ok:
  assumes "serde_ok serde"
    and "file_db_create serde write_ok opt_file (node_state_new pk) = (Ok db :: ('e file_db_error, _) result)"
  shows "node_ok serde (node_new db)"
  using assms
  by (auto simp: funder_state_new_ok file_db_create_def serde_ok_def rust_simps node_ok_def node_new_def
      node_state_ok_def node_state_new_def index_client_config_new_def)

text \<open>
  C1. What the database file holds can be trusted after any history. Start a node on a newly
  created database, and let it take any sequence of messages, of closing streams, of requests of
  the index client and of failed writes, until it stops for whatever reason, even a panic. The
  file can then be loaded; every payment in it counts exactly its open transactions, every
  friend is filed under its own key, and relays and index servers have no duplicates. As long
  as the loop has not stopped, the file, the database and the funder agree on the state.
\<close>

theorem database_file_consistent:
  assumes "\<forall>s f. to_string_pretty serde s = Some f \<longrightarrow> from_str serde f = Some s"
    and "file_db_create serde write_ok opt_file (node_state_new pk) =
      (Ok db :: (unit file_db_error, _) result)"
    and "inner_funder_loop env sign serde limits r events db = (node, res)"
  shows "(\<exists>ns. file_db_load serde (Some (fdb_file (nd_db node))) =
        (Ok \<lparr> fdb_state = ns, fdb_file = fdb_file (nd_db node) \<rparr> :: (unit file_db_error, _) result) \<and>
      node_state_ok ns) \<and>
    (res = Ok () \<longrightarrow>
      nd_funder_state node = ns_funder_state (fdb_state (nd_db node)) \<and>
      from_str serde (fdb_file (nd_db node)) = Some (fdb_state (nd_db node)))"
proof -
  have serde: "serde_ok serde" using assms(1) by (simp add: serde_ok_def)
  show ?thesis
    using node_run_ok [OF serde node_new_ok [OF serde assms(2)]
        assms(3) [unfolded inner_funder_loop_def]]
    by (auto simp: file_ok_def node_ok_def)
qed

lemma sample_run:
  "case inner_funder_loop sample_env (sample_sign 1) sample_serde sample_limits sample_rng
     sample_events \<lparr> fdb_state = node_state_new 1, fdb_file = node_state_new 1 \<rparr> of
   (node, res) \<Rightarrow> res = Err FE_DbError \<and>
     hm_contains (fs_payments (ns_funder_state (fdb_file (nd_db node)))) 1"
  by code_simp

theorem database_file_consistent_witness:
  "\<exists>db node ns. file_db_create sample_serde True None (node_state_new 1) =
      (Ok db :: (unit file_db_error, _) result) \<and>
    inner_funder_loop sample_env (sample_sign 1) sample_serde sample_limits sample_rng
      sample_events db = (node, Err FE_DbError) \<and>
    from_str sample_serde (fdb_file (nd_db node)) = Some ns \<and>
    hm_contains (fs_payments (ns_funder_state ns)) 1 \<and> node_state_ok ns"
proof -
  let ?db = "\<lparr> fdb_state = node_state_new 1 :: unit node_state, fdb_file = node_state_new 1 \<rparr>"
  have db: "file_db_create sample_serde True None (node_state_new 1) =
      (Ok ?db :: (unit file_db_error, _) result)"
    by (simp add: file_db_create_def sample_serde_def fail_if_def)
  obtain node where node: "inner_funder_loop sample_env (sample_sign 1) sample_serde sample_limits
      sample_rng sample_events ?db = (node, Err FE_DbError)"
    and 1: "hm_contains (fs_payments (ns_funder_state (fdb_file (nd_db node)))) 1"
    using sample_run by auto
  from database_file_consistent [OF _ db node]
  have "node_state_ok (fdb_file (nd_db node))"
    by (auto simp: sample_serde_def file_db_load_def)
  with db node 1 show ?thesis by (auto simp: sample_serde_def)
qed

end
