(* ===== verification/Handler_Errors.thy ===== *)
theory Handler_Errors
  imports Funder_Invariants Mc_Agreement
begin

text \<open>
  Where the handlers of the funder can and cannot panic. The accounting of payments
  (\<open>payments_ok\<close>) rules out panics of \<open>remove_transaction\<close> once the transaction is found, which
  the source asks about. The other theorems of this theory exhibit panics that a friend or the user can cause, each
  from the condition that the code fails to check.
\<close>

section \<open>Removing a transaction\<close>

lemma u_checked_pred [simp]: "n \<noteq> 0 \<Longrightarrow> u_checked_sub n 1 = Some (n - 1)" for n :: u64
  by (simp add: u_checked_sub_def word_le_nat_alt Suc_le_eq unat_gt_0)

lemma stage_without_transaction_total:
  assumes "0 < stage_num stage" and "stage_ok stage"
  shows "\<exists>update h'. stage_without_transaction stage h = (Ok (update, h') :: ('e, _) result)"
  using assms
  by (cases stage)
    (auto simp: stage_without_transaction_def stage_num_def stage_ok_def assert_that_def unat_gt_0
      word_gt_0 split: prod.splits)

lemma update_payment_stage_total:
  "\<exists>h'. update_payment_stage env pid lock update h = (Ok h' :: ('e, _) result) \<and>
     fs_open_transactions (h_state h') = fs_open_transactions (h_state h)"
proof -
  obtain opt_stage opt_status where "update = (opt_stage, opt_status)" by (rule prod.exhaust)
  then show ?thesis
    by (cases opt_stage; cases opt_status)
      (simp_all add: update_payment_stage_def h_mutate_def mfs_mutate_def h_control_def)
qed

lemma h_remove_transaction:
  "h_mutate env (RemoveTransaction request_id) h = Ok (h \<lparr> h_m_state := (h_m_state h)
     \<lparr> mfs_state := (h_state h) \<lparr> fs_open_transactions :=
         hm_remove request_id (fs_open_transactions (h_state h)) \<rparr>,
       mfs_mutations := mfs_mutations (h_m_state h) @ [RemoveTransaction request_id] \<rparr> \<rparr>)"
  by (simp add: h_mutate_def mfs_mutate_def)

text \<open>An open transaction has its payment, with a counter that is not zero.\<close>

lemma open_transaction_payment:
  assumes "funder_wf state" and "payments_ok state"
    and "hm_get (fs_open_transactions state) request_id = Some ot"
  shows "\<exists>payment. hm_get (fs_payments state) (ot_payment_id ot) = Some payment \<and>
    0 < stage_num (pay_stage payment) \<and> stage_ok (pay_stage payment)"
proof -
  have "1 \<le> open_count (ot_payment_id ot) state"
    using hm.weight_le_total [OF _ assms(3),
        where w = "\<lambda>t. if ot_payment_id t = ot_payment_id ot then 1 else 0"]
      assms(1) by (simp add: open_count_def funder_wf_def)
  then show ?thesis
    using payments_okD [OF assms(2), of "ot_payment_id ot"]
    by (cases "hm_get (fs_payments state) (ot_payment_id ot)") auto
qed

text \<open>
  C18. Of the two questions \<open>Can this unwrap() ever panic?\<close> in \<open>canceler.rs\<close>, the second has the
  answer no. In any state with correct accounts, which every reachable state has, removing a
  transaction that is open finds its payment, decreases a counter that is not zero, does not
  meet a canceled payment, and leaves the accounts correct.
\<close>

theorem remove_transaction_never_panics:
  assumes "funder_wf (h_state h)" and "payments_ok (h_state h)"
    and "hm_contains (fs_open_transactions (h_state h)) request_id"
  shows "\<exists>h'. remove_transaction env request_id h = (Ok h' :: ('e, _) result) \<and>
    \<not> hm_contains (fs_open_transactions (h_state h')) request_id \<and> payments_ok (h_state h')"
proof -
  obtain ot where ot: "hm_get (fs_open_transactions (h_state h)) request_id = Some ot"
    using assms(3) by (auto simp: hm_contains_def)
  then obtain payment where
    p: "hm_get (fs_payments (h_state h)) (ot_payment_id ot) = Some payment"
    and n: "0 < stage_num (pay_stage payment)" "stage_ok (pay_stage payment)"
    using open_transaction_payment [OF assms(1,2)] by blast
  obtain h1 where h1: "h_mutate env (RemoveTransaction request_id) h = (Ok h1 :: ('e, _) result)"
    and m1: "h_state h1 = (h_state h) \<lparr> fs_open_transactions :=
      hm_remove request_id (fs_open_transactions (h_state h)) \<rparr>"
    by (rule that [OF h_remove_transaction]) simp
  obtain update h2 where
    h2: "stage_without_transaction (pay_stage payment) h1 = (Ok (update, h2) :: ('e, _) result)"
    using stage_without_transaction_total [OF n, of h1] by blast
  obtain h' where
    "update_payment_stage env (ot_payment_id ot) (pay_src_plain_lock payment) update h2 =
      (Ok h' :: ('e, _) result)"
    and gone: "fs_open_transactions (h_state h') = fs_open_transactions (h_state h2)"
    using update_payment_stage_total [of env "ot_payment_id ot" "pay_src_plain_lock payment" update h2]
    by blast
  with ot p h1 h2 have rt: "remove_transaction env request_id h = (Ok h' :: ('e, _) result)"
    by (simp add: remove_transaction_def)
  have "fsteps env (h_m_state h) (h_m_state h')"
    by (rule remove_transaction_steps [OF rt]) simp
  then have "accounts_ok (h_m_state h')"
    by (rule ainv.inv_steps) (simp add: accounts_ok_def assms(1,2))
  moreover have "\<not> hm_contains (fs_open_transactions (h_state h')) request_id"
    using m1 stage_without_transaction_m_state [OF h2] gone by (simp add: hm_contains_def hm_simps)
  ultimately show ?thesis using rt by (auto simp: accounts_ok_def)
qed

theorem remove_transaction_never_panics_witness:
  "let h = sample_node 1 2 (Consistent (sample_channel sample_credit)) in
   funder_wf (h_state h) \<and> payments_ok (h_state h) \<and>
   hm_contains (fs_open_transactions (h_state h)) 7 \<and>
   (\<exists>h'. remove_transaction sample_env 7 h = (Ok h' :: (unit, _) result) \<and>
      payments_ok (h_state h'))"
proof -
  let ?h = "sample_node 1 2 (Consistent (sample_channel sample_credit))"
  have 1: "funder_wf (h_state ?h)" by code_simp
  have 2: "payments_ok (h_state ?h)"
    by (simp add: payments_ok_def open_count_def sample_node_def hstate_new_def hm.total_def
        mutable_funder_state_new_def hm_get_def stage_num_def stage_ok_def)
  have 3: "hm_contains (fs_open_transactions (h_state ?h)) 7" by code_simp
  show ?thesis
    using 1 2 3 remove_transaction_never_panics [OF 1 2 3, where 'e = unit] by auto
qed

section \<open>Requests to an invoice\<close>

lemma total_paid_loop_missing:
  assumes "find_remote_pending_transaction state (inv_currency open_invoice) request_id = None"
    and "request_id \<in> set request_ids"
  shows "total_paid_loop state open_invoice request_ids total_paid = (Panic :: ('e, _) result)"
  using assms(2)
proof (induction request_ids arbitrary: total_paid)
  case (Cons rid rids)
  then show ?case
    using assms(1)
    by (cases "find_remote_pending_transaction state (inv_currency open_invoice) rid")
      (auto simp: assert_that_def and_then_Panic_iff unwrap_iffs)
qed simp

lemma check_request_missing:
  assumes "hm_get (fs_open_invoices state) (rq_invoice_id rq) = Some oi"
    and "inv_opt_src_hashed_lock oi = Some (rq_src_hashed_lock rq)"
    and "inv_total_dest_payment oi = rq_total_dest_payment rq"
    and "rq_dest_payment rq \<le> rq_total_dest_payment rq"
    and "find_remote_pending_transaction state (inv_currency oi) request_id = None"
    and "request_id \<in> set (inv_incoming_transactions oi)"
  shows "check_request state rq = (Panic :: ('e, _) result)"
  using assms(1-4) by (simp add: check_request_def total_paid_loop_missing [OF assms(5,6)] not_less)

lemma check_request_accepts:
  assumes "check_request state rq = (Ok check :: ('e, _) result)" and "check \<noteq> CheckFailure"
    and "hm_get (fs_open_invoices state) (rq_invoice_id rq) = Some oi"
  shows "(inv_opt_src_hashed_lock oi = None \<or>
      inv_opt_src_hashed_lock oi = Some (rq_src_hashed_lock rq)) \<and>
    inv_total_dest_payment oi = rq_total_dest_payment rq"
  using assms by (auto simp: check_request_def split: if_splits option.splits)

text \<open>The state after a request was accepted for an invoice.\<close>

lemma accepted_request_state:
  assumes "check_request (h_state h) rq = (Ok check :: ('e, _) result)" and "check \<noteq> CheckFailure"
    and "hm_get (fs_open_invoices (h_state h)) (rq_invoice_id rq) = Some oi"
  shows "\<exists>h'. handle_request_as_destination env pk currency rq h = (Ok h' :: ('e, _) result) \<and>
    fs_friends (h_state h') = fs_friends (h_state h) \<and>
    hm_get (fs_open_invoices (h_state h')) (rq_invoice_id rq) =
      Some (oi \<lparr> inv_opt_src_hashed_lock := Some (rq_src_hashed_lock rq),
        inv_incoming_transactions := hs_insert (rq_request_id rq) (inv_incoming_transactions oi) \<rparr>)"
  using assms check_request_accepts [OF assms]
  by (cases check; cases "inv_opt_src_hashed_lock oi")
    (simp_all add: handle_request_as_destination_def Let_def h_mutate_def mfs_mutate_def hm_simps
      assert_that_def queue_unsigned_response_def)

text \<open>
  C19. A payment in the wrong currency crashes the seller. The check of a request at its
  destination looks at the invoice, the lock and the amounts, but not at the currency in which
  the request came. So a request that passes the check is accepted in any currency; if its
  identifier is not pending in the currency of the invoice, then every later request for the
  same invoice, with the same lock and total, makes the node panic.
\<close>

theorem foreign_currency_request_crashes:
  assumes "hm_get (fs_open_invoices (h_state h)) (rq_invoice_id rq) = Some oi"
    and "currency \<noteq> inv_currency oi"
    and "check_request (h_state h) rq = (Ok check :: (unit, _) result)" and "check \<noteq> CheckFailure"
    and "find_remote_pending_transaction (h_state h) (inv_currency oi) (rq_request_id rq) = None"
  shows "\<exists>h'. handle_request_as_destination env pk currency rq h = (Ok h' :: (unit, _) result) \<and>
    (\<forall>rq'. rq_invoice_id rq' = rq_invoice_id rq \<longrightarrow>
       rq_src_hashed_lock rq' = rq_src_hashed_lock rq \<longrightarrow>
       rq_total_dest_payment rq' = rq_total_dest_payment rq \<longrightarrow>
       rq_dest_payment rq' \<le> rq_total_dest_payment rq' \<longrightarrow>
       check_request (h_state h') rq' = (Panic :: (unit, _) result))"
proof -
  obtain h' where ok: "handle_request_as_destination env pk currency rq h = (Ok h' :: (unit, _) result)"
    and friends: "fs_friends (h_state h') = fs_friends (h_state h)"
    and oi: "hm_get (fs_open_invoices (h_state h')) (rq_invoice_id rq) =
      Some (oi \<lparr> inv_opt_src_hashed_lock := Some (rq_src_hashed_lock rq),
        inv_incoming_transactions := hs_insert (rq_request_id rq) (inv_incoming_transactions oi) \<rparr>)"
    using accepted_request_state [OF assms(3,4,1)] by blast
  have "find_remote_pending_transaction (h_state h') (inv_currency oi) (rq_request_id rq) = None"
    using assms(5) friends by (simp add: find_remote_pending_transaction_def)
  with ok oi check_request_accepts [OF assms(3,4,1)] show ?thesis
    by (intro exI [of _ h']) (auto intro!: check_request_missing)
qed

theorem foreign_currency_request_crashes_witness:
  "\<exists>h'. handle_request_as_destination sample_env 2 (Currency ''EUR'') sample_foreign_request
      (sample_node 1 2 (Consistent (sample_channel sample_credit))) = (Ok h' :: (unit, _) result) \<and>
    check_request (h_state h') (sample_foreign_request \<lparr> rq_request_id := 6 \<rparr>) =
      (Panic :: (unit, _) result)"
proof -
  let ?h = "sample_node 1 2 (Consistent (sample_channel sample_credit))"
  have 1: "hm_get (fs_open_invoices (h_state ?h)) (rq_invoice_id sample_foreign_request) =
      Some (open_invoice_new (Currency ''FST'') 100 12)" by code_simp
  have 2: "Currency ''EUR'' \<noteq> inv_currency (open_invoice_new (Currency ''FST'') 100 12)" by code_simp
  have 3: "check_request (h_state ?h) sample_foreign_request = (Ok CheckSuccess :: (unit, _) result)"
    by (simp add: check_request_def sample_simps open_invoice_new_def u_checked_add_def cmp_def)
  have 4: "find_remote_pending_transaction (h_state ?h)
      (inv_currency (open_invoice_new (Currency ''FST'') 100 12))
      (rq_request_id sample_foreign_request) = None" by code_simp
  obtain h' where h': "handle_request_as_destination sample_env 2 (Currency ''EUR'')
      sample_foreign_request ?h = (Ok h' :: (unit, _) result)"
    and later: "\<And>rq'. rq_invoice_id rq' = rq_invoice_id sample_foreign_request \<Longrightarrow>
       rq_src_hashed_lock rq' = rq_src_hashed_lock sample_foreign_request \<Longrightarrow>
       rq_total_dest_payment rq' = rq_total_dest_payment sample_foreign_request \<Longrightarrow>
       rq_dest_payment rq' \<le> rq_total_dest_payment rq' \<Longrightarrow>
       check_request (h_state h') rq' = (Panic :: (unit, _) result)"
    using foreign_currency_request_crashes [OF 1 2 3 _ 4, of sample_env 2] by blast
  have "check_request (h_state h') (sample_foreign_request \<lparr> rq_request_id := 6 \<rparr>) =
      (Panic :: (unit, _) result)"
    by (rule later) (simp_all add: sample_foreign_request_def)
  with h' show ?thesis by blast
qed

section \<open>Answers without an origin\<close>

text \<open>
  C21. An answer whose origin is gone crashes the node. When a response, a cancellation or a
  collect message arrives for a request that no friend has pending any more and that is not one
  of the user's own transactions, the node takes it for an answer to itself and panics.
\<close>

theorem orphaned_answer_panics:
  assumes "find_request_origin (h_state h) currency request_id = None"
    and "\<not> hm_contains (fs_open_transactions (h_state h)) request_id"
    and "rs_request_id response = request_id" and "cn_request_id cancel = request_id"
    and "co_request_id collect = request_id"
  shows "handle_response_send_funds env currency response pt h = (Panic :: (unit, _) result) \<and>
    handle_cancel_send_funds env currency cancel pt h = (Panic :: (unit, _) result) \<and>
    handle_collect_send_funds env currency collect pt h = (Panic :: (unit, _) result)"
  using assms
  by (auto simp: handle_response_send_funds_def handle_own_response_def handle_cancel_send_funds_def
      remove_transaction_def handle_collect_send_funds_def handle_own_collect_def h_mutate_def
      mfs_mutate_def hm_contains_def)

text \<open>The friend who forwarded the request is removed before the answer comes.\<close>

theorem orphaned_answer_panics_witness:
  "\<exists>h'. control_remove_friend sample_env 2 (sample_node 1 2 (Consistent (sample_channel
        (insert_remote_pending_transaction (sample_pending 5) sample_credit)))) = Ok h' \<and>
    handle_cancel_send_funds sample_env (Currency ''FST'') \<lparr> cn_request_id = 5 \<rparr> (sample_pending 5)
      h' = (Panic :: (unit, _) result)"
proof -
  let ?h = "sample_node 1 2 (Consistent (sample_channel
    (insert_remote_pending_transaction (sample_pending 5) sample_credit)))"
  have "case control_remove_friend sample_env 2 ?h of
      Ok h' \<Rightarrow> find_request_origin (h_state h') (Currency ''FST'') 5 = None \<and>
        \<not> hm_contains (fs_open_transactions (h_state h')) 5
    | _ \<Rightarrow> False"
    by (simp add: control_remove_friend_def disable_friend_def cancel_pending_requests_def
        cancel_local_pending_transactions_def cancel_chosen_requests_def h_mutate_friend_def
        h_mutate_def mfs_mutate_def with_consistent_def sample_simps hm_insert_def hm_remove_def
        find_request_origin_def sample_credit_def mutual_credit_new_def hm_contains_def h_config_def
        insert_remote_pending_transaction_def set_remote_def mc_pending_transactions_new_def)
  then obtain h' where h': "control_remove_friend sample_env 2 ?h = Ok h'"
    and 1: "find_request_origin (h_state h') (Currency ''FST'') 5 = None"
    and 2: "\<not> hm_contains (fs_open_transactions (h_state h')) 5"
    by (auto split: result.splits)
  have "handle_cancel_send_funds sample_env (Currency ''FST'') \<lparr> cn_request_id = 5 \<rparr>
      (sample_pending 5) h' = (Panic :: (unit, _) result)"
    using orphaned_answer_panics [OF 1 2, of "\<lparr> rs_request_id = 5, rs_dest_hashed_lock = 12, rs_is_complete = True, rs_rand_nonce = 0, rs_signature = 0 \<rparr>"
        "\<lparr> cn_request_id = 5 \<rparr>" sample_collect sample_env "sample_pending 5"]
    by (simp add: sample_collect_def)
  with h' show ?thesis by blast
qed

section \<open>Resets and currencies\<close>

lemma flip_reset_balances_min:
  "list_ex (\<lambda>cb. sint (cb_balance cb) = - (2 ^ 127)) cbs \<Longrightarrow>
   flip_reset_balances cbs = (Panic :: ('e, _) result)"
proof (induction cbs)
  case (Cons cb cbs)
  show ?case
  proof (cases "i_checked_neg (cb_balance cb)")
    case None
    then show ?thesis by simp
  next
    case (Some b)
    then have "sint (cb_balance cb) \<noteq> - (2 ^ 127)"
      by (auto simp: i_checked_neg_def fits_i_def split: if_splits)
    with Cons show ?thesis by (simp add: Some)
  qed
qed simp

text \<open>
  C22. The terms of a reset are not checked. A friend that announces an inconsistency can demand
  a balance of the least 128-bit integer; the node stores the terms whenever it accepts the
  message. When the user then agrees to the reset, as the token of the terms invites to, the
  node panics in negating the balance.
\<close>

theorem least_balance_reset_panics:
  assumes "handle_friend_message env pk (InconsistencyError terms) h = Ok h1"
    and "list_ex (\<lambda>cb. sint (cb_balance cb) = - (2 ^ 127)) (rt_balance_for_reset terms)"
  shows "\<exists>h2. control_reset_friend_channel pk (rt_reset_token terms) h1 = Ok h2 \<and>
    (\<forall>cmds s. fsc_local_reset cmds \<longrightarrow> ss_h s = h2 \<longrightarrow>
      send_friend_iter1 env sign n pk cmds s = (Panic :: (unit, _) result))"
proof -
  obtain friend chi where fr: "hm_get (fs_friends (h_state h1)) pk = Some friend"
    and st: "fr_channel_status friend = Inconsistent chi"
    and chi: "chi_opt_remote_reset_terms chi = Some terms"
    using assms(1)
    by (auto simp: handle_friend_message_def handle_inconsistency_error_def rust_simps
        h_mutate_friend_def h_mutate_def mfs_mutate_def hm_simps ok_case_iffs split: if_splits)
  have "apply_local_reset env sign pk chi h2 = (Panic :: (unit, _) result)"
    if "h_m_state h2 = h_m_state h1" for h2
    using that fr chi
    by (simp add: apply_local_reset_def h_mutate_friend_def h_mutate_def mfs_mutate_def
        flip_reset_balances_min [OF assms(2)])
  then show ?thesis
    using fr st chi
    by (auto simp: control_reset_friend_channel_def send_friend_iter1_def assert_that_def)
qed

definition sample_bad_terms :: reset_terms where
  "sample_bad_terms = \<lparr> rt_reset_token = 77, rt_inconsistency_counter = 1,
     rt_balance_for_reset = [\<lparr> cb_currency = Currency ''FST'', cb_balance = 2 ^ 127 \<rparr>] \<rparr>"

theorem least_balance_reset_panics_witness:
  "\<exists>h1 h2. handle_friend_message sample_env 2 (InconsistencyError sample_bad_terms)
      (sample_node 1 2 (Inconsistent \<lparr> chi_opt_last_incoming_move_token = None,
         chi_local_reset_terms = sample_bad_terms, chi_opt_remote_reset_terms = None \<rparr>)) = Ok h1 \<and>
    control_reset_friend_channel 2 77 h1 = Ok h2 \<and>
    send_friend_iter1 sample_env (sample_sign 1) 8 2 (friend_send_commands_new \<lparr> fsc_local_reset := True \<rparr>)
      \<lparr> ss_h = h2, ss_pending_move_tokens = [], ss_outgoing_messages = [] \<rparr> =
      (Panic :: (unit, _) result)"
proof -
  obtain h1 where h1: "handle_friend_message sample_env 2 (InconsistencyError sample_bad_terms)
      (sample_node 1 2 (Inconsistent \<lparr> chi_opt_last_incoming_move_token = None,
         chi_local_reset_terms = sample_bad_terms, chi_opt_remote_reset_terms = None \<rparr>)) = Ok h1"
    by (simp add: handle_friend_message_def handle_inconsistency_error_def h_mutate_friend_def
        h_mutate_def mfs_mutate_def sample_simps)
  have "list_ex (\<lambda>cb. sint (cb_balance cb) = - (2 ^ 127)) (rt_balance_for_reset sample_bad_terms)"
    by (simp add: sample_bad_terms_def)
  from least_balance_reset_panics [OF h1 this, of "sample_sign 1" 8] h1 show ?thesis
    by (auto simp: sample_bad_terms_def)
qed

text \<open>
  C24. Removing a currency from a friend whose channel is inconsistent crashes the node: the
  handler skips its check in that case, and the mutation it then performs is declared
  unreachable.
\<close>

theorem remove_currency_inconsistent_panics:
  assumes "hm_get (fs_friends (h_state h)) pk = Some friend"
    and "fr_channel_status friend = Inconsistent chi"
    and "hm_contains (fr_currency_configs friend) currency"
  shows "control_remove_friend_currency env pk currency h = Panic"
  using assms
  by (simp add: control_remove_friend_currency_def h_mutate_friend_def h_mutate_def mfs_mutate_def
      fail_if_def with_consistent_def)

theorem remove_currency_inconsistent_panics_witness:
  "control_remove_friend_currency sample_env 2 (Currency ''FST'') (sample_node 1 2 (Inconsistent
     \<lparr> chi_opt_last_incoming_move_token = None, chi_local_reset_terms = sample_bad_terms,
       chi_opt_remote_reset_terms = None \<rparr>)) = Panic"
  by (rule remove_currency_inconsistent_panics, simp add: sample_simps, simp,
      simp add: hm_contains_def hm_get_def)

section \<open>Composing messages\<close>

lemma get_incoming_create:
  assumes "get_incoming tc = Some b"
  shows "get_incoming (create_in_token_channel b :: 'b token_channel) = Some b"
    and "tib_mutual_credits b = tc_mutual_credits tc"
  using assms
  by (auto simp: get_incoming_def create_in_token_channel_def split: tc_direction.splits)

text \<open>An operation that cannot be queued makes the composition of a message panic.\<close>

lemma simulate_send_bad_operation:
  assumes "get_incoming tc = Some b" and "hm_get (tc_mutual_credits tc) currency = Some mc"
    and "queue_operation env operation mc = Err e"
  shows "simulate_send_move_token env b
      [\<lparr> cop_currency = currency, cop_operations = [operation] \<rparr>] opt_relays None rand_nonce = Panic"
  using assms
  by (simp add: simulate_send_move_token_def send_set_active_currencies_def
      queue_currency_operations_def get_incoming_create [OF assms(1)])

lemma send_move_token_panics:
  assumes "consistent_channel (h_state (ss_h s)) pk = (Ok ch :: ('e, _) result)"
    and "get_incoming (ch_token_channel ch) = Some b"
    and "\<And>nonce. simulate_send_move_token env b (map (\<lambda>(currency, pending_currency).
        \<lparr> cop_currency = currency, cop_operations = pc_operations pending_currency \<rparr>)
        (pmt_pending_currencies pmt)) (pmt_opt_local_relays pmt) (pmt_opt_active_currencies pmt)
        nonce = Panic"
    and "pmt_pending_currencies pmt \<noteq> []"
  shows "send_move_token env sign pk pmt s = (Panic :: ('e, _) result)"
  using assms
  by (auto simp: send_move_token_def Let_def h_rand_m_state split: prod.splits)

text \<open>
  C20. Two requests with the same identifier crash the node. When a request is to be sent to a
  friend to whom a request with this identifier is already open, the sender puts it into the
  next message all the same, and then panics in composing the message. The identifier is chosen
  by the origin of a request, so another friend can cause this by forwarding a known identifier.
\<close>

theorem duplicate_request_panics:
  assumes "consistent_channel (h_state (ss_h s)) pk = (Ok ch :: (unit, _) result)"
    and "get_incoming (ch_token_channel ch) = Some b"
    and "hm_get (tc_mutual_credits (ch_token_channel ch)) currency = Some mc"
    and "queue_request_send_funds rq mc = Err Q_RequestAlreadyExists"
    and "0 < n"
  shows "\<exists>pmt. pmt_queue_operation env currency (RequestSendFunds rq) (h_state (ss_h s))
      (pending_move_token_new pk n may_send_empty) = Ok pmt \<and>
    send_move_token env sign pk pmt s = (Panic :: (unit, _) result)"
proof -
  let ?pmt = "(pending_move_token_new pk n may_send_empty) \<lparr> pmt_pending_currencies :=
    [(currency, \<lparr> pc_outgoing_mc = mc, pc_operations = [RequestSendFunds rq] \<rparr>)] \<rparr>"
  have op: "queue_operation env (RequestSendFunds rq) mc = Err Q_RequestAlreadyExists"
    using assms(4) by simp
  have "pmt_queue_operation env currency (RequestSendFunds rq) (h_state (ss_h s))
      (pending_move_token_new pk n may_send_empty) = Ok ?pmt"
    using assms(2-5)
    by (simp add: get_incoming_create [OF assms(2)] pmt_queue_operation_def pending_move_token_new_def Let_def
        consistent_channel_cast [OF assms(1)] create_outgoing_mc_def hm_insert_def hm_values_def)
  moreover have "send_move_token env sign pk ?pmt s = (Panic :: (unit, _) result)"
    using simulate_send_bad_operation [OF assms(2,3) op]
    by (intro send_move_token_panics [OF assms(1,2)]) (auto simp: pending_move_token_new_def)
  ultimately show ?thesis by blast
qed

theorem duplicate_request_panics_witness:
  "let s = \<lparr> ss_h = sample_node 1 2 (Consistent (sample_channel
         (insert_local_pending_transaction (sample_pending 5) sample_credit))),
       ss_pending_move_tokens = [], ss_outgoing_messages = [] \<rparr>
   in \<exists>pmt. pmt_queue_operation sample_env (Currency ''FST'')
        (RequestSendFunds sample_foreign_request) (h_state (ss_h s))
        (pending_move_token_new 2 8 False) = Ok pmt \<and>
      send_move_token sample_env (sample_sign 1) 2 pmt s = (Panic :: (unit, _) result)"
proof -
  let ?mc = "insert_local_pending_transaction (sample_pending 5) sample_credit"
  let ?s = "\<lparr> ss_h = sample_node 1 2 (Consistent (sample_channel ?mc)),
    ss_pending_move_tokens = [], ss_outgoing_messages = [] \<rparr>"
  have 1: "consistent_channel (h_state (ss_h ?s)) 2 = (Ok (sample_channel ?mc) :: (unit, _) result)"
    by (simp add: consistent_channel_def sample_simps)
  have 2: "\<exists>b. get_incoming (ch_token_channel (sample_channel ?mc)) = Some b"
    by (simp add: get_incoming_def sample_simps)
  have 3: "hm_get (tc_mutual_credits (ch_token_channel (sample_channel ?mc))) (Currency ''FST'') =
      Some ?mc"
    by (simp add: sample_simps)
  have 4: "queue_request_send_funds sample_foreign_request ?mc = Err Q_RequestAlreadyExists"
    by (simp add: queue_request_send_funds_def sample_foreign_request_def is_route_part_valid_def
        MAX_ROUTE_LEN_def no_duplicates_def fail_if_def u_checked_add_def hm_contains_def mc_simps hm_simps
        sample_pending_def sample_credit_def mutual_credit_new_def mc_balance_new_def)
  from 2 duplicate_request_panics [OF 1 _ 3 4, of _ 8 sample_env False "sample_sign 1"]
  show ?thesis by auto
qed

text \<open>The user's request waits in the queue of the first friend on its route.\<close>

lemma create_transaction_queued:
  assumes "control_create_transaction_inner env m ct h = Ok h'" and "ct_route ct ! 1 = pk"
    and "consistent_channel (h_state h) pk = (Ok ch :: (unit, _) result)"
    and "hm_get (fs_payments (h_state h)) (ct_payment_id ct) = Some payment"
    and "pay_stage payment = NewTransactions nt"
  shows "\<exists>rq. consistent_channel (h_state h') pk =
      (Ok (ch \<lparr> ch_pending_user_requests :=
        ch_pending_user_requests ch @ [(nt_currency nt, rq)] \<rparr>) :: (unit, _) result) \<and>
    rq_dest_payment rq = ct_dest_payment ct \<and>
    rq_total_dest_payment rq = nt_total_dest_payment nt"
  using assms
  by (auto simp: control_create_transaction_inner_def check_new_transaction_def rust_simps Let_def
      h_mutate_friend_def h_mutate_def mfs_mutate_def consistent_channel_def hm_simps
      index_to_pk_def ok_case_iffs new_transactions_iff with_consistent_def
      split: channel_status.splits if_splits)

text \<open>
  C23. A user who asks for a transaction that pays more than the total of its payment crashes the
  node. The control message is accepted without comparing the amounts; when the sender then
  composes a message to the first friend on the route, it treats the refusal of the mutual
  credit as unreachable and panics.
\<close>

theorem overpaying_transaction_panics:
  assumes "control_create_transaction_inner env m ct h = Ok h'" and "ct_route ct ! 1 = pk"
    and "hm_get (fs_payments (h_state h)) (ct_payment_id ct) = Some payment"
    and "pay_stage payment = NewTransactions nt"
    and "nt_total_dest_payment nt < ct_dest_payment ct"
    and "consistent_channel (h_state h) pk = (Ok ch :: (unit, _) result)"
    and "ch_pending_backwards_ops ch = []" and "ch_pending_requests ch = []"
    and "ch_pending_user_requests ch = []" and "get_incoming (ch_token_channel ch) = Some b"
  shows "queue_all_pending env pk
    (h', pending_move_token_new pk (Suc n) may_send_empty) =
    (Panic :: (unit, _) result)"
proof -
  obtain rq where ch: "consistent_channel (h_state h') pk =
      (Ok (ch \<lparr> ch_pending_user_requests := [(nt_currency nt, rq)] \<rparr>) :: (unit, _) result)"
    and rq: "rq_total_dest_payment rq < rq_dest_payment rq"
    using create_transaction_queued [OF assms(1,2,6,3,4)] assms(5,9) by auto
  have "pmt_queue_operation env (nt_currency nt) (RequestSendFunds rq) (h_state h')
      (pending_move_token_new pk (Suc n) may_send_empty) = Panic"
  proof (cases "hm_get (tib_mutual_credits b) (nt_currency nt)")
    case (Some mc)
    consider "queue_request_send_funds rq mc = Err Q_InvalidRoute"
      | "queue_request_send_funds rq mc = Err Q_DestPaymentExceedsTotal"
      using rq by (cases "is_route_part_valid (rq_route rq)")
        (simp_all add: queue_request_send_funds_def fail_if_def)
    then show ?thesis
      using assms(10) Some
      by cases (simp_all add: pmt_queue_operation_def pending_move_token_new_def Let_def hm_values_def
          create_outgoing_mc_def consistent_channel_cast [OF ch])
  qed (use assms(10) in \<open>simp add: pmt_queue_operation_def pending_move_token_new_def Let_def
      hm_values_def create_outgoing_mc_def consistent_channel_cast [OF ch]\<close>)
  then show ?thesis
    using assms(7,8)
    by (simp add: queue_all_pending_def append_cancels_to_move_token_def queue_pending_requests_def
        ch sender_queue_operation_def)
qed

definition sample_overpaying :: create_transaction where
  "sample_overpaying = \<lparr> ct_payment_id = 1, ct_request_id = 5, ct_route = [1, 2],
     ct_dest_payment = 11, ct_fees = 0 \<rparr>"

theorem overpaying_transaction_panics_witness:
  "\<exists>h'. control_create_transaction_inner sample_env 8 sample_overpaying
      (sample_node 1 2 (Consistent (sample_channel sample_credit))) = Ok h' \<and>
    queue_all_pending sample_env 2 (h', pending_move_token_new 2 (Suc 7) False) =
      (Panic :: (unit, _) result)"
proof -
  let ?h = "sample_node 1 2 (Consistent (sample_channel sample_credit))"
  have "\<exists>payment nt. check_new_transaction 8 sample_overpaying ?h = Ok (payment, nt, 2) \<and>
      nt_num_transactions nt = 1"
    by (simp add: check_new_transaction_def Let_def sample_overpaying_def sample_simps fail_if_def
        is_route_valid_def index_to_pk_def is_friend_ready_def MAX_ROUTE_LEN_def no_duplicates_def
        is_online_def mutable_ephemeral_new_def hm_contains_def sample_credit_def
        mutual_credit_new_def mc_pending_transactions_new_def)
  then obtain h' where h': "control_create_transaction_inner sample_env 8 sample_overpaying ?h = Ok h'"
    by (auto simp: control_create_transaction_inner_def u_checked_add_def Let_def h_mutate_friend_def
        h_mutate_def mfs_mutate_def with_consistent_def sample_simps)
  have ch: "consistent_channel (h_state ?h) 2 =
      (Ok (sample_channel sample_credit) :: (unit, _) result)"
    by (simp add: consistent_channel_def sample_simps)
  from overpaying_transaction_panics [OF h' _ _ _ _ ch, of _ _ _ 7 False] h' show ?thesis
    by (auto simp: sample_overpaying_def sample_simps get_incoming_def)
qed

end
