(* ===== verification/Index_Messages.thy ===== *)
theory Index_Messages
  imports Signatures
begin

text \<open>
  The messages of index clients and index servers (\<open>proto/src/index_server/messages.rs\<close>), the canonical
  form of index mutations (\<open>signature/src/canonical.rs\<close>) and the signature of an update
  (\<open>signature/src/signature_buff.rs\<close>, \<open>signature/src/verify.rs\<close>). The canonical form of an announcement
  leaves out its rate.
\<close>

section \<open>Messages\<close>

record index_edge =
  from_public_key :: public_key
  to_public_key :: public_key

record request_routes =
  rr_request_id :: uid
  rr_currency :: currency
  rr_capacity :: u128
  rr_source :: public_key
  rr_destination :: public_key
  rr_opt_exclude :: "index_edge option"

record route_capacity_rate =
  rcr_route :: friends_route
  rcr_capacity :: u128
  rcr_rate :: rate

record multi_route =
  mr_routes :: "route_capacity_rate list"

record response_routes =
  rsr_request_id :: uid
  rsr_multi_routes :: "multi_route list"

record update_friend_currency =
  ufc_public_key :: public_key
  ufc_currency :: currency
  ufc_recv_capacity :: u128
  ufc_rate :: rate

record remove_friend_currency =
  rfc_public_key :: public_key
  rfc_currency :: currency

datatype index_mutation =
    UpdateFriendCurrency update_friend_currency
  | RemoveFriendCurrency remove_friend_currency

record mutations_update =
  mu_node_public_key :: public_key
  mu_index_mutations :: "index_mutation list"
  mu_time_hash :: hash_result
  mu_session_id :: uid
  mu_counter :: u64
  mu_rand_nonce :: rand_value
  mu_signature :: signature

record time_proof_link =
  tpl_hashes :: "hash_result list"

record forward_mutations_update =
  fmu_mutations_update :: mutations_update
  fmu_time_proof_chain :: "time_proof_link list"

datatype index_server_to_client =
    ClientTimeHash hash_result
  | ClientResponseRoutes response_routes

datatype index_client_to_server =
    ClientMutations mutations_update
  | ClientRequestRoutes request_routes

datatype index_server_to_server =
    ServerTimeHash hash_result
  | ServerForward forward_mutations_update

section \<open>The signature of an update\<close>

definition ser_update_friend_currency :: "update_friend_currency \<Rightarrow> u8 list" where
  "ser_update_friend_currency u =
     to_be_bytes (ufc_public_key u) @ ser_currency (ufc_currency u) @ to_be_bytes (ufc_recv_capacity u)"

definition ser_remove_friend_currency :: "remove_friend_currency \<Rightarrow> u8 list" where
  "ser_remove_friend_currency r = to_be_bytes (rfc_public_key r) @ ser_currency (rfc_currency r)"

fun ser_index_mutation :: "index_mutation \<Rightarrow> u8 list" where
  "ser_index_mutation (UpdateFriendCurrency u) = [0] @ ser_update_friend_currency u"
| "ser_index_mutation (RemoveFriendCurrency r) = [1] @ ser_remove_friend_currency r"

definition MUTATIONS_UPDATE_PREFIX :: "u8 list" where
  "MUTATIONS_UPDATE_PREFIX = string_bytes ''MUTATIONS_UPDATE''"

definition create_mutations_update_signature_buff :: "'b env \<Rightarrow> mutations_update \<Rightarrow> u8 list" where
  "create_mutations_update_signature_buff env mu =
     to_be_bytes (sha_512_256 env MUTATIONS_UPDATE_PREFIX) @
     to_be_bytes (mu_node_public_key mu) @
     to_be_bytes (of_nat (length (mu_index_mutations mu)) :: u64) @
     concat (map ser_index_mutation (mu_index_mutations mu)) @
     to_be_bytes (mu_time_hash mu) @
     to_be_bytes (mu_session_id mu) @
     to_be_bytes (mu_counter mu) @
     to_be_bytes (mu_rand_nonce mu)"

definition verify_mutations_update :: "'b env \<Rightarrow> mutations_update \<Rightarrow> bool" where
  "verify_mutations_update env mu =
     verify_signature env (create_mutations_update_signature_buff env mu) (mu_node_public_key mu) (mu_signature mu)"

section \<open>Properties\<close>

text \<open>The announcement with another rate.\<close>

fun with_rate :: "rate \<Rightarrow> index_mutation \<Rightarrow> index_mutation" where
  "with_rate r (UpdateFriendCurrency u) = UpdateFriendCurrency (u \<lparr> ufc_rate := r \<rparr>)"
| "with_rate r (RemoveFriendCurrency rm) = RemoveFriendCurrency rm"

text \<open>
  C36. The signature of an update does not cover the rates: whoever forwards an update can replace the
  rate of every announcement in it, and the signature of the node still verifies.
\<close>

theorem update_rates_not_signed:
  "verify_mutations_update env (mu \<lparr> mu_index_mutations := map (with_rate r) (mu_index_mutations mu) \<rparr>) =
     verify_mutations_update env mu"
proof -
  have "ser_index_mutation (with_rate r m) = ser_index_mutation m" for m
    by (cases m) (simp_all add: ser_update_friend_currency_def)
  then show ?thesis
    by (simp add: verify_mutations_update_def create_mutations_update_signature_buff_def comp_def)
qed

end
