(* ===== verification/Bfs.thy ===== *)
theory Bfs
  imports Offset_Prelude "HOL-Library.While_Combinator"
begin

text \<open>
  Breadth first search of the index server (\<open>index_server/src/graph/bfs.rs\<close>). The two \<open>while\<close> loops
  need not end on every input: the search runs for ever on an infinite graph, and the backtracking
  on a map with a cycle. \<^const>\<open>None\<close> at the outer level of a result stands for a loop that does not
  return, the inner \<open>option\<close> is the one of the code. The lemmas show that on a finite graph the search
  returns, and that it returns a shortest route, or \<^const>\<open>None\<close> only when there is no route at all.
\<close>

section \<open>The search\<close>

record 'n bfs_state =
  bfs_tree :: "('n, 'n option) hash_map"
  bfs_visited :: "'n list"
  bfs_queue :: "'n list"
  bfs_found :: bool

text \<open>The loop over the neighbours of the node that was taken from the queue.\<close>

fun bfs_visit :: "'n \<Rightarrow> 'n \<Rightarrow> 'n list \<Rightarrow> 'n bfs_state \<Rightarrow> 'n bfs_state" where
  "bfs_visit dst node [] st = st"
| "bfs_visit dst node (neighbor # neighbors) st =
     (if neighbor \<in> set (bfs_visited st) then bfs_visit dst node neighbors st
      else
        let st = st \<lparr> bfs_tree := hm_insert neighbor (Some node) (bfs_tree st) \<rparr>
        in if neighbor = dst then st \<lparr> bfs_found := True \<rparr>
           else bfs_visit dst node neighbors
                  (st \<lparr> bfs_queue := bfs_queue st @ [neighbor],
                        bfs_visited := List.insert neighbor (bfs_visited st) \<rparr>))"

definition bfs_init :: "'n \<Rightarrow> 'n bfs_state" where
  "bfs_init src =
     \<lparr> bfs_tree = hm_insert src None [], bfs_visited = [src], bfs_queue = [src], bfs_found = False \<rparr>"

definition bfs_running :: "'n bfs_state \<Rightarrow> bool" where
  "bfs_running st \<longleftrightarrow> bfs_queue st \<noteq> [] \<and> \<not> bfs_found st"

definition bfs_pop :: "'n \<Rightarrow> ('n \<Rightarrow> 'n list) \<Rightarrow> 'n bfs_state \<Rightarrow> 'n bfs_state" where
  "bfs_pop dst get_neighbors st =
     (let node = hd (bfs_queue st)
      in bfs_visit dst node (get_neighbors node) (st \<lparr> bfs_queue := tl (bfs_queue st) \<rparr>))"

definition bfs_loop ::
  "'n \<Rightarrow> 'n \<Rightarrow> ('n \<Rightarrow> 'n list) \<Rightarrow> ('n, 'n option) hash_map option option" where
  "bfs_loop src dst get_neighbors =
     map_option (\<lambda>st. if bfs_found st then Some (bfs_tree st) else None)
       (while_option bfs_running (bfs_pop dst get_neighbors) (bfs_init src))"

text \<open>\<open>route\<close> is kept in the order it has after the final \<open>reverse\<close>.\<close>

partial_function (option) bfs_backtrack_from ::
  "('n, 'n option) hash_map \<Rightarrow> 'n \<Rightarrow> 'n list \<Rightarrow> 'n list option option" where
  "bfs_backtrack_from tree node route =
     (case hm_get tree node of
        None \<Rightarrow> Some None
      | Some None \<Rightarrow> Some (Some route)
      | Some (Some new_node) \<Rightarrow> bfs_backtrack_from tree new_node (new_node # route))"

declare bfs_backtrack_from.simps [code]

definition bfs_backtrack :: "'n \<Rightarrow> ('n, 'n option) hash_map \<Rightarrow> 'n list option option" where
  "bfs_backtrack dst tree = bfs_backtrack_from tree dst [dst]"

definition bfs :: "'n \<Rightarrow> 'n \<Rightarrow> ('n \<Rightarrow> 'n list) \<Rightarrow> 'n list option option" where
  "bfs src dst get_neighbors =
     (case bfs_loop src dst get_neighbors of
        None \<Rightarrow> None
      | Some None \<Rightarrow> Some None
      | Some (Some tree) \<Rightarrow> bfs_backtrack dst tree)"

section \<open>Routes of a graph\<close>

definition succs :: "('n \<Rightarrow> 'n list) \<Rightarrow> ('n \<times> 'n) set" where
  "succs get_neighbors = {(u, v). v \<in> set (get_neighbors u)}"

text \<open>A route is a non-empty list of nodes of which each is a neighbour of the one before.\<close>

fun is_route :: "('n \<Rightarrow> 'n list) \<Rightarrow> 'n list \<Rightarrow> bool" where
  "is_route get_neighbors [] \<longleftrightarrow> False"
| "is_route get_neighbors [u] \<longleftrightarrow> True"
| "is_route get_neighbors (u # v # route) \<longleftrightarrow>
     v \<in> set (get_neighbors u) \<and> is_route get_neighbors (v # route)"

definition route_between :: "('n \<Rightarrow> 'n list) \<Rightarrow> 'n \<Rightarrow> 'n \<Rightarrow> 'n list \<Rightarrow> bool" where
  "route_between get_neighbors src dst route \<longleftrightarrow>
     is_route get_neighbors route \<and> hd route = src \<and> last route = dst"

lemma is_route_relpow:
  "is_route g route \<Longrightarrow> (hd route, last route) \<in> succs g ^^ (length route - 1)"
proof (induction g route rule: is_route.induct)
  case (3 g u v route)
  then have "(v, last (v # route)) \<in> succs g ^^ length route" "(u, v) \<in> succs g"
    by (auto simp: succs_def)
  then show ?case using relpow_Suc_I2[of u v "succs g" "last (v # route)" "length route"] by simp
qed auto

section \<open>The loop over the neighbours\<close>

text \<open>\<open>expands node ns st st'\<close>: all of \<open>ns\<close> that was new has joined the queue, as a child of \<open>node\<close>.\<close>

definition expands :: "'n \<Rightarrow> 'n list \<Rightarrow> 'n bfs_state \<Rightarrow> 'n bfs_state \<Rightarrow> bool" where
  "expands node ns st st' \<longleftrightarrow>
     (\<exists>news. set news = set ns - set (bfs_visited st) \<and> bfs_queue st' = bfs_queue st @ news) \<and>
     set (bfs_visited st') = set (bfs_visited st) \<union> set ns \<and>
     (\<forall>v. hm_get (bfs_tree st') v =
        (if v \<in> set ns - set (bfs_visited st) then Some (Some node) else hm_get (bfs_tree st) v)) \<and>
     bfs_found st' = bfs_found st"

lemma expands_Cons:
  assumes "n \<notin> set (bfs_visited st)" and "expands node ns st2 st'"
    and "bfs_tree st2 = hm_insert n (Some node) (bfs_tree st)" "bfs_queue st2 = bfs_queue st @ [n]"
    and "set (bfs_visited st2) = insert n (set (bfs_visited st))" "bfs_found st2 = bfs_found st"
  shows "expands node (n # ns) st st'"
proof -
  obtain news where "set news = set ns - set (bfs_visited st2)" "bfs_queue st' = bfs_queue st2 @ news"
    using assms(2) unfolding expands_def by blast
  then have "set (n # news) = set (n # ns) - set (bfs_visited st) \<and> bfs_queue st' = bfs_queue st @ n # news"
    using assms by auto
  then show ?thesis
    using assms unfolding expands_def by (auto simp: hm_simps)
qed

lemma bfs_visit_unfound:
  "dst \<notin> set ns - set (bfs_visited st) \<Longrightarrow> expands node ns st (bfs_visit dst node ns st)"
proof (induction dst node ns st rule: bfs_visit.induct)
  case (2 dst node n ns st)
  show ?case
  proof (cases "n \<in> set (bfs_visited st)")
    case True
    then show ?thesis using 2 by (simp add: expands_def insert_absorb insert_Diff_if)
  next
    case False
    then have "n \<noteq> dst" using 2(3) by auto
    then show ?thesis
      using expands_Cons[OF False 2(2)[OF False refl]] 2(3) False by (auto simp: Let_def)
  qed
qed (auto simp: expands_def)

lemma bfs_visit_found:
  assumes "dst \<in> set ns - set (bfs_visited st)" "node \<in> set (bfs_visited st)"
  shows "bfs_found (bfs_visit dst node ns st) \<and>
    hm_get (bfs_tree (bfs_visit dst node ns st)) dst = Some (Some node) \<and>
    (\<forall>v\<in>set (bfs_visited st). hm_get (bfs_tree (bfs_visit dst node ns st)) v = hm_get (bfs_tree st) v)"
  using assms
proof (induction dst node ns st rule: bfs_visit.induct)
  case (2 dst node n ns st)
  then show ?case by (auto simp: hm_simps Let_def)
qed auto

section \<open>The invariant of the search\<close>

text \<open>
  \<open>lev\<close> gives each visited node its distance from \<open>src\<close>. The queue is ordered by level, a visited node
  that has left the queue has all its neighbours visited, and every node that is not farther than
  the head of the queue is visited.
\<close>

definition bfs_tree_ok :: "'n \<Rightarrow> ('n \<Rightarrow> 'n list) \<Rightarrow> ('n \<Rightarrow> nat) \<Rightarrow> 'n set \<Rightarrow> ('n \<Rightarrow> 'n option option) \<Rightarrow> bool" where
  "bfs_tree_ok src g lev V tree \<longleftrightarrow>
     src \<in> V \<and> lev src = 0 \<and> tree src = Some None \<and>
     (\<forall>v\<in>V - {src}. \<exists>u\<in>V. tree v = Some (Some u) \<and> v \<in> set (g u) \<and> lev v = Suc (lev u))"

definition bfs_front_ok :: "'n \<Rightarrow> ('n \<Rightarrow> 'n list) \<Rightarrow> ('n \<Rightarrow> nat) \<Rightarrow> 'n set \<Rightarrow> nat \<Rightarrow> bool" where
  "bfs_front_ok src g lev V l \<longleftrightarrow>
     (\<forall>v\<in>V. lev v \<le> Suc l) \<and>
     (\<forall>n w. n \<le> l \<longrightarrow> (src, w) \<in> succs g ^^ n \<longrightarrow> w \<in> V \<and> lev w \<le> n)"

definition bfs_queue_ok :: "'n \<Rightarrow> ('n \<Rightarrow> 'n list) \<Rightarrow> ('n \<Rightarrow> nat) \<Rightarrow> 'n set \<Rightarrow> 'n list \<Rightarrow> bool" where
  "bfs_queue_ok src g lev V queue \<longleftrightarrow>
     set queue \<subseteq> V \<and> sorted (map lev queue) \<and> (\<forall>u\<in>V - set queue. set (g u) \<subseteq> V) \<and>
     (queue \<noteq> [] \<longrightarrow> bfs_front_ok src g lev V (lev (hd queue)))"

definition bfs_inv :: "'n \<Rightarrow> 'n \<Rightarrow> ('n \<Rightarrow> 'n list) \<Rightarrow> ('n \<Rightarrow> nat) \<Rightarrow> 'n bfs_state \<Rightarrow> bool" where
  "bfs_inv src dst g lev st \<longleftrightarrow>
     bfs_tree_ok src g lev (set (bfs_visited st)) (hm_get (bfs_tree st)) \<and>
     bfs_queue_ok src g lev (set (bfs_visited st)) (bfs_queue st) \<and>
     (dst \<in> set (bfs_visited st) \<longrightarrow> dst = src)"

text \<open>The state in which \<open>dst\<close> was met: the tree holds a path of minimal length to it.\<close>

definition bfs_goal :: "'n \<Rightarrow> 'n \<Rightarrow> ('n \<Rightarrow> 'n list) \<Rightarrow> ('n \<Rightarrow> nat) \<Rightarrow> 'n bfs_state \<Rightarrow> bool" where
  "bfs_goal src dst g lev st \<longleftrightarrow>
     (\<exists>V. bfs_tree_ok src g lev V (hm_get (bfs_tree st)) \<and> dst \<in> V \<and> dst \<noteq> src \<and>
        (\<forall>n. (src, dst) \<in> succs g ^^ n \<longrightarrow> lev dst \<le> n))"

lemma bfs_init_inv: "bfs_inv src dst g (\<lambda>_. 0) (bfs_init src)"
  by (auto simp: bfs_inv_def bfs_init_def bfs_tree_ok_def bfs_queue_ok_def bfs_front_ok_def hm_simps)

lemma bfs_front_ok_advance:
  assumes front: "bfs_front_ok src g lev V l"
    and l': "l \<le> l'" "l' \<le> Suc l"
    and V': "V \<subseteq> V'" "\<And>v. v \<in> V \<Longrightarrow> lev' v = lev v" "\<And>v. v \<in> V' - V \<Longrightarrow> lev' v = Suc l"
    and closed: "\<And>x. x \<in> V \<Longrightarrow> lev x < l' \<Longrightarrow> set (g x) \<subseteq> V'"
  shows "bfs_front_ok src g lev' V' l'"
proof -
  have le: "lev' v \<le> Suc l" if "v \<in> V'" for v
    using that front V' by (cases "v \<in> V") (auto simp: bfs_front_ok_def)
  have "w \<in> V' \<and> lev' w \<le> n" if n: "n \<le> l'" and w: "(src, w) \<in> succs g ^^ n" for n w
  proof (cases "n \<le> l")
    case True
    then show ?thesis using front w V' by (auto simp: bfs_front_ok_def)
  next
    case False
    then have "n = Suc l" "l' = Suc l" using n l' by auto
    with w obtain x where x: "(src, x) \<in> succs g ^^ l" "w \<in> set (g x)"
      by (auto simp: succs_def)
    then have "x \<in> V \<and> lev x < l'" using front \<open>l' = Suc l\<close> by (auto simp: bfs_front_ok_def less_Suc_eq_le)
    then have "w \<in> V'" using closed x by auto
    then show ?thesis using le \<open>n = Suc l\<close> by simp
  qed
  then show ?thesis using le l' by (force simp: bfs_front_ok_def)
qed

lemma sorted_levels_append:
  assumes "sorted (map lev q)" and "\<forall>v\<in>set q. lev v \<le> l" and "\<forall>v\<in>set news. lev v = l"
  shows "sorted (map lev (q @ news))"
proof -
  have "sorted (map lev news)" using assms(3) by (induction news) auto
  then show ?thesis using assms by (simp add: sorted_append)
qed

lemma bfs_tree_ok_parent:
  assumes "bfs_tree_ok src g lev V tree" and "v \<in> V" "v \<noteq> src"
  obtains u where "u \<in> V" "tree v = Some (Some u)" "v \<in> set (g u)" "lev v = Suc (lev u)"
  using assms unfolding bfs_tree_ok_def by (meson DiffI singletonD)

lemma bfs_tree_ok_extend:
  assumes "bfs_tree_ok src g lev V tree" and "u \<in> V"
    and "\<And>v. v \<in> V \<Longrightarrow> tree' v = tree v" "\<And>v. v \<in> V' - V \<Longrightarrow> tree' v = Some (Some u) \<and> v \<in> set (g u)"
    and "V \<subseteq> V'" "\<And>v. v \<in> V \<Longrightarrow> lev' v = lev v" "\<And>v. v \<in> V' - V \<Longrightarrow> lev' v = Suc (lev u)"
  shows "bfs_tree_ok src g lev' V' tree'"
proof -
  have "\<exists>w\<in>V'. tree' v = Some (Some w) \<and> v \<in> set (g w) \<and> lev' v = Suc (lev' w)"
    if v: "v \<in> V' - {src}" for v
  proof (cases "v \<in> V")
    case True
    obtain w where w: "w \<in> V" "tree v = Some (Some w)" "v \<in> set (g w)" "lev v = Suc (lev w)"
      using bfs_tree_ok_parent[OF assms(1) True] v by blast
    have "tree' v = Some (Some w)" "lev' v = Suc (lev' w)" "w \<in> V'"
      using True w assms(3,6) subsetD[OF assms(5)] by simp_all
    with w(3) show ?thesis by blast
  next
    case False
    then have "v \<in> V' - V" using v by simp
    with assms(4,7) have "tree' v = Some (Some u)" "v \<in> set (g u)" "lev' v = Suc (lev' u)" "u \<in> V'"
      using assms(2,6) subsetD[OF assms(5)] by simp_all
    then show ?thesis by blast
  qed
  moreover have "src \<in> V'" "lev' src = 0" "tree' src = Some None"
    using assms(1,3,6) subsetD[OF assms(5)] unfolding bfs_tree_ok_def by simp_all
  ultimately show ?thesis unfolding bfs_tree_ok_def by simp
qed

definition next_level :: "'n set \<Rightarrow> 'n \<Rightarrow> ('n \<Rightarrow> nat) \<Rightarrow> 'n \<Rightarrow> nat" where
  "next_level V u lev v = (if v \<in> V then lev v else Suc (lev u))"

lemma bfs_queue_ok_pop:
  assumes ok: "bfs_queue_ok src g lev V (u # q)" and news: "set news = set (g u) - V"
  shows "bfs_queue_ok src g (next_level V u lev) (V \<union> set (g u)) (q @ news)"
proof -
  let ?lev = "next_level V u lev" and ?V = "V \<union> set (g u)"
  have V: "u \<in> V" "set q \<subseteq> V" and sorted: "sorted (map lev (u # q))"
    and closed: "\<forall>x\<in>V - set (u # q). set (g x) \<subseteq> V" and front: "bfs_front_ok src g lev V (lev u)"
    using ok by (auto simp: bfs_queue_ok_def)
  have lev: "lev v \<le> Suc (lev u)" if "v \<in> V" for v using front that by (auto simp: bfs_front_ok_def)
  have lev_q: "map ?lev q = map lev q" using V by (auto simp: next_level_def)
  have lev_news: "\<forall>v\<in>set news. ?lev v = Suc (lev u)" using news by (auto simp: next_level_def)
  have sorted': "sorted (map ?lev (q @ news))"
  proof (rule sorted_levels_append[where l = "Suc (lev u)"])
    show "sorted (map ?lev q)" using sorted by (simp add: lev_q)
    show "\<forall>v\<in>set q. ?lev v \<le> Suc (lev u)" using V lev by (auto simp: next_level_def)
  qed (rule lev_news)
  have closed': "\<forall>x\<in>?V - set (q @ news). set (g x) \<subseteq> ?V"
    using closed news by auto
  have "bfs_front_ok src g ?lev ?V (?lev (hd (q @ news)))" if "q @ news \<noteq> []"
  proof (rule bfs_front_ok_advance[OF front])
    have "hd (q @ news) \<in> set q \<or> hd (q @ news) \<in> set news"
      using that by (cases q; cases news) auto
    then show "lev u \<le> ?lev (hd (q @ news))" "?lev (hd (q @ news)) \<le> Suc (lev u)"
      using sorted lev lev_news V by (auto simp: next_level_def)
    show "set (g x) \<subseteq> ?V" if x: "x \<in> V" "lev x < ?lev (hd (q @ news))" for x
    proof -
      have "x \<notin> set (q @ news)"
      proof
        assume "x \<in> set (q @ news)"
        then have "?lev (hd (q @ news)) \<le> ?lev x" using sorted' by (cases "q @ news") auto
        then show False using x by (simp add: next_level_def)
      qed
      then show ?thesis using closed' x by blast
    qed
  qed (auto simp: next_level_def)
  then show ?thesis
    using sorted' closed' V news by (auto simp: bfs_queue_ok_def)
qed

lemma bfs_pop_unfound:
  assumes inv: "bfs_inv src dst g lev st" and q: "bfs_queue st = u # q"
    and dst: "dst \<notin> set (g u) - set (bfs_visited st)"
  shows "bfs_inv src dst g (next_level (set (bfs_visited st)) u lev) (bfs_pop dst g st)"
proof -
  let ?V = "set (bfs_visited st)" and ?st = "st \<lparr> bfs_queue := q \<rparr>"
  define st' where "st' = bfs_visit dst u (g u) ?st"
  have pop: "bfs_pop dst g st = st'" by (simp add: bfs_pop_def q st'_def)
  have "dst \<notin> set (g u) - set (bfs_visited ?st)" using dst by simp
  from bfs_visit_unfound[OF this, of u, folded st'_def] obtain news where
    news: "set news = set (g u) - ?V" "bfs_queue st' = q @ news" and V': "set (bfs_visited st') = ?V \<union> set (g u)"
    and tree: "\<And>v. hm_get (bfs_tree st') v = (if v \<in> set (g u) - ?V then Some (Some u) else hm_get (bfs_tree st) v)"
    by (auto simp: expands_def)
  have queue: "bfs_queue_ok src g lev ?V (u # q)" using inv by (simp add: bfs_inv_def q)
  have "bfs_tree_ok src g (next_level ?V u lev) (?V \<union> set (g u)) (hm_get (bfs_tree st'))"
    by (rule bfs_tree_ok_extend[of src g lev ?V "hm_get (bfs_tree st)" u])
      (use inv queue in \<open>auto simp: bfs_inv_def bfs_queue_ok_def tree next_level_def\<close>)
  then show ?thesis
    using bfs_queue_ok_pop[OF queue news(1)] inv dst
    by (auto simp: bfs_inv_def pop V' news(2))
qed

lemma bfs_pop_found:
  assumes inv: "bfs_inv src dst g lev st" and q: "bfs_queue st = u # q"
    and dst: "dst \<in> set (g u) - set (bfs_visited st)"
  shows "bfs_found (bfs_pop dst g st) \<and>
    bfs_goal src dst g (next_level (set (bfs_visited st)) u lev) (bfs_pop dst g st)"
proof -
  let ?V = "set (bfs_visited st)" and ?st = "st \<lparr> bfs_queue := q \<rparr>"
  define st' where "st' = bfs_visit dst u (g u) ?st"
  have pop: "bfs_pop dst g st = st'" by (simp add: bfs_pop_def q st'_def)
  have tree: "bfs_tree_ok src g lev ?V (hm_get (bfs_tree st))" and u: "u \<in> ?V"
    and front: "bfs_front_ok src g lev ?V (lev u)"
    using inv by (auto simp: bfs_inv_def bfs_queue_ok_def q)
  have st': "bfs_found st'" "hm_get (bfs_tree st') dst = Some (Some u)"
    "\<And>v. v \<in> ?V \<Longrightarrow> hm_get (bfs_tree st') v = hm_get (bfs_tree st) v"
    using bfs_visit_found[of dst "g u" ?st u, folded st'_def] dst u by auto
  have "bfs_tree_ok src g (next_level ?V u lev) (insert dst ?V) (hm_get (bfs_tree st'))"
    by (rule bfs_tree_ok_extend[OF tree u]) (use dst st' in \<open>auto simp: next_level_def\<close>)
  moreover have "next_level ?V u lev dst \<le> n" if "(src, dst) \<in> succs g ^^ n" for n
    using front that dst by (auto simp: bfs_front_ok_def next_level_def not_less_eq_eq)
  moreover have "dst \<noteq> src" using tree dst by (auto simp: bfs_tree_ok_def)
  ultimately show ?thesis using st'(1) by (auto simp: pop bfs_goal_def)
qed

text \<open>The two cases of an iteration, as one invariant of the \<open>while\<close> loop.\<close>

definition bfs_loop_inv :: "'n \<Rightarrow> 'n \<Rightarrow> ('n \<Rightarrow> 'n list) \<Rightarrow> 'n set \<Rightarrow> 'n bfs_state \<Rightarrow> bool" where
  "bfs_loop_inv src dst g S st \<longleftrightarrow>
     (if bfs_found st then \<exists>lev. bfs_goal src dst g lev st
      else set (bfs_visited st) \<subseteq> S \<and> (\<exists>lev. bfs_inv src dst g lev st))"

definition bfs_order :: "'n set \<Rightarrow> ('n bfs_state \<times> 'n bfs_state) set" where
  "bfs_order S = measures
     [\<lambda>st. if bfs_found st then 0 else 1, \<lambda>st. card (S - set (bfs_visited st)), \<lambda>st. length (bfs_queue st)]"

lemma bfs_pop_unfound_order:
  assumes V: "set (bfs_visited st) \<subseteq> S" and S: "finite S" "set (g u) \<subseteq> S"
    and q: "bfs_queue st = u # q" and unfound: "\<not> bfs_found st"
    and dst: "dst \<notin> set (g u) - set (bfs_visited st)"
  shows "set (bfs_visited (bfs_pop dst g st)) \<subseteq> S \<and> \<not> bfs_found (bfs_pop dst g st) \<and>
    (bfs_pop dst g st, st) \<in> bfs_order S"
proof -
  let ?V = "set (bfs_visited st)" and ?st' = "bfs_pop dst g st"
  have "expands u (g u) (st \<lparr> bfs_queue := q \<rparr>) ?st'"
    using bfs_visit_unfound[of dst "g u" "st \<lparr> bfs_queue := q \<rparr>" u] dst by (simp add: bfs_pop_def q)
  then obtain news where news: "set news = set (g u) - ?V" "bfs_queue ?st' = q @ news"
    and V': "set (bfs_visited ?st') = ?V \<union> set (g u)" and found: "\<not> bfs_found ?st'"
    using unfound by (auto simp: expands_def)
  have "(?st', st) \<in> bfs_order S"
  proof (cases "set (g u) \<subseteq> ?V")
    case True
    then have "set news = {}" unfolding news(1) by simp
    moreover have "set (bfs_visited ?st') = ?V" using True V' by (simp add: Un_absorb2)
    ultimately show ?thesis using news(2) found unfound by (simp add: bfs_order_def q)
  next
    case False
    then have "card (S - (?V \<union> set (g u))) < card (S - ?V)" using S V by (intro psubset_card_mono) auto
    then show ?thesis using V' found unfound by (simp add: bfs_order_def)
  qed
  then show ?thesis using V S V' found by simp
qed

lemma bfs_pop_loop_inv:
  assumes inv: "bfs_loop_inv src dst g S st" and run: "bfs_running st"
    and S: "finite S" "\<And>u. u \<in> S \<Longrightarrow> set (g u) \<subseteq> S"
  shows "bfs_loop_inv src dst g S (bfs_pop dst g st) \<and> (bfs_pop dst g st, st) \<in> bfs_order S"
proof -
  obtain u q where q: "bfs_queue st = u # q" and unfound: "\<not> bfs_found st"
    using run by (cases "bfs_queue st") (auto simp: bfs_running_def)
  obtain lev where lev: "bfs_inv src dst g lev st" and V: "set (bfs_visited st) \<subseteq> S"
    using inv unfound by (auto simp: bfs_loop_inv_def)
  have "u \<in> set (bfs_visited st)" using lev by (auto simp: bfs_inv_def bfs_queue_ok_def q)
  then have u: "set (g u) \<subseteq> S" using V S(2) by blast
  show ?thesis
  proof (cases "dst \<in> set (g u) - set (bfs_visited st)")
    case True
    then show ?thesis
      using bfs_pop_found[OF lev q True] unfound by (auto simp: bfs_loop_inv_def bfs_order_def)
  next
    case False
    then show ?thesis
      using bfs_pop_unfound[OF lev q False] bfs_pop_unfound_order[of st S g u q dst] V S(1) u q unfound False
      by (auto simp: bfs_loop_inv_def)
  qed
qed

lemma bfs_closed_no_route:
  assumes "bfs_inv src dst g lev st" and "bfs_queue st = []" and "dst \<noteq> src"
  shows "(src, dst) \<notin> succs g ^^ n"
proof -
  let ?V = "set (bfs_visited st)"
  have src: "src \<in> ?V" and closed: "\<And>u. u \<in> ?V \<Longrightarrow> set (g u) \<subseteq> ?V" and dst: "dst \<notin> ?V"
    using assms by (auto simp: bfs_inv_def bfs_queue_ok_def bfs_tree_ok_def)
  have "(src, v) \<in> succs g ^^ n \<Longrightarrow> v \<in> ?V" for v
  proof (induction n arbitrary: v)
    case (Suc n)
    then show ?case using closed by (fastforce simp: succs_def)
  qed (use src in simp)
  then show ?thesis using dst by blast
qed

lemma bfs_loop_result:
  assumes S: "finite S" "src \<in> S" "\<And>u. u \<in> S \<Longrightarrow> set (g u) \<subseteq> S"
  shows "\<exists>st. bfs_loop src dst g = Some (if bfs_found st then Some (bfs_tree st) else None) \<and>
    (bfs_found st \<longrightarrow> (\<exists>lev. bfs_goal src dst g lev st)) \<and>
    (\<not> bfs_found st \<and> dst \<noteq> src \<longrightarrow> (\<forall>n. (src, dst) \<notin> succs g ^^ n))"
proof -
  note step = bfs_pop_loop_inv[of src dst g S, OF _ _ S(1,3)]
  have init: "bfs_loop_inv src dst g S (bfs_init src)"
    using bfs_init_inv[of src dst g] S(2) by (auto simp: bfs_loop_inv_def bfs_init_def)
  have "\<exists>st. while_option bfs_running (bfs_pop dst g) (bfs_init src) = Some st"
    by (rule wf_rel_while_option_Some[of "bfs_order S" "bfs_loop_inv src dst g S"])
      (use step init in \<open>simp_all add: bfs_order_def\<close>)
  then obtain st where st: "while_option bfs_running (bfs_pop dst g) (bfs_init src) = Some st" ..
  have inv: "bfs_loop_inv src dst g S st"
    by (rule while_option_rule[where P = "bfs_loop_inv src dst g S", OF _ st init]) (use step in blast)
  have stop: "bfs_found st \<or> bfs_queue st = []"
    using while_option_stop[OF st] by (auto simp: bfs_running_def)
  have "(src, dst) \<notin> succs g ^^ n" if "\<not> bfs_found st" "dst \<noteq> src" for n
    using inv stop that by (auto simp: bfs_loop_inv_def dest: bfs_closed_no_route)
  then show ?thesis
    using st inv by (intro exI[of _ st]) (auto simp: bfs_loop_def bfs_loop_inv_def)
qed

section \<open>Backtracking\<close>

lemma bfs_backtrack_from_route:
  assumes tree: "bfs_tree_ok src g lev V (hm_get tree)"
  shows "v \<in> V \<Longrightarrow> is_route g (v # acc) \<Longrightarrow> distinct acc \<Longrightarrow> \<forall>w\<in>set acc. lev v < lev w \<Longrightarrow>
    \<exists>route. bfs_backtrack_from tree v (v # acc) = Some (Some route) \<and>
      route_between g src (last (v # acc)) route \<and> distinct route \<and> length route = lev v + Suc (length acc)"
proof (induction "lev v" arbitrary: v acc)
  case 0
  then have "v = src" using bfs_tree_ok_parent[OF tree] by (metis nat.distinct(1))
  then show ?case
    using tree 0 by (auto simp: bfs_tree_ok_def bfs_backtrack_from.simps[of tree src] route_between_def)
next
  case (Suc l)
  then have "v \<noteq> src" using tree by (auto simp: bfs_tree_ok_def)
  then obtain u where u: "u \<in> V" "hm_get tree v = Some (Some u)" "v \<in> set (g u)" "lev v = Suc (lev u)"
    using bfs_tree_ok_parent[OF tree Suc(3)] by blast
  have "\<exists>route. bfs_backtrack_from tree u (u # v # acc) = Some (Some route) \<and>
      route_between g src (last (u # v # acc)) route \<and> distinct route \<and>
      length route = lev u + Suc (length (v # acc))"
    using Suc u by (intro Suc(1)) auto
  then show ?case using u by (simp add: bfs_backtrack_from.simps[of tree v])
qed

lemma bfs_goal_backtrack:
  assumes "bfs_goal src dst g lev st"
  shows "\<exists>route. bfs_backtrack dst (bfs_tree st) = Some (Some route) \<and> route_between g src dst route \<and>
    distinct route \<and> 2 \<le> length route \<and>
    (\<forall>other. route_between g src dst other \<longrightarrow> length route \<le> length other)"
proof -
  obtain V where V: "bfs_tree_ok src g lev V (hm_get (bfs_tree st))" "dst \<in> V" "dst \<noteq> src"
    and least: "\<And>n. (src, dst) \<in> succs g ^^ n \<Longrightarrow> lev dst \<le> n"
    using assms by (auto simp: bfs_goal_def)
  obtain route where route: "bfs_backtrack dst (bfs_tree st) = Some (Some route)"
      "route_between g src dst route" "distinct route" "length route = Suc (lev dst)"
    using bfs_backtrack_from_route[OF V(1,2), of "[]"] by (auto simp: bfs_backtrack_def)
  have "lev dst \<noteq> 0" using bfs_tree_ok_parent[OF V] by (metis nat.distinct(1))
  moreover have "length route \<le> length other" if "route_between g src dst other" for other
  proof -
    have "lev dst \<le> length other - 1"
      using that by (intro least) (auto simp: route_between_def dest: is_route_relpow)
    moreover have "other \<noteq> []" using that by (auto simp: route_between_def)
    ultimately show ?thesis using route by (cases other) auto
  qed
  ultimately show ?thesis using route by auto
qed

text \<open>
  On a finite graph \<open>bfs\<close> returns. It finds a shortest route without repetitions, and it finds none
  only if there is none, or if it is asked for a route from a node to itself.
\<close>

lemma bfs_result:
  assumes "finite S" "src \<in> S" "\<And>u. u \<in> S \<Longrightarrow> set (g u) \<subseteq> S"
  shows "(\<exists>route. bfs src dst g = Some (Some route) \<and> src \<noteq> dst \<and> route_between g src dst route \<and>
      distinct route \<and> 2 \<le> length route \<and>
      (\<forall>other. route_between g src dst other \<longrightarrow> length route \<le> length other)) \<or>
    bfs src dst g = Some None \<and> (src = dst \<or> (\<forall>route. \<not> route_between g src dst route))"
proof -
  obtain st where st: "bfs_loop src dst g = Some (if bfs_found st then Some (bfs_tree st) else None)"
    "bfs_found st \<Longrightarrow> \<exists>lev. bfs_goal src dst g lev st"
    "\<not> bfs_found st \<Longrightarrow> dst \<noteq> src \<Longrightarrow> \<forall>n. (src, dst) \<notin> succs g ^^ n"
    using bfs_loop_result[of S src g dst] assms by blast
  show ?thesis
  proof (cases "bfs_found st")
    case True
    then obtain lev where "bfs_goal src dst g lev st" using st(2) by blast
    from bfs_goal_backtrack[OF this] this show ?thesis
      using st(1) True by (auto simp: bfs_def bfs_goal_def)
  next
    case False
    then have "src = dst \<or> (\<forall>route. \<not> route_between g src dst route)"
      using st(3)[OF False] by (auto simp: route_between_def dest: is_route_relpow)
    then show ?thesis using st(1) False by (simp add: bfs_def)
  qed
qed

end
