(* ===== verification/Capacity_Graph.thy ===== *)
theory Capacity_Graph
  imports Bfs Funder_Messages
begin

text \<open>
  The capacity graph of the index server (\<open>index_server/src/graph/\<close>: \<open>capacity_graph.rs\<close>,
  \<open>simple_capacity_graph.rs\<close>, \<open>utils.rs\<close>, and the instance of \<open>LinearRate\<close> for \<open>Rate\<close> in
  \<open>server_loop.rs\<close>). The trait \<open>LinearRate\<close> has the one instance \<open>Rate\<close> outside tests, so the rates of
  the model are of that type. The graph is shown to implement an abstract map from directed edges to
  announcements, and the search for routes is shown to end and to return a usable route.
\<close>

section \<open>Rates\<close>

definition linear_rate_zero :: rate where
  "linear_rate_zero = \<lparr> rate_mul = 0, rate_add = 0 \<rparr>"

definition linear_rate_checked_add :: "rate \<Rightarrow> rate \<Rightarrow> rate option" where
  "linear_rate_checked_add a b =
     (case u_checked_add (rate_mul a) (rate_mul b) of
        None \<Rightarrow> None
      | Some mul \<Rightarrow>
          (case u_checked_add (rate_add a) (rate_add b) of
             None \<Rightarrow> None
           | Some add \<Rightarrow> Some \<lparr> rate_mul = mul, rate_add = add \<rparr>))"

section \<open>The graph\<close>

record capacity_edge =
  recv_capacity :: u128
  ce_rate :: rate

record edge =
  capacity_edge :: capacity_edge
  age :: u128

definition edge_new :: "capacity_edge \<Rightarrow> edge" where
  "edge_new ce = \<lparr> capacity_edge = ce, age = 0 \<rparr>"

record 'n node_edges =
  edges :: "('n, edge) hash_map"

definition node_edges_new :: "'n node_edges" where
  "node_edges_new = \<lparr> edges = [] \<rparr>"

record 'n simple_capacity_graph =
  nodes :: "('n, 'n node_edges) hash_map"

record 'n capacity_route =
  cr_route :: "'n list"
  cr_capacity :: u128
  cr_rate :: rate

record 'n capacity_multi_route =
  cmr_routes :: "'n capacity_route list"

definition BASE_MAX_EDGE_AGE :: u128 where
  "BASE_MAX_EDGE_AGE = 16"

definition max_edge_age :: "nat \<Rightarrow> u128" where
  "max_edge_age num_edges = BASE_MAX_EDGE_AGE + 3 * of_nat num_edges"

definition edge_older :: "edge \<Rightarrow> edge" where
  "edge_older e = e \<lparr> age := u_saturating_add (age e) 1 \<rparr>"

definition node_edges_tick :: "'n node_edges \<Rightarrow> 'n node_edges" where
  "node_edges_tick ne =
     (let max_age = max_edge_age (length (edges ne))
      in ne \<lparr> edges := filter (\<lambda>(_, e). age e < max_age) (map (\<lambda>(n, e). (n, edge_older e)) (edges ne)) \<rparr>)"

definition graph_new :: "'n simple_capacity_graph" where
  "graph_new = \<lparr> nodes = [] \<rparr>"

definition get_edge :: "'n simple_capacity_graph \<Rightarrow> 'n \<Rightarrow> 'n \<Rightarrow> edge option" where
  "get_edge g a b =
     (case hm_get (nodes g) a of
        None \<Rightarrow> None
      | Some a_edges \<Rightarrow> hm_get (edges a_edges) b)"

definition get_send_capacity :: "'n simple_capacity_graph \<Rightarrow> 'n \<Rightarrow> 'n \<Rightarrow> u128" where
  "get_send_capacity g a b =
     (if get_edge g a b = None then 0
      else case get_edge g b a of
             Some b_a_edge \<Rightarrow> recv_capacity (capacity_edge b_a_edge)
           | None \<Rightarrow> 0)"

definition neighbors_with_send_capacity :: "'n simple_capacity_graph \<Rightarrow> 'n \<Rightarrow> u128 \<Rightarrow> 'n list" where
  "neighbors_with_send_capacity g a capacity =
     (case hm_get (nodes g) a of
        None \<Rightarrow> []
      | Some a_edges \<Rightarrow> filter (\<lambda>b. get_send_capacity g a b \<ge> capacity) (hm_keys (edges a_edges)))"

definition get_route_capacity :: "'n simple_capacity_graph \<Rightarrow> 'n list \<Rightarrow> u128 option" where
  "get_route_capacity g route =
     (if route = [] then None
      else let capacities =
             map (\<lambda>i. get_send_capacity g (route ! i) (route ! (i + 1))) [0..<length route - 1]
           in if capacities = [] then None else Some (min_list capacities))"

fun route_rate_loop :: "'n simple_capacity_graph \<Rightarrow> 'n list \<Rightarrow> nat list \<Rightarrow> rate \<Rightarrow> rate option" where
  "route_rate_loop g route [] total_rate = Some total_rate"
| "route_rate_loop g route (i # is) total_rate =
     (case get_edge g (route ! i) (route ! (i + 1)) of
        None \<Rightarrow> None
      | Some e \<Rightarrow>
          (case linear_rate_checked_add total_rate (ce_rate (capacity_edge e)) of
             None \<Rightarrow> None
           | Some total_rate \<Rightarrow> route_rate_loop g route is total_rate))"

definition get_route_rate :: "'n simple_capacity_graph \<Rightarrow> 'n list \<Rightarrow> rate option" where
  "get_route_rate g route =
     (if length route < 2 then None
      else route_rate_loop g route [0..<length route - 2] linear_rate_zero)"

definition route_neighbors ::
  "'n simple_capacity_graph \<Rightarrow> u128 \<Rightarrow> ('n \<times> 'n) option \<Rightarrow> 'n \<Rightarrow> 'n list" where
  "route_neighbors g capacity opt_exclude cur_node =
     (let opt_e_start = map_option fst opt_exclude;
          opt_e_end = map_option snd opt_exclude;
          cur_node_is_e_start = (Some cur_node = opt_e_start)
      in filter (\<lambda>next_node. \<not> cur_node_is_e_start \<or> Some next_node \<noteq> opt_e_end)
           (neighbors_with_send_capacity g cur_node capacity))"

text \<open>The outer \<open>option\<close> is \<^const>\<open>None\<close> if the search does not return.\<close>

definition get_multi_route ::
  "'n simple_capacity_graph \<Rightarrow> 'n \<Rightarrow> 'n \<Rightarrow> u128 \<Rightarrow> ('n \<times> 'n) option \<Rightarrow>
     ('e, 'n capacity_multi_route option) result option" where
  "get_multi_route g a b capacity opt_exclude =
     (case bfs a b (route_neighbors g capacity opt_exclude) of
        None \<Rightarrow> None
      | Some None \<Rightarrow> Some (Ok None)
      | Some (Some route) \<Rightarrow>
          Some (and_then (unwrap (get_route_capacity g route)) (\<lambda>capacity.
            Ok (case get_route_rate g route of
                  None \<Rightarrow> None
                | Some rate \<Rightarrow>
                    Some \<lparr> cmr_routes = [\<lparr> cr_route = route, cr_capacity = capacity, cr_rate = rate \<rparr>] \<rparr>))))"

fun option_to_vec :: "'a option \<Rightarrow> 'a list" where
  "option_to_vec (Some t) = [t]"
| "option_to_vec None = []"

definition update_edge ::
  "'n \<Rightarrow> 'n \<Rightarrow> capacity_edge \<Rightarrow> 'n simple_capacity_graph \<Rightarrow> 'n simple_capacity_graph \<times> capacity_edge option" where
  "update_edge a b ce g =
     (let a_entry = (case hm_get (nodes g) a of Some ne \<Rightarrow> ne | None \<Rightarrow> node_edges_new);
          old = hm_get (edges a_entry) b;
          a_entry = a_entry \<lparr> edges := hm_insert b (edge_new ce) (edges a_entry) \<rparr>
      in (g \<lparr> nodes := hm_insert a a_entry (nodes g) \<rparr>, map_option capacity_edge old))"

definition remove_edge ::
  "'n \<Rightarrow> 'n \<Rightarrow> 'n simple_capacity_graph \<Rightarrow> 'n simple_capacity_graph \<times> capacity_edge option" where
  "remove_edge a b g =
     (case hm_get (nodes g) a of
        None \<Rightarrow> (g, None)
      | Some a_edges \<Rightarrow>
          (case hm_get (edges a_edges) b of
             None \<Rightarrow> (g, None)
           | Some old_edge \<Rightarrow>
               (let a_edges = a_edges \<lparr> edges := hm_remove b (edges a_edges) \<rparr>;
                    g = (if edges a_edges = [] then g \<lparr> nodes := hm_remove a (nodes g) \<rparr>
                         else g \<lparr> nodes := hm_insert a a_edges (nodes g) \<rparr>)
                in (g, Some (capacity_edge old_edge)))))"

definition remove_node :: "'n \<Rightarrow> 'n simple_capacity_graph \<Rightarrow> 'n simple_capacity_graph \<times> bool" where
  "remove_node a g =
     (let g = g \<lparr> nodes := hm_remove a (nodes g) \<rparr> in (g, nodes g = []))"

definition get_multi_routes ::
  "'n simple_capacity_graph \<Rightarrow> 'n \<Rightarrow> 'n \<Rightarrow> u128 \<Rightarrow> ('n \<times> 'n) option \<Rightarrow>
     ('e, 'n capacity_multi_route list) result option" where
  "get_multi_routes g a b capacity opt_exclude =
     map_option (\<lambda>r. and_then r (\<lambda>opt. Ok (option_to_vec opt))) (get_multi_route g a b capacity opt_exclude)"

definition graph_tick :: "'n \<Rightarrow> 'n simple_capacity_graph \<Rightarrow> 'n simple_capacity_graph" where
  "graph_tick a g =
     (case hm_get (nodes g) a of
        Some ne \<Rightarrow> g \<lparr> nodes := hm_insert a (node_edges_tick ne) (nodes g) \<rparr>
      | None \<Rightarrow> g)"

text \<open>A graph with one announcement.\<close>

definition sample_graph :: "nat simple_capacity_graph" where
  "sample_graph = fst (update_edge 1 2 \<lparr> recv_capacity = 10, ce_rate = \<lparr> rate_mul = 0, rate_add = 3 \<rparr> \<rparr> graph_new)"

section \<open>What a route promises\<close>

text \<open>
  Every hop of a usable route is an edge that both ends have announced with the capacity that was
  asked for, and none of them is the excluded edge.
\<close>

definition usable_route ::
  "'n simple_capacity_graph \<Rightarrow> u128 \<Rightarrow> ('n \<times> 'n) option \<Rightarrow> 'n \<Rightarrow> 'n \<Rightarrow> 'n list \<Rightarrow> bool" where
  "usable_route g capacity opt_exclude a b route \<longleftrightarrow>
     route \<noteq> [] \<and> hd route = a \<and> last route = b \<and>
     (\<forall>i. Suc i < length route \<longrightarrow>
        get_edge g (route ! i) (route ! Suc i) \<noteq> None \<and>
        capacity \<le> get_send_capacity g (route ! i) (route ! Suc i) \<and>
        opt_exclude \<noteq> Some (route ! i, route ! Suc i))"

definition route_carries :: "'n simple_capacity_graph \<Rightarrow> u128 \<Rightarrow> 'n list \<Rightarrow> bool" where
  "route_carries g cap route \<longleftrightarrow>
     (\<forall>i. Suc i < length route \<longrightarrow> cap \<le> get_send_capacity g (route ! i) (route ! Suc i))"

definition shortest_usable ::
  "'n simple_capacity_graph \<Rightarrow> u128 \<Rightarrow> ('n \<times> 'n) option \<Rightarrow> 'n \<Rightarrow> 'n \<Rightarrow> 'n list \<Rightarrow> bool" where
  "shortest_usable g capacity opt_exclude a b route \<longleftrightarrow>
     usable_route g capacity opt_exclude a b route \<and>
     (\<forall>other. usable_route g capacity opt_exclude a b other \<longrightarrow> length route \<le> length other)"

lemma is_route_iff:
  "is_route nb route \<longleftrightarrow>
     route \<noteq> [] \<and> (\<forall>i. Suc i < length route \<longrightarrow> route ! Suc i \<in> set (nb (route ! i)))"
proof (induction nb route rule: is_route.induct)
  case (3 nb u v route)
  then show ?case by (auto simp: nth_Cons split: nat.splits)
qed auto

lemma in_route_neighbors:
  "v \<in> set (route_neighbors g capacity ex u) \<longleftrightarrow>
     get_edge g u v \<noteq> None \<and> capacity \<le> get_send_capacity g u v \<and> ex \<noteq> Some (u, v)"
  by (cases ex)
    (auto simp: route_neighbors_def neighbors_with_send_capacity_def get_edge_def in_hm_keys_iff
      Let_def split: option.splits)

lemma route_between_usable:
  "route_between (route_neighbors g capacity ex) a b route \<longleftrightarrow> usable_route g capacity ex a b route"
  by (auto simp: route_between_def usable_route_def is_route_iff in_route_neighbors)

text \<open>The nodes that a search can meet are finitely many.\<close>

definition graph_targets :: "'n simple_capacity_graph \<Rightarrow> 'n set" where
  "graph_targets g = (\<Union>(_, ne) \<in> set (nodes g). set (hm_keys (edges ne)))"

lemma route_neighbors_targets: "set (route_neighbors g capacity ex u) \<subseteq> graph_targets g"
proof
  fix v assume "v \<in> set (route_neighbors g capacity ex u)"
  then obtain ne where "hm_get (nodes g) u = Some ne" "v \<in> set (hm_keys (edges ne))"
    by (auto simp: in_route_neighbors get_edge_def in_hm_keys_iff split: option.splits)
  then show "v \<in> graph_targets g" by (force simp: graph_targets_def dest: hm_get_SomeD)
qed

lemma route_search_cases:
  "(\<exists>route. bfs a b (route_neighbors g capacity ex) = Some (Some route) \<and> a \<noteq> b \<and>
      shortest_usable g capacity ex a b route \<and> distinct route \<and> 2 \<le> length route) \<or>
   bfs a b (route_neighbors g capacity ex) = Some None \<and>
     (a = b \<or> (\<forall>route. \<not> usable_route g capacity ex a b route))"
proof -
  have "finite (insert a (graph_targets g))" by (auto simp: graph_targets_def)
  from bfs_result[OF this, of a "route_neighbors g capacity ex" b] route_neighbors_targets[of g capacity ex]
  show ?thesis by (auto simp: route_between_usable shortest_usable_def)
qed

lemma route_capacity_ge:
  assumes "usable_route g capacity ex a b route" and "2 \<le> length route"
  shows "\<exists>cap. get_route_capacity g route = Some cap \<and> capacity \<le> cap \<and> route_carries g cap route"
proof -
  let ?caps = "map (\<lambda>i. get_send_capacity g (route ! i) (route ! (i + 1))) [0..<length route - 1]"
  have ne: "?caps \<noteq> []" "route \<noteq> []" using assms(2) by auto
  then have "min_list ?caps = Min (set ?caps)" by (intro min_list_Min)
  moreover have "capacity \<le> Min (set ?caps)"
    using assms(1) ne by (subst Min_ge_iff) (auto simp: usable_route_def)
  moreover have "Min (set ?caps) \<le> get_send_capacity g (route ! i) (route ! Suc i)"
    if "Suc i < length route" for i
    using that by (intro Min_le) auto
  ultimately show ?thesis using ne by (simp add: get_route_capacity_def route_carries_def)
qed

section \<open>The graph as a map of announced edges\<close>

text \<open>What each operation promises, on the map that gives each directed edge its announcement.\<close>

type_synonym 'n edge_map = "'n \<Rightarrow> 'n \<Rightarrow> edge option"

definition spec_update :: "'n \<Rightarrow> 'n \<Rightarrow> capacity_edge \<Rightarrow> 'n edge_map \<Rightarrow> 'n edge_map" where
  "spec_update a b ce E = E(a := (E a)(b \<mapsto> edge_new ce))"

definition spec_remove_edge :: "'n \<Rightarrow> 'n \<Rightarrow> 'n edge_map \<Rightarrow> 'n edge_map" where
  "spec_remove_edge a b E = E(a := (E a)(b := None))"

definition spec_remove_node :: "'n \<Rightarrow> 'n edge_map \<Rightarrow> 'n edge_map" where
  "spec_remove_node a E = E(a := Map.empty)"

definition spec_tick :: "'n \<Rightarrow> 'n edge_map \<Rightarrow> 'n edge_map" where
  "spec_tick a E = E(a := (\<lambda>b. case E a b of
       None \<Rightarrow> None
     | Some e \<Rightarrow> if age (edge_older e) < max_edge_age (card (dom (E a))) then Some (edge_older e) else None))"

definition graph_wf :: "'n simple_capacity_graph \<Rightarrow> bool" where
  "graph_wf g \<longleftrightarrow> hm_wf (nodes g) \<and> (\<forall>a ne. hm_get (nodes g) a = Some ne \<longrightarrow> hm_wf (edges ne))"

lemma hm_get_tick:
  assumes "hm_wf m"
  shows "hm_get (filter (\<lambda>(_, e). age e < l) (map (\<lambda>(n, e). (n, edge_older e)) m)) k =
    (case hm_get m k of None \<Rightarrow> None | Some e \<Rightarrow> if age (edge_older e) < l then Some (edge_older e) else None)"
  using assms
proof (induction m)
  case (Cons p m)
  have "hm_get m (fst p) = None" using Cons.prems hm_get_eq_None_iff[of m "fst p"]
    by (auto simp: hm_wf_def hm_keys_def)
  then show ?case
    using Cons by (auto simp: hm_wf_def hm_keys_def hm_get_def split: prod.splits option.splits)
qed (simp add: hm_get_def)

lemma hm_wf_tick:
  "hm_wf m \<Longrightarrow> hm_wf (filter (\<lambda>(_, e). age e < l) (map (\<lambda>(n, e). (n, edge_older e)) m))"
  by (induction m) (force simp: hm_wf_def hm_keys_def)+

lemma length_hm_card: "hm_wf m \<Longrightarrow> length m = card (dom (hm_get m))"
proof -
  assume "hm_wf m"
  then have "card (set (map fst m)) = length m"
    using distinct_card[of "map fst m"] by (simp add: hm_wf_def hm_keys_def)
  moreover have "set (map fst m) = dom (hm_get m)" by (simp add: dom_map_of_conv_image_fst hm_get_def[abs_def])
  ultimately show ?thesis by simp
qed

lemma hm_get_remove_empty: "hm_remove k m = [] \<Longrightarrow> x \<noteq> k \<Longrightarrow> hm_get m x = None"
  using hm_get_remove[of k m] by (metis fun_upd_other hm_get_Nil)

lemma graph_new_refines: "graph_wf graph_new \<and> get_edge graph_new = (\<lambda>_ _. None)"
  by (auto simp: graph_wf_def graph_new_def get_edge_def fun_eq_iff)

lemma update_edge_refines:
  assumes "graph_wf g"
  shows "graph_wf (fst (update_edge a b ce g)) \<and>
    get_edge (fst (update_edge a b ce g)) = spec_update a b ce (get_edge g) \<and>
    snd (update_edge a b ce g) = map_option capacity_edge (get_edge g a b)"
  using assms
  by (auto simp: graph_wf_def update_edge_def spec_update_def get_edge_def node_edges_new_def Let_def
      hm_simps fun_eq_iff split: option.splits if_splits)

lemma remove_edge_refines:
  assumes "graph_wf g"
  shows "graph_wf (fst (remove_edge a b g)) \<and>
    get_edge (fst (remove_edge a b g)) = spec_remove_edge a b (get_edge g) \<and>
    snd (remove_edge a b g) = map_option capacity_edge (get_edge g a b)"
proof (cases "get_edge g a b")
  case None
  then show ?thesis
    using assms by (auto simp: remove_edge_def spec_remove_edge_def get_edge_def fun_eq_iff split: option.splits)
next
  case (Some e)
  then obtain ne where ne: "hm_get (nodes g) a = Some ne" "hm_get (edges ne) b = Some e"
    by (auto simp: get_edge_def split: option.splits)
  show ?thesis
    using assms ne
    by (cases "hm_remove b (edges ne) = []")
      (auto simp: remove_edge_def spec_remove_edge_def get_edge_def graph_wf_def Let_def hm_simps
        hm_get_remove_empty fun_eq_iff split: option.splits if_splits)
qed

lemma remove_node_refines:
  assumes "graph_wf g"
  shows "graph_wf (fst (remove_node a g)) \<and>
    get_edge (fst (remove_node a g)) = spec_remove_node a (get_edge g) \<and>
    (snd (remove_node a g) \<longrightarrow> spec_remove_node a (get_edge g) = (\<lambda>_ _. None))"
  using assms
  by (auto simp: graph_wf_def remove_node_def spec_remove_node_def get_edge_def Let_def hm_simps
      hm_get_remove_empty fun_eq_iff split: option.splits if_splits)

lemma graph_tick_refines:
  assumes "graph_wf g"
  shows "graph_wf (graph_tick a g) \<and> get_edge (graph_tick a g) = spec_tick a (get_edge g)"
proof (cases "hm_get (nodes g) a")
  case None
  then show ?thesis
    using assms by (auto simp: graph_tick_def spec_tick_def get_edge_def fun_eq_iff)
next
  case (Some ne)
  then have wf: "hm_wf (edges ne)" and edges: "get_edge g a = hm_get (edges ne)"
    using assms by (auto simp: graph_wf_def get_edge_def)
  from wf have "hm_get (edges (node_edges_tick ne)) = spec_tick a (get_edge g) a" "hm_wf (edges (node_edges_tick ne))"
    by (auto simp: node_edges_tick_def Let_def hm_get_tick hm_wf_tick spec_tick_def length_hm_card edges
        fun_eq_iff split: option.splits)
  then show ?thesis
    using assms Some by (auto simp: graph_tick_def graph_wf_def get_edge_def spec_tick_def hm_simps fun_eq_iff
        split: if_splits)
qed

section \<open>Properties\<close>

text \<open>
  C9. A search for routes returns on every graph, and the \<open>unwrap\<close> of the route's capacity never
  panics. The answer is empty only if source and destination are the same node, no usable route
  exists, or the rates of a shortest one do not fit in 32 bits. Otherwise it is one route that visits
  no node twice, avoids the excluded edge, is as short as any usable route, and carries the
  reported capacity, which is at least the one asked for.
\<close>

theorem multi_routes_correct:
  "\<exists>rs. (get_multi_routes g a b capacity opt_exclude :: ('e, _) result option) = Some (Ok rs) \<and>
    (rs = [] \<and>
       (a = b \<or> (\<forall>route. \<not> usable_route g capacity opt_exclude a b route) \<or>
        (\<exists>route. shortest_usable g capacity opt_exclude a b route \<and> get_route_rate g route = None)) \<or>
     (\<exists>route cap rate.
        rs = [\<lparr> cmr_routes = [\<lparr> cr_route = route, cr_capacity = cap, cr_rate = rate \<rparr>] \<rparr>] \<and>
        a \<noteq> b \<and> distinct route \<and> shortest_usable g capacity opt_exclude a b route \<and>
        capacity \<le> cap \<and> route_carries g cap route \<and> get_route_rate g route = Some rate))"
  using route_search_cases[of a b g capacity opt_exclude]
proof (elim disjE exE conjE)
  fix route
  assume bfs: "bfs a b (route_neighbors g capacity opt_exclude) = Some (Some route)"
    and route: "a \<noteq> b" "shortest_usable g capacity opt_exclude a b route" "distinct route" "2 \<le> length route"
  then obtain cap where "get_route_capacity g route = Some cap" "capacity \<le> cap" "route_carries g cap route"
    using route_capacity_ge[of g capacity opt_exclude a b route] by (auto simp: shortest_usable_def)
  with bfs route show ?thesis
    by (cases "get_route_rate g route") (auto simp: get_multi_routes_def get_multi_route_def)
qed (auto simp: get_multi_routes_def get_multi_route_def)

text \<open>
  C37. The rate of a route ignores the nodes that forward. A node announces, on its edge to a friend,
  what it charges that friend for forwarding; on the route \<open>a\<close>, \<open>x\<close>, \<open>b\<close> the forwarder is \<open>x\<close> and the
  payer is \<open>a\<close>. The rate reported is the one that \<open>a\<close> announced for \<open>x\<close>, and no announcement of \<open>x\<close>
  about \<open>a\<close> changes it.
\<close>

theorem route_rate_ignores_forwarder:
  assumes "graph_wf g" and "a \<noteq> x" and "get_edge g a x = Some e"
  shows "get_route_rate (fst (update_edge x a ce g)) [a, x, b] = Some (ce_rate (capacity_edge e))"
proof -
  have zero: "linear_rate_checked_add linear_rate_zero r = Some r" for r
  proof -
    have "unat (w :: u32) < 4294967296" for w using unat_lt_2p[of w] by simp
    then show ?thesis by (simp add: linear_rate_checked_add_def linear_rate_zero_def u_checked_add_def)
  qed
  have "get_edge (fst (update_edge x a ce g)) a x = Some e"
    using assms update_edge_refines[of g x a ce] by (simp add: spec_update_def)
  then show ?thesis by (simp add: get_route_rate_def zero upt_rec)
qed

theorem route_rate_ignores_forwarder_witness:
  "get_route_rate (fst (update_edge 2 1 \<lparr> recv_capacity = 10, ce_rate = \<lparr> rate_mul = 0, rate_add = 9 \<rparr> \<rparr>
     sample_graph)) [1, 2, 3 :: nat] = Some \<lparr> rate_mul = 0, rate_add = 3 \<rparr>"
proof -
  have "graph_wf sample_graph"
    by (simp add: sample_graph_def update_edge_refines graph_new_refines)
  moreover have "get_edge sample_graph 1 2 =
      Some (edge_new \<lparr> recv_capacity = 10, ce_rate = \<lparr> rate_mul = 0, rate_add = 3 \<rparr> \<rparr>)"
    by (simp add: sample_graph_def update_edge_def graph_new_def get_edge_def hm_get_def hm_insert_def
        node_edges_new_def)
  ultimately show ?thesis
    using route_rate_ignores_forwarder[of sample_graph 1 2] by (simp add: edge_new_def)
qed

end
