(* ===== verification/Graph_Service.thy ===== *)
theory Graph_Service
  imports Capacity_Graph
begin

text \<open>
  The graph service of the index server (\<open>index_server/src/graph/graph_service.rs\<close>): one capacity graph
  per currency behind a queue of requests. The trait \<open>CapacityGraph\<close> is a record of operations, the
  parameter \<open>CG\<close> of the service. A locale states what the trait promises; the service is shown, for
  every graph that keeps the promise, to implement one abstract map of edges per currency for all
  requests but \<open>RemoveNode\<close>, and to lose every edge on \<open>RemoveNode\<close>.
\<close>

section \<open>The service\<close>

record ('g, 'n) capacity_graph_trait =
  cg_new :: 'g
  cg_update_edge :: "'n \<Rightarrow> 'n \<Rightarrow> capacity_edge \<Rightarrow> 'g \<Rightarrow> 'g \<times> capacity_edge option"
  cg_remove_edge :: "'n \<Rightarrow> 'n \<Rightarrow> 'g \<Rightarrow> 'g \<times> capacity_edge option"
  cg_remove_node :: "'n \<Rightarrow> 'g \<Rightarrow> 'g \<times> bool"
  cg_get_multi_routes ::
    "'g \<Rightarrow> 'n \<Rightarrow> 'n \<Rightarrow> u128 \<Rightarrow> ('n \<times> 'n) option \<Rightarrow> (unit, 'n capacity_multi_route list) result option"
  cg_tick :: "'n \<Rightarrow> 'g \<Rightarrow> 'g"

definition simple_graph :: "('n simple_capacity_graph, 'n) capacity_graph_trait" where
  "simple_graph =
     \<lparr> cg_new = graph_new, cg_update_edge = update_edge, cg_remove_edge = remove_edge,
       cg_remove_node = remove_node, cg_get_multi_routes = get_multi_routes, cg_tick = graph_tick \<rparr>"

datatype ('k, 'n) graph_request =
    UpdateEdge 'k 'n 'n capacity_edge
  | RemoveEdge 'k 'n 'n
  | RemoveNode 'n
  | GetMultiRoutes 'k 'n 'n u128 "('n \<times> 'n) option"
  | Tick 'n

text \<open>
  What goes through the one-shot sender of a request. The sender of \<open>RemoveEdge\<close> is dropped when
  the currency has no graph. The reply to a search holds its outcome, which may be that it panics
  or does not return.
\<close>

datatype 'n graph_reply =
    EdgeReply "capacity_edge option"
  | DoneReply
  | RoutesReply "(unit, 'n capacity_multi_route list) result option"
  | SenderDropped

fun process_request ::
  "('g, 'n) capacity_graph_trait \<Rightarrow> ('k, 'n) graph_request \<Rightarrow> ('k, 'g) hash_map \<Rightarrow>
     ('k, 'g) hash_map \<times> 'n graph_reply" where
  "process_request cg (UpdateEdge k a b ce) graphs =
     (let g = (case hm_get graphs k of Some g \<Rightarrow> g | None \<Rightarrow> cg_new cg);
          (g, old) = cg_update_edge cg a b ce g
      in (hm_insert k g graphs, EdgeReply old))"
| "process_request cg (RemoveEdge k a b) graphs =
     (case hm_get graphs k of
        Some g \<Rightarrow> (let (g, old) = cg_remove_edge cg a b g in (hm_insert k g graphs, EdgeReply old))
      | None \<Rightarrow> (graphs, SenderDropped))"
| "process_request cg (RemoveNode a) graphs =
     (List.map_filter (\<lambda>(k, g). let (g, keep) = cg_remove_node cg a g in if keep then Some (k, g) else None) graphs,
      DoneReply)"
| "process_request cg (GetMultiRoutes k a b capacity opt_exclude) graphs =
     (graphs,
      RoutesReply (case hm_get graphs k of
          Some g \<Rightarrow> cg_get_multi_routes cg g a b capacity opt_exclude
        | None \<Rightarrow> Some (Ok [])))"
| "process_request cg (Tick a) graphs = (map (\<lambda>(k, g). (k, cg_tick cg a g)) graphs, DoneReply)"

fun graph_service_loop ::
  "('g, 'n) capacity_graph_trait \<Rightarrow> ('k, 'n) graph_request list \<Rightarrow> ('k, 'g) hash_map \<Rightarrow> ('k, 'g) hash_map" where
  "graph_service_loop cg [] graphs = graphs"
| "graph_service_loop cg (req # reqs) graphs =
     graph_service_loop cg reqs (fst (process_request cg req graphs))"

section \<open>The client of the service\<close>

datatype graph_client_error = SendRequestError | ResponseReceiverClosed

fun edge_response :: "'n graph_reply \<Rightarrow> (graph_client_error, capacity_edge option) result" where
  "edge_response (EdgeReply old) = Ok old"
| "edge_response _ = Err ResponseReceiverClosed"

fun done_response :: "'n graph_reply \<Rightarrow> (graph_client_error, unit) result" where
  "done_response DoneReply = Ok ()"
| "done_response _ = Err ResponseReceiverClosed"

definition graph_client_update_edge where
  "graph_client_update_edge cg k a b ce graphs =
     (let (graphs, reply) = process_request cg (UpdateEdge k a b ce) graphs
      in and_then (edge_response reply) (\<lambda>old. Ok (graphs, old)))"

definition graph_client_remove_edge where
  "graph_client_remove_edge cg k a b graphs =
     (let (graphs, reply) = process_request cg (RemoveEdge k a b) graphs
      in and_then (edge_response reply) (\<lambda>old. Ok (graphs, old)))"

definition graph_client_remove_node where
  "graph_client_remove_node cg a graphs =
     (let (graphs, reply) = process_request cg (RemoveNode a) graphs
      in and_then (done_response reply) (\<lambda>_. Ok graphs))"

definition graph_client_tick where
  "graph_client_tick cg a graphs =
     (let (graphs, reply) = process_request cg (Tick a) graphs
      in and_then (done_response reply) (\<lambda>_. Ok graphs))"

text \<open>A search that panicked would take the service down; the client then sees a closed receiver.\<close>

definition graph_client_get_multi_routes where
  "graph_client_get_multi_routes cg k a b capacity opt_exclude graphs =
     (case snd (process_request cg (GetMultiRoutes k a b capacity opt_exclude) graphs) of
        RoutesReply (Some (Ok routes)) \<Rightarrow> Ok routes
      | _ \<Rightarrow> Err ResponseReceiverClosed)"

section \<open>One map of edges per currency\<close>

definition service_view :: "('g \<Rightarrow> 'n edge_map) \<Rightarrow> ('k, 'g) hash_map \<Rightarrow> 'k \<Rightarrow> 'n edge_map" where
  "service_view edges_of graphs k = (case hm_get graphs k of None \<Rightarrow> \<lambda>_ _. None | Some g \<Rightarrow> edges_of g)"

definition service_wf :: "('g \<Rightarrow> bool) \<Rightarrow> ('k, 'g) hash_map \<Rightarrow> bool" where
  "service_wf g_ok graphs \<longleftrightarrow> hm_wf graphs \<and> (\<forall>k g. hm_get graphs k = Some g \<longrightarrow> g_ok g)"

fun spec_request :: "('k, 'n) graph_request \<Rightarrow> ('k \<Rightarrow> 'n edge_map) \<Rightarrow> 'k \<Rightarrow> 'n edge_map" where
  "spec_request (UpdateEdge k a b ce) E = E(k := spec_update a b ce (E k))"
| "spec_request (RemoveEdge k a b) E = E(k := spec_remove_edge a b (E k))"
| "spec_request (RemoveNode a) E = (\<lambda>k. spec_remove_node a (E k))"
| "spec_request (GetMultiRoutes k a b capacity opt_exclude) E = E"
| "spec_request (Tick a) E = (\<lambda>k. spec_tick a (E k))"

fun removes_node :: "('k, 'n) graph_request \<Rightarrow> bool" where
  "removes_node (RemoveNode a) = True"
| "removes_node _ = False"

lemma hm_get_map_values: "hm_get (map (\<lambda>(k, v). (k, f v)) m) k = map_option f (hm_get m k)"
  by (induction m) (auto simp: hm_get_def)

lemma hm_wf_map_values: "hm_wf (map (\<lambda>(k, v). (k, f v)) m) \<longleftrightarrow> hm_wf m"
  by (simp add: hm_wf_def hm_keys_def comp_def case_prod_beta)

lemma hm_map_filter:
  assumes "hm_wf m"
  shows "hm_wf (List.map_filter (\<lambda>(k, v). map_option (Pair k) (f v)) m) \<and>
    hm_get (List.map_filter (\<lambda>(k, v). map_option (Pair k) (f v)) m) k = Option.bind (hm_get m k) f"
  using assms
proof (induction m)
  case (Cons p m)
  have keys: "set (hm_keys (List.map_filter (\<lambda>(k, v). map_option (Pair k) (f v)) m)) \<subseteq> set (hm_keys m)"
    by (force simp: hm_keys_def List.map_filter_def)
  have "hm_get m (fst p) = None"
    using Cons.prems hm_get_eq_None_iff[of m "fst p"] by (auto simp: hm_wf_def hm_keys_def)
  then show ?case
    using Cons keys
    by (cases p; cases "f (snd p)") (auto simp: List.map_filter_simps hm_wf_def hm_keys_def hm_get_def)
qed (auto simp: List.map_filter_simps hm_get_def)

text \<open>What the service relies on in the trait \<open>CapacityGraph\<close>.\<close>

locale capacity_graph_laws =
  fixes cg :: "('g, 'n) capacity_graph_trait"
    and g_ok :: "'g \<Rightarrow> bool"
    and edges_of :: "'g \<Rightarrow> 'n edge_map"
  assumes new_law: "g_ok (cg_new cg) \<and> edges_of (cg_new cg) = (\<lambda>_ _. None)"
    and update_law: "g_ok g \<Longrightarrow> g_ok (fst (cg_update_edge cg a b ce g)) \<and>
      edges_of (fst (cg_update_edge cg a b ce g)) = spec_update a b ce (edges_of g) \<and>
      snd (cg_update_edge cg a b ce g) = map_option capacity_edge (edges_of g a b)"
    and remove_edge_law: "g_ok g \<Longrightarrow> g_ok (fst (cg_remove_edge cg a b g)) \<and>
      edges_of (fst (cg_remove_edge cg a b g)) = spec_remove_edge a b (edges_of g) \<and>
      snd (cg_remove_edge cg a b g) = map_option capacity_edge (edges_of g a b)"
    and remove_node_law: "g_ok g \<Longrightarrow> g_ok (fst (cg_remove_node cg a g)) \<and>
      edges_of (fst (cg_remove_node cg a g)) = spec_remove_node a (edges_of g) \<and>
      (snd (cg_remove_node cg a g) \<longrightarrow> spec_remove_node a (edges_of g) = (\<lambda>_ _. None))"
    and tick_law: "g_ok g \<Longrightarrow> g_ok (cg_tick cg a g) \<and> edges_of (cg_tick cg a g) = spec_tick a (edges_of g)"
begin

lemma update_edge_service:
  assumes "service_wf g_ok graphs"
  shows "service_wf g_ok (fst (process_request cg (UpdateEdge k a b ce) graphs)) \<and>
    service_view edges_of (fst (process_request cg (UpdateEdge k a b ce) graphs)) =
      spec_request (UpdateEdge k a b ce) (service_view edges_of graphs)"
proof -
  define g where "g = (case hm_get graphs k of Some g \<Rightarrow> g | None \<Rightarrow> cg_new cg)"
  have g: "g_ok g" "edges_of g = service_view edges_of graphs k"
    using assms new_law by (auto simp: g_def service_wf_def service_view_def split: option.splits)
  have "fst (process_request cg (UpdateEdge k a b ce) graphs) = hm_insert k (fst (cg_update_edge cg a b ce g)) graphs"
    by (simp add: g_def[symmetric] case_prod_beta)
  then show ?thesis
    using assms update_law[OF g(1)] g(2)
    by (auto simp: service_wf_def service_view_def hm_simps fun_eq_iff split: if_splits)
qed

lemma remove_edge_service:
  assumes "service_wf g_ok graphs"
  shows "service_wf g_ok (fst (process_request cg (RemoveEdge k a b) graphs)) \<and>
    service_view edges_of (fst (process_request cg (RemoveEdge k a b) graphs)) =
      spec_request (RemoveEdge k a b) (service_view edges_of graphs)"
proof (cases "hm_get graphs k")
  case None
  then show ?thesis using assms by (auto simp: service_view_def spec_remove_edge_def fun_eq_iff)
next
  case (Some g)
  then have "g_ok g" using assms by (auto simp: service_wf_def)
  then show ?thesis
    using assms Some remove_edge_law[of g a b]
    by (auto simp: service_wf_def service_view_def hm_simps fun_eq_iff case_prod_beta split: if_splits)
qed

lemma tick_service:
  assumes "service_wf g_ok graphs"
  shows "service_wf g_ok (fst (process_request cg (Tick a) graphs)) \<and>
    service_view edges_of (fst (process_request cg (Tick a) graphs)) =
      spec_request (Tick a) (service_view edges_of graphs)"
  using assms tick_law
  by (auto simp: service_wf_def service_view_def hm_get_map_values hm_wf_map_values spec_tick_def
      fun_eq_iff split: option.splits)

lemma remove_node_service:
  assumes "service_wf g_ok graphs"
  shows "service_wf g_ok (fst (process_request cg (RemoveNode a) graphs)) \<and>
    service_view edges_of (fst (process_request cg (RemoveNode a) graphs)) = (\<lambda>_ _ _. None)"
proof -
  let ?f = "\<lambda>g. if snd (cg_remove_node cg a g) then Some (fst (cg_remove_node cg a g)) else None"
  have eq: "fst (process_request cg (RemoveNode a) graphs) =
      List.map_filter (\<lambda>(k, v). map_option (Pair k) (?f v)) graphs"
    by (auto simp: case_prod_beta intro!: arg_cong2[where f = List.map_filter])
  have "hm_wf graphs" using assms by (simp add: service_wf_def)
  then show ?thesis
    unfolding eq using assms remove_node_law
    by (auto simp: service_wf_def service_view_def hm_map_filter fun_eq_iff bind_eq_Some_conv
        split: option.splits if_splits)
qed

lemma request_service:
  assumes "service_wf g_ok graphs"
  shows "service_wf g_ok (fst (process_request cg req graphs)) \<and>
    (\<not> removes_node req \<longrightarrow>
      service_view edges_of (fst (process_request cg req graphs)) =
        spec_request req (service_view edges_of graphs))"
  using update_edge_service[OF assms] remove_edge_service[OF assms] tick_service[OF assms]
    remove_node_service[OF assms] assms
  by (cases req) auto

lemma loop_service:
  "service_wf g_ok graphs \<Longrightarrow> service_wf g_ok (graph_service_loop cg reqs graphs)"
  by (induction reqs arbitrary: graphs) (auto simp: request_service)

lemma loop_refines:
  "service_wf g_ok graphs \<Longrightarrow> \<not> list_ex removes_node reqs \<Longrightarrow>
    service_view edges_of (graph_service_loop cg reqs graphs) =
      fold spec_request reqs (service_view edges_of graphs)"
  by (induction reqs arbitrary: graphs) (auto simp: request_service)

end

interpretation sg: capacity_graph_laws simple_graph graph_wf get_edge
  by unfold_locales
    (auto simp: simple_graph_def graph_new_refines update_edge_refines remove_edge_refines
      remove_node_refines graph_tick_refines)

lemma graph_service_loop_append:
  "graph_service_loop cg (xs @ ys) graphs = graph_service_loop cg ys (graph_service_loop cg xs graphs)"
  by (induction xs arbitrary: graphs) auto

lemma service_empty: "service_wf g_ok [] \<and> service_view edges_of [] = (\<lambda>_ _ _. None)"
  by (auto simp: service_wf_def service_view_def)

section \<open>Properties\<close>

text \<open>
  C31. Without \<open>RemoveNode\<close>, the graph service implements one map of directed edges per currency:
  after any requests, an edge is in the graph of a currency, with its capacity, rate and age, exactly
  if the last announcements and the expiry of old edges leave it there.
\<close>

theorem graph_service_refines:
  assumes "\<not> list_ex removes_node reqs"
  shows "service_view get_edge (graph_service_loop simple_graph reqs []) =
    fold spec_request reqs (\<lambda>_ _ _. None)"
  using sg.loop_refines[OF conjunct1[OF service_empty] assms] by (simp add: service_empty)

theorem graph_service_refines_witness:
  "service_view get_edge (graph_service_loop simple_graph
     [UpdateEdge (0 :: nat) (1 :: nat) 2 \<lparr> recv_capacity = 10, ce_rate = rate_new \<rparr>, Tick 1, RemoveEdge 1 1 2] [])
     0 1 2 = Some \<lparr> capacity_edge = \<lparr> recv_capacity = 10, ce_rate = rate_new \<rparr>, age = 1 \<rparr>"
  by (subst graph_service_refines)
    (simp_all add: spec_update_def spec_tick_def spec_remove_edge_def edge_new_def edge_older_def
      u_saturating_add_def max_edge_age_def BASE_MAX_EDGE_AGE_def dom_def)

text \<open>
  C34. \<open>RemoveNode\<close> erases the whole index: whatever was announced, and whichever node is removed, no
  edge of any currency is left. \<open>remove_node\<close> answers whether the graph is now empty, and the
  service retains the graphs for which the answer is yes.
\<close>

theorem remove_node_erases_everything:
  "service_view get_edge (graph_service_loop simple_graph (reqs @ [RemoveNode a]) []) = (\<lambda>_ _ _. None)"
proof -
  have "service_wf graph_wf (graph_service_loop simple_graph reqs [])"
    by (simp add: sg.loop_service service_empty)
  then show ?thesis by (simp add: graph_service_loop_append sg.remove_node_service del: process_request.simps)
qed

end
