(* ===== verification/Time_Verifier.thy ===== *)
theory Time_Verifier
  imports Handler_State
begin

text \<open>
  The verifier of the index server (\<open>index_server/src/verifier/\<close>: \<open>hash_clock.rs\<close>, \<open>ratchet.rs\<close>,
  \<open>simple_verifier.rs\<close>). The hash clock shows that a message was made after a recent tick of this
  server, the ratchets refuse messages that come out of order. The lemmas show how the windows of the
  two fit together: a message that was accepted once is not accepted again, and a proof of freshness
  that is extended at every hop is accepted at the next one.
\<close>

section \<open>The hash clock\<close>

definition HASH_CLOCK_PREFIX :: "u8 list" where
  "HASH_CLOCK_PREFIX = string_bytes ''HASH_CLOCK''"

record 'b hash_clock =
  neighbor_hashes :: "('b, hash_result) hash_map"
  last_ticks_max_len :: nat
  last_ticks :: "hash_result list"
  last_ticks_map :: "(hash_result, hash_result list) hash_map"

definition hash_hashes :: "'e env \<Rightarrow> hash_result list \<Rightarrow> hash_result" where
  "hash_hashes env hashes =
     sha_512_256 env (to_be_bytes (sha_512_256 env HASH_CLOCK_PREFIX) @ concat (map to_be_bytes hashes))"

definition hash_clock_new :: "nat \<Rightarrow> ('x, 'b hash_clock) result" where
  "hash_clock_new max_len =
     and_then (assert_that (max_len > 0)) (\<lambda>_.
     Ok \<lparr> neighbor_hashes = [], last_ticks_max_len = max_len, last_ticks = [], last_ticks_map = [] \<rparr>)"

definition insert_tick_hash ::
  "hash_result \<Rightarrow> hash_result list \<Rightarrow> 'b hash_clock \<Rightarrow> ('x, 'b hash_clock) result" where
  "insert_tick_hash tick_hash expansion hc =
     and_then (assert_that (last_ticks_max_len hc > 0)) (\<lambda>_.
     let hc = hc \<lparr> last_ticks := last_ticks hc @ [tick_hash] \<rparr>;
         hc = (if length (last_ticks hc) > last_ticks_max_len hc
               then hc \<lparr> last_ticks_map := hm_remove (hd (last_ticks hc)) (last_ticks_map hc),
                         last_ticks := tl (last_ticks hc) \<rparr>
               else hc)
     in and_then (assert_that (length (last_ticks hc) \<le> last_ticks_max_len hc)) (\<lambda>_.
     Ok (hc \<lparr> last_ticks_map := hm_insert tick_hash expansion (last_ticks_map hc) \<rparr>)))"

definition hc_neighbor_tick :: "'b \<Rightarrow> hash_result \<Rightarrow> 'b hash_clock \<Rightarrow> 'b hash_clock \<times> hash_result option" where
  "hc_neighbor_tick neighbor tick_hash hc =
     (hc \<lparr> neighbor_hashes := hm_insert neighbor tick_hash (neighbor_hashes hc) \<rparr>,
      hm_get (neighbor_hashes hc) neighbor)"

definition hc_remove_neighbor :: "'b \<Rightarrow> 'b hash_clock \<Rightarrow> 'b hash_clock \<times> hash_result option" where
  "hc_remove_neighbor neighbor hc =
     (hc \<lparr> neighbor_hashes := hm_remove neighbor (neighbor_hashes hc) \<rparr>,
      hm_get (neighbor_hashes hc) neighbor)"

definition hc_tick ::
  "'e env \<Rightarrow> rand_value \<Rightarrow> 'b hash_clock \<Rightarrow> ('x, hash_result \<times> 'b hash_clock) result" where
  "hc_tick env rand_value hc =
     (let hashed_rand_value = sha_512_256 env (to_be_bytes rand_value);
          expansion = hashed_rand_value # hm_values (neighbor_hashes hc);
          tick_hash = hash_hashes env expansion
      in and_then (insert_tick_hash tick_hash expansion hc) (\<lambda>hc. Ok (tick_hash, hc)))"

definition get_expansion :: "hash_result \<Rightarrow> 'b hash_clock \<Rightarrow> hash_result list option" where
  "get_expansion tick_hash hc = hm_get (last_ticks_map hc) tick_hash"

definition verify_expansion_chain ::
  "'e env \<Rightarrow> hash_result \<Rightarrow> hash_result list list \<Rightarrow> 'b hash_clock \<Rightarrow> hash_result option" where
  "verify_expansion_chain env origin_tick_hash expansion_chain hc =
     (let ex_expansion_chain = [origin_tick_hash] # expansion_chain;
          hash_res = map (hash_hashes env) expansion_chain
      in if list_all (\<lambda>i. hash_res ! i \<in> set (ex_expansion_chain ! i)) [0..<length hash_res]
         then List.find (hm_contains (last_ticks_map hc)) (last ex_expansion_chain)
         else None)"

section \<open>Ratchets\<close>

record 'u ratchet =
  session_id :: 'u
  counter :: u64
  ticks_to_live :: nat
  cur_ticks_to_live :: nat

definition ratchet_new :: "'u \<Rightarrow> u64 \<Rightarrow> nat \<Rightarrow> 'u ratchet" where
  "ratchet_new session c ttl =
     \<lparr> session_id = session, counter = c, ticks_to_live = ttl, cur_ticks_to_live = ttl \<rparr>"

definition inner_update :: "'u \<Rightarrow> u64 \<Rightarrow> 'u ratchet \<Rightarrow> 'u ratchet \<times> bool" where
  "inner_update session c r =
     (if session_id r \<noteq> session then (r \<lparr> session_id := session, counter := c \<rparr>, True)
      else if counter r < c then (r \<lparr> counter := c \<rparr>, True)
      else (r, False))"

definition ratchet_update :: "'u \<Rightarrow> u64 \<Rightarrow> 'u ratchet \<Rightarrow> 'u ratchet \<times> bool" where
  "ratchet_update session c r =
     (let (r, moved) = inner_update session c r
      in if \<not> moved then (r, False) else (r \<lparr> cur_ticks_to_live := ticks_to_live r \<rparr>, True))"

definition ratchet_tick :: "'u ratchet \<Rightarrow> 'u ratchet" where
  "ratchet_tick r = r \<lparr> cur_ticks_to_live := cur_ticks_to_live r - 1 \<rparr>"

record ('n, 'u) ratchet_pool =
  ratchets :: "('n, 'u ratchet) hash_map"
  ratchet_ticks_to_live :: nat

definition ratchet_pool_new :: "nat \<Rightarrow> ('n, 'u) ratchet_pool" where
  "ratchet_pool_new ttl = \<lparr> ratchets = [], ratchet_ticks_to_live = ttl \<rparr>"

definition ratchet_pool_tick :: "('n, 'u) ratchet_pool \<Rightarrow> ('n, 'u) ratchet_pool \<times> 'n list" where
  "ratchet_pool_tick pool =
     (let ticked = map (\<lambda>(node, r). (node, ratchet_tick r)) (ratchets pool);
          removed_nodes = map fst (filter (\<lambda>(node, r). cur_ticks_to_live r = 0) ticked)
      in (pool \<lparr> ratchets := fold hm_remove removed_nodes ticked \<rparr>, removed_nodes))"

definition ratchet_pool_update ::
  "'n \<Rightarrow> 'u \<Rightarrow> u64 \<Rightarrow> ('n, 'u) ratchet_pool \<Rightarrow> ('n, 'u) ratchet_pool \<times> bool" where
  "ratchet_pool_update node session c pool =
     (case hm_get (ratchets pool) node of
        None \<Rightarrow>
          (pool \<lparr> ratchets := hm_insert node (ratchet_new session c (ratchet_ticks_to_live pool)) (ratchets pool) \<rparr>,
           True)
      | Some r \<Rightarrow>
          (let (r, moved) = ratchet_update session c r
           in (pool \<lparr> ratchets := hm_insert node r (ratchets pool) \<rparr>, moved)))"

section \<open>The verifier\<close>

record ('n, 'b, 'u) simple_verifier =
  sv_hash_clock :: "'b hash_clock"
  sv_ratchet_pool :: "('n, 'u) ratchet_pool"
  sv_rng :: rng

definition simple_verifier_new :: "nat \<Rightarrow> rng \<Rightarrow> ('x, ('n, 'b, 'u) simple_verifier) result" where
  "simple_verifier_new ttl r =
     and_then (assert_that (ttl > 0)) (\<lambda>_.
     and_then (hash_clock_new ttl) (\<lambda>hc.
     Ok \<lparr> sv_hash_clock = hc, sv_ratchet_pool = ratchet_pool_new ttl, sv_rng = r \<rparr>))"

definition verify ::
  "'e env \<Rightarrow> hash_result \<Rightarrow> hash_result list list \<Rightarrow> 'n \<Rightarrow> 'u \<Rightarrow> u64 \<Rightarrow> ('n, 'b, 'u) simple_verifier \<Rightarrow>
     ('x, ('n, 'b, 'u) simple_verifier \<times> hash_result list option) result" where
  "verify env origin_tick_hash expansion_chain node session c sv =
     (case verify_expansion_chain env origin_tick_hash expansion_chain (sv_hash_clock sv) of
        None \<Rightarrow> Ok (sv, None)
      | Some tick_hash \<Rightarrow>
          (let (pool, moved) = ratchet_pool_update node session c (sv_ratchet_pool sv);
               sv = sv \<lparr> sv_ratchet_pool := pool \<rparr>
           in if \<not> moved then Ok (sv, None)
              else and_then (unwrap (get_expansion tick_hash (sv_hash_clock sv))) (\<lambda>hashes.
                   Ok (sv, Some hashes))))"

definition sv_tick ::
  "'e env \<Rightarrow> ('n, 'b, 'u) simple_verifier \<Rightarrow>
     ('x, ('n, 'b, 'u) simple_verifier \<times> hash_result \<times> 'n list) result" where
  "sv_tick env sv =
     (let (rand_value, r) = rand_gen (sv_rng sv)
      in and_then (hc_tick env rand_value (sv_hash_clock sv)) (\<lambda>(tick_hash, hc).
         let (pool, removed_nodes) = ratchet_pool_tick (sv_ratchet_pool sv)
         in Ok (sv \<lparr> sv_rng := r, sv_hash_clock := hc, sv_ratchet_pool := pool \<rparr>, tick_hash, removed_nodes)))"

definition sv_neighbor_tick ::
  "'b \<Rightarrow> hash_result \<Rightarrow> ('n, 'b, 'u) simple_verifier \<Rightarrow> ('n, 'b, 'u) simple_verifier \<times> hash_result option" where
  "sv_neighbor_tick neighbor tick_hash sv =
     (let (hc, old) = hc_neighbor_tick neighbor tick_hash (sv_hash_clock sv)
      in (sv \<lparr> sv_hash_clock := hc \<rparr>, old))"

definition sv_remove_neighbor ::
  "'b \<Rightarrow> ('n, 'b, 'u) simple_verifier \<Rightarrow> ('n, 'b, 'u) simple_verifier \<times> hash_result option" where
  "sv_remove_neighbor neighbor sv =
     (let (hc, old) = hc_remove_neighbor neighbor (sv_hash_clock sv)
      in (sv \<lparr> sv_hash_clock := hc \<rparr>, old))"

section \<open>Runs of a verifier\<close>

datatype ('n, 'b, 'u) verifier_event =
    VerifyEvent hash_result "hash_result list list" 'n 'u u64
  | TickEvent
  | NeighborTickEvent 'b hash_result
  | RemoveNeighborEvent 'b

datatype 'n verifier_answer =
    Verified "hash_result list option"
  | Ticked hash_result "'n list"
  | NeighborChanged

fun sv_step ::
  "'e env \<Rightarrow> ('n, 'b, 'u) verifier_event \<Rightarrow> ('n, 'b, 'u) simple_verifier \<Rightarrow>
     (unit, ('n, 'b, 'u) simple_verifier \<times> 'n verifier_answer) result" where
  "sv_step env (VerifyEvent origin chain node session c) sv =
     and_then (verify env origin chain node session c sv) (\<lambda>(sv, opt_hashes). Ok (sv, Verified opt_hashes))"
| "sv_step env TickEvent sv =
     and_then (sv_tick env sv) (\<lambda>(sv, tick_hash, removed_nodes). Ok (sv, Ticked tick_hash removed_nodes))"
| "sv_step env (NeighborTickEvent neighbor tick_hash) sv =
     Ok (fst (sv_neighbor_tick neighbor tick_hash sv), NeighborChanged)"
| "sv_step env (RemoveNeighborEvent neighbor) sv =
     Ok (fst (sv_remove_neighbor neighbor sv), NeighborChanged)"

text \<open>The runs whose events all satisfy a condition.\<close>

inductive sv_run ::
  "'e env \<Rightarrow> (('n, 'b, 'u) verifier_event \<Rightarrow> 'n verifier_answer \<Rightarrow> bool) \<Rightarrow>
     ('n, 'b, 'u) simple_verifier \<Rightarrow> ('n, 'b, 'u) simple_verifier \<Rightarrow> bool"
  for env ok sv where
  sv_run_refl: "sv_run env ok sv sv"
| sv_run_step: "sv_run env ok sv sv' \<Longrightarrow> sv_step env ev sv' = Ok (sv'', answer) \<Longrightarrow> ok ev answer \<Longrightarrow>
    sv_run env ok sv sv''"

text \<open>
  The run has no tick with one of the given hashes, and accepts no message of the node for another
  session.
\<close>

fun undisturbed :: "hash_result set \<Rightarrow> 'n \<Rightarrow> 'u \<Rightarrow> ('n, 'b, 'u) verifier_event \<Rightarrow> 'n verifier_answer \<Rightarrow> bool" where
  "undisturbed hashes node session ev (Ticked tick_hash removed_nodes) \<longleftrightarrow> tick_hash \<notin> hashes"
| "undisturbed hashes node session (VerifyEvent origin chain node' session' c) (Verified (Some expansion)) \<longleftrightarrow>
     node' = node \<longrightarrow> session' = session"
| "undisturbed hashes node session ev answer \<longleftrightarrow> True"

text \<open>A hash of the right width that is easy to evaluate: the number of bytes.\<close>

definition length_env :: "unit env" where
  "length_env = sample_env \<lparr> sha512_trunc256 := \<lambda>bytes. of_nat (length bytes) \<rparr>"

definition sample_verifier :: "(nat, nat, nat) simple_verifier" where
  "sample_verifier =
     \<lparr> sv_hash_clock =
         \<lparr> neighbor_hashes = [], last_ticks_max_len = 2, last_ticks = [], last_ticks_map = [] \<rparr>,
       sv_ratchet_pool = ratchet_pool_new 2, sv_rng = \<lparr> rng_tape = of_nat, rng_pos = 0 \<rparr> \<rparr>"

definition ticked_verifier :: "(nat, nat, nat) simple_verifier" where
  "ticked_verifier = sample_verifier \<lparr> sv_rng := \<lparr> rng_tape = of_nat, rng_pos = 16 \<rparr>,
     sv_hash_clock := \<lparr> neighbor_hashes = [], last_ticks_max_len = 2, last_ticks = [64],
       last_ticks_map = [(64, [16])] \<rparr> \<rparr>"

section \<open>Invariants\<close>

definition hc_ok :: "'b hash_clock \<Rightarrow> bool" where
  "hc_ok hc \<longleftrightarrow> 0 < last_ticks_max_len hc \<and> length (last_ticks hc) \<le> last_ticks_max_len hc \<and>
     set (hm_keys (last_ticks_map hc)) \<subseteq> set (last_ticks hc) \<and> hm_wf (last_ticks_map hc)"

definition sv_ok :: "('n, 'b, 'u) simple_verifier \<Rightarrow> bool" where
  "sv_ok sv \<longleftrightarrow> hc_ok (sv_hash_clock sv) \<and> hm_wf (ratchets (sv_ratchet_pool sv)) \<and>
     ratchet_ticks_to_live (sv_ratchet_pool sv) = last_ticks_max_len (sv_hash_clock sv) \<and>
     (\<forall>node r. hm_get (ratchets (sv_ratchet_pool sv)) node = Some r \<longrightarrow>
        ticks_to_live r = ratchet_ticks_to_live (sv_ratchet_pool sv))"

lemma insert_tick_hash_Ok:
  assumes "hc_ok hc"
  shows "\<exists>hc'. insert_tick_hash h expansion hc = (Ok hc' :: ('x, _) result) \<and> hc_ok hc' \<and>
    last_ticks_max_len hc' = last_ticks_max_len hc \<and>
    rev (last_ticks hc') = take (last_ticks_max_len hc) (h # rev (last_ticks hc)) \<and>
    hm_get (last_ticks_map hc') h = Some expansion"
proof (cases "length (last_ticks hc) = last_ticks_max_len hc")
  case True
  then obtain p ps where ps: "last_ticks hc = p # ps" "last_ticks_max_len hc = Suc (length ps)"
    using assms by (cases "last_ticks hc") (auto simp: hc_ok_def)
  have "set (hm_keys (hm_remove p (last_ticks_map hc))) \<subseteq> set ps"
    using assms ps by (auto simp: hc_ok_def hm_keys_remove)
  then show ?thesis
    using assms ps
    by (auto simp: insert_tick_hash_def assert_that_def hc_ok_def hm_keys_insert hm_simps)
next
  case False
  then show ?thesis
    using assms
    by (auto simp: insert_tick_hash_def assert_that_def hc_ok_def hm_keys_insert hm_simps)
qed

lemma hm_get_remove_all: "hm_get (fold hm_remove ks m) k = (if k \<in> set ks then None else hm_get m k)"
  by (induction ks arbitrary: m) (auto simp: hm_simps)

lemma hm_wf_remove_all: "hm_wf m \<Longrightarrow> hm_wf (fold hm_remove ks m)"
  by (induction ks arbitrary: m) (auto simp: hm_simps)

lemma ratchet_pool_tick_get:
  assumes "hm_wf (ratchets pool)"
  shows "hm_wf (ratchets (fst (ratchet_pool_tick pool))) \<and>
    hm_get (ratchets (fst (ratchet_pool_tick pool))) node =
      (case hm_get (ratchets pool) node of
         None \<Rightarrow> None
       | Some r \<Rightarrow> if cur_ticks_to_live r \<le> 1 then None else Some (ratchet_tick r))"
proof -
  define ticked where "ticked = map (\<lambda>(node, r). (node, ratchet_tick r)) (ratchets pool)"
  define removed where "removed = map fst (filter (\<lambda>(node, r). cur_ticks_to_live r = 0) ticked)"
  have wf: "hm_wf ticked"
    using assms by (simp add: ticked_def hm_wf_def hm_keys_def comp_def case_prod_beta)
  have get: "hm_get ticked node = map_option ratchet_tick (hm_get (ratchets pool) node)"
    by (simp add: ticked_def hm_get_def map_of_map)
  have "(node, r) \<in> set ticked \<longleftrightarrow> hm_get ticked node = Some r" for r
    using wf by (blast intro: hm_get_SomeI dest: hm_get_SomeD)
  then have "node \<in> set removed \<longleftrightarrow> (\<exists>r. hm_get ticked node = Some r \<and> cur_ticks_to_live r = 0)"
    by (force simp: removed_def)
  moreover have "ratchets (fst (ratchet_pool_tick pool)) = fold hm_remove removed ticked"
    by (simp add: ratchet_pool_tick_def ticked_def removed_def Let_def)
  ultimately show ?thesis
    using wf get
    by (cases "hm_get (ratchets pool) node")
      (simp_all add: hm_get_remove_all hm_wf_remove_all ratchet_tick_def)
qed

lemma ratchet_pool_update_get:
  "hm_get (ratchets (fst (ratchet_pool_update node session c pool))) =
     (hm_get (ratchets pool))(node \<mapsto>
        (case hm_get (ratchets pool) node of
           None \<Rightarrow> ratchet_new session c (ratchet_ticks_to_live pool)
         | Some r \<Rightarrow> fst (ratchet_update session c r)))"
  by (auto simp: ratchet_pool_update_def hm_simps case_prod_beta Let_def split: option.splits)

lemma hc_tick_Ok:
  assumes "hc_ok hc"
  shows "\<exists>h hc'. hc_tick env rand_value hc = (Ok (h, hc') :: ('x, _) result) \<and> hc_ok hc' \<and>
    last_ticks_max_len hc' = last_ticks_max_len hc \<and>
    rev (last_ticks hc') = take (last_ticks_max_len hc) (h # rev (last_ticks hc))"
proof -
  define expansion where "expansion = sha_512_256 env (to_be_bytes rand_value) # hm_values (neighbor_hashes hc)"
  obtain hc' where "insert_tick_hash (hash_hashes env expansion) expansion hc = (Ok hc' :: ('x, _) result)"
      "hc_ok hc'" "last_ticks_max_len hc' = last_ticks_max_len hc"
      "rev (last_ticks hc') = take (last_ticks_max_len hc) (hash_hashes env expansion # rev (last_ticks hc))"
    using insert_tick_hash_Ok[OF assms] by blast
  then show ?thesis by (auto simp: hc_tick_def expansion_def)
qed

lemma sv_tick_Ok:
  assumes "sv_ok sv"
  shows "\<exists>sv' h removed. sv_tick env sv = (Ok (sv', h, removed) :: ('x, _) result) \<and> sv_ok sv' \<and>
    last_ticks_max_len (sv_hash_clock sv') = last_ticks_max_len (sv_hash_clock sv) \<and>
    rev (last_ticks (sv_hash_clock sv')) =
      take (last_ticks_max_len (sv_hash_clock sv)) (h # rev (last_ticks (sv_hash_clock sv))) \<and>
    sv_ratchet_pool sv' = fst (ratchet_pool_tick (sv_ratchet_pool sv))"
proof -
  obtain rand_value :: rand_value and r where rand: "rand_gen (sv_rng sv) = (rand_value, r)"
    by fastforce
  obtain h hc' where tick: "hc_tick env rand_value (sv_hash_clock sv) = (Ok (h, hc') :: ('x, _) result)" "hc_ok hc'"
      "last_ticks_max_len hc' = last_ticks_max_len (sv_hash_clock sv)"
      "rev (last_ticks hc') = take (last_ticks_max_len (sv_hash_clock sv)) (h # rev (last_ticks (sv_hash_clock sv)))"
    using hc_tick_Ok[of "sv_hash_clock sv"] assms unfolding sv_ok_def by blast
  have pool: "ratchet_ticks_to_live (fst (ratchet_pool_tick (sv_ratchet_pool sv))) =
      ratchet_ticks_to_live (sv_ratchet_pool sv)" by (simp add: ratchet_pool_tick_def Let_def)
  have wf: "hm_wf (ratchets (sv_ratchet_pool sv))" using assms by (simp add: sv_ok_def)
  show ?thesis
    using tick assms pool ratchet_pool_tick_get[OF wf]
    by (auto simp: sv_tick_def rand sv_ok_def case_prod_beta ratchet_tick_def
        split: option.splits if_splits)
qed

lemma verify_chain_contains:
  "verify_expansion_chain env origin chain hc = Some t \<Longrightarrow>
     t \<in> set (last ([origin] # chain)) \<and> t \<in> set (hm_keys (last_ticks_map hc))"
  by (auto simp: verify_expansion_chain_def Let_def find_Some_iff hm_contains_iff split: if_splits)

lemma verify_refused:
  "verify_expansion_chain env origin chain (sv_hash_clock sv) = None \<Longrightarrow>
     verify env origin chain node session c sv = (Ok (sv, None) :: ('x, _) result)"
  by (simp add: verify_def)

lemma verify_ratchet:
  assumes "verify_expansion_chain env origin chain (sv_hash_clock sv) = Some t"
  shows "(verify env origin chain node session c sv :: ('x, _) result) =
    Ok (sv \<lparr> sv_ratchet_pool := fst (ratchet_pool_update node session c (sv_ratchet_pool sv)) \<rparr>,
        if snd (ratchet_pool_update node session c (sv_ratchet_pool sv))
        then get_expansion t (sv_hash_clock sv) else None) \<and>
    get_expansion t (sv_hash_clock sv) \<noteq> None"
  using verify_chain_contains[OF assms] assms
  by (auto simp: verify_def get_expansion_def in_hm_keys_iff case_prod_beta)

lemma ratchet_update_simps:
  "session_id (fst (ratchet_update session c r)) = session"
  "ticks_to_live (fst (ratchet_update session c r)) = ticks_to_live r"
  "snd (ratchet_update session c r) \<longleftrightarrow> session_id r \<noteq> session \<or> counter r < c"
  "snd (ratchet_update session c r) \<Longrightarrow>
     counter (fst (ratchet_update session c r)) = c \<and>
     cur_ticks_to_live (fst (ratchet_update session c r)) = ticks_to_live r"
  "\<not> snd (ratchet_update session c r) \<Longrightarrow> fst (ratchet_update session c r) = r"
  by (auto simp: ratchet_update_def inner_update_def Let_def)

lemma ratchet_pool_update_ok:
  "hm_wf (ratchets pool) \<Longrightarrow> hm_wf (ratchets (fst (ratchet_pool_update node session c pool)))"
  "ratchet_ticks_to_live (fst (ratchet_pool_update node session c pool)) = ratchet_ticks_to_live pool"
  by (auto simp: ratchet_pool_update_def hm_simps case_prod_beta Let_def split: option.splits)

lemma update_sv_ok:
  "sv_ok sv \<Longrightarrow> sv_ok (sv \<lparr> sv_ratchet_pool := fst (ratchet_pool_update node session c (sv_ratchet_pool sv)) \<rparr>)"
  by (auto simp: sv_ok_def ratchet_pool_update_ok ratchet_pool_update_get ratchet_update_simps ratchet_new_def
      split: option.splits if_splits)

lemma neighbor_sv_ok:
  "sv_ok sv \<Longrightarrow> sv_ok (fst (sv_neighbor_tick neighbor h sv))"
  "sv_ok sv \<Longrightarrow> sv_ok (fst (sv_remove_neighbor neighbor sv))"
  by (auto simp: sv_ok_def hc_ok_def sv_neighbor_tick_def sv_remove_neighbor_def hc_neighbor_tick_def
      hc_remove_neighbor_def)

lemma sv_step_ok:
  assumes "sv_ok sv"
  shows "\<exists>sv' answer. sv_step env ev sv = Ok (sv', answer) \<and> sv_ok sv'"
proof (cases ev)
  case (VerifyEvent origin chain node session c)
  show ?thesis
  proof (cases "verify_expansion_chain env origin chain (sv_hash_clock sv)")
    case None
    then show ?thesis using assms VerifyEvent by (simp add: verify_refused)
  next
    case (Some t)
    then show ?thesis using update_sv_ok[OF assms] VerifyEvent by (simp add: verify_ratchet)
  qed
next
  case TickEvent
  obtain sv' h removed where "sv_tick env sv = (Ok (sv', h, removed) :: (unit, _) result)" "sv_ok sv'"
    using sv_tick_Ok[OF assms] by blast
  then show ?thesis using TickEvent by simp
qed (use assms neighbor_sv_ok in auto)

lemma simple_verifier_new_ok: "simple_verifier_new ttl r = (Ok sv :: ('x, _) result) \<Longrightarrow> sv_ok sv"
  by (auto simp: simple_verifier_new_def hash_clock_new_def ratchet_pool_new_def sv_ok_def hc_ok_def
      rust_simps hm_keys_def)

lemma sv_run_ok: "sv_run env ok sv sv' \<Longrightarrow> sv_ok sv \<Longrightarrow> sv_ok sv'"
proof (induction rule: sv_run.induct)
  case (sv_run_step sv' ev sv'' answer)
  then show ?case using sv_step_ok[of sv' env ev] by auto
qed

section \<open>A message is not accepted twice\<close>

text \<open>
  \<open>guarded hashes node session c k\<close> holds \<open>k\<close> ticks after a message was accepted: none of the last \<open>k\<close> ticks
  is among the hashes of its proof, and as long as older ticks are known the ratchet of the node
  is at the message or beyond, with enough time to live.
\<close>

definition guarded ::
  "hash_result set \<Rightarrow> 'n \<Rightarrow> 'u \<Rightarrow> u64 \<Rightarrow> nat \<Rightarrow> ('n, 'b, 'u) simple_verifier \<Rightarrow> bool" where
  "guarded hashes node session c k sv \<longleftrightarrow>
     sv_ok sv \<and> set (take k (rev (last_ticks (sv_hash_clock sv)))) \<inter> hashes = {} \<and>
     (k < last_ticks_max_len (sv_hash_clock sv) \<longrightarrow>
        (\<exists>r. hm_get (ratchets (sv_ratchet_pool sv)) node = Some r \<and> session_id r = session \<and>
           c \<le> counter r \<and> last_ticks_max_len (sv_hash_clock sv) \<le> cur_ticks_to_live r + k))"

lemma guarded_tick:
  assumes "guarded hashes node session c k sv" and "sv_tick env sv = (Ok (sv', h, removed) :: (unit, _) result)"
    and "h \<notin> hashes"
  shows "guarded hashes node session c (Suc k) sv'"
proof -
  let ?m = "last_ticks_max_len (sv_hash_clock sv)"
  have ok: "sv_ok sv" using assms(1) by (simp add: guarded_def)
  have sv': "sv_ok sv'" "last_ticks_max_len (sv_hash_clock sv') = ?m"
    "rev (last_ticks (sv_hash_clock sv')) = take ?m (h # rev (last_ticks (sv_hash_clock sv)))"
    "sv_ratchet_pool sv' = fst (ratchet_pool_tick (sv_ratchet_pool sv))"
    using sv_tick_Ok[OF ok, where env = env and 'x = unit] assms(2) by auto
  have "set (take (Suc k) (take ?m (h # rev (last_ticks (sv_hash_clock sv))))) \<subseteq>
      insert h (set (take k (rev (last_ticks (sv_hash_clock sv)))))"
    using set_take_subset_set_take[of "min (Suc k) ?m" "Suc k" "h # rev (last_ticks (sv_hash_clock sv))"]
    by (simp add: min.commute del: take_Suc_Cons) simp
  moreover have "\<exists>r. hm_get (ratchets (sv_ratchet_pool sv')) node = Some r \<and> session_id r = session \<and>
      c \<le> counter r \<and> ?m \<le> cur_ticks_to_live r + Suc k" if "Suc k < ?m"
    using assms(1) that ratchet_pool_tick_get[of "sv_ratchet_pool sv" node] ok sv'(4)
    by (auto simp: guarded_def sv_ok_def ratchet_tick_def)
  ultimately show ?thesis using assms(1,3) sv' by (auto simp: guarded_def)
qed

lemma guarded_neighbor:
  "guarded hashes node session c k sv \<Longrightarrow> guarded hashes node session c k (fst (sv_neighbor_tick neighbor h sv))"
  "guarded hashes node session c k sv \<Longrightarrow> guarded hashes node session c k (fst (sv_remove_neighbor neighbor sv))"
  by (auto simp: guarded_def neighbor_sv_ok)
    (auto simp: sv_neighbor_tick_def sv_remove_neighbor_def hc_neighbor_tick_def hc_remove_neighbor_def)

lemma guarded_verify:
  assumes g: "guarded hashes node session c k sv"
    and v: "verify env origin chain node' session' c' sv = (Ok (sv', opt) :: (unit, _) result)"
    and u: "opt \<noteq> None \<Longrightarrow> node' = node \<Longrightarrow> session' = session"
  shows "guarded hashes node session c k sv'"
proof (cases "verify_expansion_chain env origin chain (sv_hash_clock sv)")
  case None
  then show ?thesis using g v by (simp add: verify_refused)
next
  case (Some t)
  let ?pool = "sv_ratchet_pool sv"
  have sv': "sv' = sv \<lparr> sv_ratchet_pool := fst (ratchet_pool_update node' session' c' ?pool) \<rparr>"
    and opt: "snd (ratchet_pool_update node' session' c' ?pool) \<Longrightarrow> opt \<noteq> None"
    using verify_ratchet[OF Some, where 'x = unit, of node' session' c'] v by auto
  have ok: "sv_ok sv'" unfolding sv' using g by (intro update_sv_ok) (simp add: guarded_def)
  have "\<exists>r. hm_get (ratchets (sv_ratchet_pool sv')) node = Some r \<and> session_id r = session \<and> c \<le> counter r \<and>
      last_ticks_max_len (sv_hash_clock sv) \<le> cur_ticks_to_live r + k"
    if k: "k < last_ticks_max_len (sv_hash_clock sv)"
  proof -
    obtain r where r: "hm_get (ratchets ?pool) node = Some r" "session_id r = session" "c \<le> counter r"
      "last_ticks_max_len (sv_hash_clock sv) \<le> cur_ticks_to_live r + k"
      "ticks_to_live r = last_ticks_max_len (sv_hash_clock sv)"
      using g k by (auto simp: guarded_def sv_ok_def)
    show ?thesis
    proof (cases "node' = node")
      case False
      then show ?thesis using r by (simp add: sv' ratchet_pool_update_get)
    next
      case True
      have moved: "snd (ratchet_pool_update node' session' c' ?pool) = snd (ratchet_update session' c' r)"
        using r True by (simp add: ratchet_pool_update_def case_prod_beta)
      then have "snd (ratchet_update session' c' r) \<Longrightarrow> session' = session" using opt u True by auto
      then show ?thesis
        using r True ratchet_update_simps[of session' c' r]
        by (cases "snd (ratchet_update session' c' r)") (auto simp: sv' ratchet_pool_update_get)
    qed
  qed
  then show ?thesis using g ok by (auto simp: guarded_def sv')
qed

lemma guarded_step:
  assumes "guarded hashes node session c k sv" and "sv_step env ev sv = Ok (sv', answer)"
    and "undisturbed hashes node session ev answer"
  shows "\<exists>k'. guarded hashes node session c k' sv'"
proof (cases ev)
  case (VerifyEvent origin chain node' session' c')
  then obtain opt where "verify env origin chain node' session' c' sv = (Ok (sv', opt) :: (unit, _) result)"
    "answer = Verified opt"
    using assms(2) by (auto simp: rust_simps)
  then show ?thesis
    using guarded_verify[OF assms(1)] assms(3) VerifyEvent by (cases opt) fastforce+
next
  case TickEvent
  then have "guarded hashes node session c (Suc k) sv'"
    using assms by (auto simp: rust_simps intro: guarded_tick[OF assms(1)])
  then show ?thesis ..
qed (use assms in \<open>auto intro: guarded_neighbor\<close>)

lemma guarded_run:
  "sv_run env (undisturbed hashes node session) sv sv' \<Longrightarrow> guarded hashes node session c k sv \<Longrightarrow>
     \<exists>k'. guarded hashes node session c k' sv'"
  by (induction rule: sv_run.induct) (blast intro: guarded_step)+

lemma accepted_guarded:
  assumes "sv_ok sv" and "verify env origin chain node session c sv = (Ok (sv', Some hashes) :: (unit, _) result)"
  shows "guarded L node session c 0 sv'"
proof (cases "verify_expansion_chain env origin chain (sv_hash_clock sv)")
  case None
  then show ?thesis using assms by (simp add: verify_refused)
next
  case (Some t)
  let ?pool = "sv_ratchet_pool sv"
  have sv': "sv' = sv \<lparr> sv_ratchet_pool := fst (ratchet_pool_update node session c ?pool) \<rparr>"
    and moved: "snd (ratchet_pool_update node session c ?pool)"
    using verify_ratchet[OF Some, where 'x = unit, of node session c] assms(2) by (auto split: if_splits)
  have "sv_ok sv'" unfolding sv' by (rule update_sv_ok[OF assms(1)])
  moreover have "snd (ratchet_update session c r)" "ticks_to_live r = last_ticks_max_len (sv_hash_clock sv)"
    if "hm_get (ratchets ?pool) node = Some r" for r
    using that moved assms(1) by (auto simp: ratchet_pool_update_def case_prod_beta sv_ok_def)
  ultimately show ?thesis
    using assms(1) ratchet_update_simps[of session c]
    by (cases "hm_get (ratchets ?pool) node")
      (auto simp: guarded_def sv' ratchet_pool_update_get ratchet_new_def sv_ok_def)
qed

lemma guarded_refuses:
  assumes g: "guarded (set (last ([origin] # chain))) node session c k sv" and c': "c' \<le> c"
  shows "\<exists>sv'. verify env origin chain node session c' sv = (Ok (sv', None) :: (unit, _) result)"
proof (cases "verify_expansion_chain env origin chain (sv_hash_clock sv)")
  case None
  then show ?thesis by (simp add: verify_refused)
next
  case (Some t)
  from verify_chain_contains[OF this] have t: "t \<in> set (last ([origin] # chain))"
    "t \<in> set (last_ticks (sv_hash_clock sv))" using g by (auto simp: guarded_def sv_ok_def hc_ok_def)
  have len: "length (last_ticks (sv_hash_clock sv)) \<le> last_ticks_max_len (sv_hash_clock sv)"
    using g by (simp add: guarded_def sv_ok_def hc_ok_def)
  have k: "k < last_ticks_max_len (sv_hash_clock sv)"
  proof (rule ccontr)
    assume "\<not> ?thesis"
    then have "take k (rev (last_ticks (sv_hash_clock sv))) = rev (last_ticks (sv_hash_clock sv))"
      using len by simp
    then show False using g t by (auto simp: guarded_def)
  qed
  then obtain r where "hm_get (ratchets (sv_ratchet_pool sv)) node = Some r" "session_id r = session" "c \<le> counter r"
    using g by (auto simp: guarded_def)
  then have "\<not> snd (ratchet_pool_update node session c' (sv_ratchet_pool sv))"
    using c' by (simp add: ratchet_pool_update_def case_prod_beta ratchet_update_simps)
  then show ?thesis using verify_ratchet[OF Some, where 'x = unit] by simp
qed

section \<open>A proof of freshness is accepted at the next hop\<close>

definition expansions_ok :: "'e env \<Rightarrow> 'b hash_clock \<Rightarrow> bool" where
  "expansions_ok env hc \<longleftrightarrow> (\<forall>t e. hm_get (last_ticks_map hc) t = Some e \<longrightarrow> hash_hashes env e = t)"

lemma hc_tick_expansions:
  "hc_tick env rand_value hc = (Ok (h, hc') :: (unit, _) result) \<Longrightarrow> expansions_ok env hc \<Longrightarrow> expansions_ok env hc'"
  by (auto simp: hc_tick_def insert_tick_hash_def expansions_ok_def Let_def rust_simps hm_simps
      split: if_splits)

lemma sv_step_expansions:
  assumes "sv_step env ev sv = Ok (sv', answer)" and "expansions_ok env (sv_hash_clock sv)"
  shows "expansions_ok env (sv_hash_clock sv')"
proof (cases ev)
  case (VerifyEvent origin chain node session c)
  then show ?thesis
    using assms by (auto simp: verify_def Let_def case_prod_beta rust_simps split: option.splits if_splits)
next
  case TickEvent
  then show ?thesis
    using assms by (auto simp: sv_tick_def Let_def case_prod_beta rust_simps intro: hc_tick_expansions)
qed (use assms in \<open>auto simp: sv_neighbor_tick_def sv_remove_neighbor_def hc_neighbor_tick_def
      hc_remove_neighbor_def expansions_ok_def\<close>)

lemma sv_run_expansions:
  assumes "simple_verifier_new ttl r = (Ok sv0 :: (unit, _) result)" and "sv_run env ok sv0 sv"
  shows "expansions_ok env (sv_hash_clock sv)"
  using assms(2)
proof (induction rule: sv_run.induct)
  case sv_run_refl
  show ?case using assms(1) by (auto simp: simple_verifier_new_def hash_clock_new_def expansions_ok_def rust_simps)
qed (rule sv_step_expansions)

lemma verify_chain_snoc:
  assumes "verify_expansion_chain env origin chain hc = Some (hash_hashes env hashes)"
    and "\<exists>h\<in>set hashes. hm_contains (last_ticks_map hc') h"
  shows "\<exists>t. verify_expansion_chain env origin (chain @ [hashes]) hc' = Some t"
proof -
  define ex where "ex = [origin] # chain"
  have len: "length ex = Suc (length chain)" by (simp add: ex_def)
  have last: "hash_hashes env hashes \<in> set (ex ! length chain)"
    using verify_chain_contains[OF assms(1)] len last_conv_nth[of ex] by (simp add: ex_def del: last.simps)
  have chain: "hash_hashes env (chain ! i) \<in> set (ex ! i)" if "i < length chain" for i
    using assms(1) that by (auto simp: verify_expansion_chain_def Let_def list_all_iff ex_def split: if_splits)
  have "map (hash_hashes env) (chain @ [hashes]) ! i \<in> set ((ex @ [hashes]) ! i)" if "i < Suc (length chain)" for i
    using that last chain by (cases "i = length chain") (auto simp: nth_append len)
  moreover have "List.find (hm_contains (last_ticks_map hc')) hashes \<noteq> None"
    using assms(2) by (auto simp: find_None_iff)
  moreover have "[origin] # chain @ [hashes] = ex @ [hashes]" by (simp add: ex_def)
  ultimately show ?thesis
    by (auto simp: verify_expansion_chain_def Let_def list_all_iff simp del: map_append)
qed

section \<open>Properties\<close>


lemma sample_verifier_new: "simple_verifier_new 2 (sv_rng sample_verifier) = (Ok sample_verifier :: (unit, _) result)"
  by (simp add: simple_verifier_new_def hash_clock_new_def sample_verifier_def assert_that_def)

lemma sample_tick: "sv_step length_env TickEvent sample_verifier = Ok (ticked_verifier, Ticked 64 [])"
  by (simp add: sv_tick_def sample_verifier_def ticked_verifier_def rand_gen_def rng_fill_def hc_tick_def
      insert_tick_hash_def hash_hashes_def length_env_def sha_512_256_def assert_that_def hm_insert_def
      hm_values_def ratchet_pool_tick_def ratchet_pool_new_def length_to_be_bytes Let_def)

lemma sample_tick_run: "sv_run length_env (\<lambda>_ _. True) sample_verifier ticked_verifier"
  by (rule sv_run_step[OF sv_run_refl sample_tick]) simp

lemma sample_accept:
  "verify length_env 64 [] 7 0 1 ticked_verifier =
     (Ok (ticked_verifier \<lparr> sv_ratchet_pool :=
        \<lparr> ratchets = [(7, ratchet_new 0 1 2)], ratchet_ticks_to_live = 2 \<rparr> \<rparr>, Some [16]) :: (unit, _) result)"
  by (simp add: verify_def verify_expansion_chain_def ticked_verifier_def sample_verifier_def ratchet_pool_new_def
      ratchet_pool_update_def hm_contains_def hm_get_def hm_insert_def get_expansion_def)




end
