(* ===== verification/Index_Server.thy ===== *)
theory Index_Server
  imports Index_Messages Graph_Service Time_Verifier
begin

text \<open>
  The loop of the index server (\<open>index_server/src/server_loop.rs\<close>). A state holds the verifier, the
  graphs behind the graph service, and the connections to trusted servers and to clients. An event is
  one item of the merged streams, or a request for routes taken by the task of a client. What the
  channels and the task spawner do during an event is a parameter of the step. Theorems: no event makes
  the server panic, an edge of the index was announced by the node it starts from, under its
  signature, and removing an unknown currency ends the server.
\<close>

section \<open>State\<close>

datatype server_loop_error =
    SpawnError | GraphClientError | ClientEventSenderError | ClientSenderError | RemoteSendError

text \<open>
  \<open>Connected\<close> holds whether the sender is still there. What \<open>try_send\<close> of the channel does is given by
  the receiving end.
\<close>

datatype send_status = Sent | QueueFull | Disconnected

definition connected_try_send :: "send_status \<Rightarrow> bool \<Rightarrow> 'm \<Rightarrow> bool \<times> 'm list \<times> (server_loop_error, unit) result" where
  "connected_try_send status has_sender msg =
     (if has_sender then
        (case status of
           Sent \<Rightarrow> (True, [msg], Ok ())
         | QueueFull \<Rightarrow> (True, [], Ok ())
         | Disconnected \<Rightarrow> (False, [], Err RemoteSendError))
      else (False, [], Ok ()))"

datatype remote_server_state = ServerConnected bool | ServerInitiating | ServerListening

record 'a remote_server =
  rs_address :: 'a
  rs_state :: remote_server_state

record 'a index_server =
  is_local_public_key :: public_key
  is_graphs :: "(currency, public_key simple_capacity_graph) hash_map"
  is_verifier :: "(public_key, public_key, uid) simple_verifier"
  is_remote_servers :: "(public_key, 'a remote_server) hash_map"
  is_clients :: "(public_key, bool) hash_map"

text \<open>What the environment does while an event is handled.\<close>

record server_io =
  io_to_server :: "public_key \<Rightarrow> send_status"
  io_to_client :: "public_key \<Rightarrow> send_status"
  io_spawn_ok :: bool

datatype server_output =
    ToServer public_key index_server_to_server
  | ToClient public_key index_server_to_client

type_synonym 'a server_result = "(server_loop_error, 'a index_server \<times> server_output list) result"

section \<open>Connections\<close>

definition spawn_server ::
  "'b env \<Rightarrow> server_io \<Rightarrow> public_key \<Rightarrow> public_key \<Rightarrow> 'a \<Rightarrow> (server_loop_error, 'a remote_server) result" where
  "spawn_server env io local_pk pk address =
     (if compare_public_key env local_pk pk = Less
      then Ok \<lparr> rs_address = address, rs_state = ServerListening \<rparr>
      else and_then (fail_if (\<not> io_spawn_ok io) SpawnError) (\<lambda>_.
           Ok \<lparr> rs_address = address, rs_state = ServerInitiating \<rparr>))"

definition index_server_new ::
  "'b env \<Rightarrow> server_io \<Rightarrow> public_key \<Rightarrow> (public_key, 'a) hash_map \<Rightarrow>
     (public_key, public_key, uid) simple_verifier \<Rightarrow> (server_loop_error, 'a index_server) result" where
  "index_server_new env io local_pk trusted_servers verifier =
     fold_r (\<lambda>(pk, address) st.
         and_then (spawn_server env io (is_local_public_key st) pk address) (\<lambda>remote_server.
         Ok (st \<lparr> is_remote_servers := hm_insert pk remote_server (is_remote_servers st) \<rparr>)))
       trusted_servers
       \<lparr> is_local_public_key = local_pk, is_graphs = [], is_verifier = verifier,
         is_remote_servers = [], is_clients = [] \<rparr>"

text \<open>\<open>try_send\<close> to every connected server that is not left out; failures are ignored.\<close>

definition send_to_server ::
  "server_io \<Rightarrow> public_key option \<Rightarrow> index_server_to_server \<Rightarrow> public_key \<times> 'a remote_server \<Rightarrow>
     (public_key \<times> 'a remote_server) \<times> server_output list" where
  "send_to_server io opt_skip msg entry =
     (case entry of (pk, remote) \<Rightarrow>
      case rs_state remote of
        ServerConnected has_sender \<Rightarrow>
          (if Some pk = opt_skip then (entry, [])
           else let (has_sender, sent, _) = connected_try_send (io_to_server io pk) has_sender msg
                in ((pk, remote \<lparr> rs_state := ServerConnected has_sender \<rparr>), map (ToServer pk) sent))
      | _ \<Rightarrow> (entry, []))"

definition send_to_servers ::
  "server_io \<Rightarrow> public_key option \<Rightarrow> index_server_to_server \<Rightarrow> 'a index_server \<Rightarrow>
     'a index_server \<times> server_output list" where
  "send_to_servers io opt_skip msg st =
     (let results = map (send_to_server io opt_skip msg) (is_remote_servers st)
      in (st \<lparr> is_remote_servers := map fst results \<rparr>, concat (map snd results)))"

definition send_to_clients ::
  "server_io \<Rightarrow> index_server_to_client \<Rightarrow> 'a index_server \<Rightarrow> 'a index_server \<times> server_output list" where
  "send_to_clients io msg st =
     (let results = map (\<lambda>(pk, has_sender).
            let (has_sender, sent, _) = connected_try_send (io_to_client io pk) has_sender msg
            in ((pk, has_sender), map (ToClient pk) sent)) (is_clients st)
      in (st \<lparr> is_clients := map fst results \<rparr>, concat (map snd results)))"

section \<open>Handlers\<close>

fun apply_index_mutation ::
  "public_key \<Rightarrow> index_mutation \<Rightarrow> (currency, public_key simple_capacity_graph) hash_map \<Rightarrow>
     (server_loop_error, (currency, public_key simple_capacity_graph) hash_map) result" where
  "apply_index_mutation node (UpdateFriendCurrency u) graphs =
     and_then (map_err (\<lambda>_. GraphClientError)
         (graph_client_update_edge simple_graph (ufc_currency u) node (ufc_public_key u)
            \<lparr> recv_capacity = ufc_recv_capacity u, ce_rate = ufc_rate u \<rparr> graphs))
       (\<lambda>(graphs, _). Ok graphs)"
| "apply_index_mutation node (RemoveFriendCurrency r) graphs =
     and_then (map_err (\<lambda>_. GraphClientError)
         (graph_client_remove_edge simple_graph (rfc_currency r) node (rfc_public_key r) graphs))
       (\<lambda>(graphs, _). Ok graphs)"

definition handle_forward_mutations_update ::
  "'b env \<Rightarrow> server_io \<Rightarrow> public_key option \<Rightarrow> forward_mutations_update \<Rightarrow> 'a index_server \<Rightarrow> 'a server_result" where
  "handle_forward_mutations_update env io opt_server_pk fmu st =
     (let mu = fmu_mutations_update fmu in
      if \<not> verify_mutations_update env mu then Ok (st, [])
      else
        and_then (verify env (mu_time_hash mu) (map tpl_hashes (fmu_time_proof_chain fmu))
            (mu_node_public_key mu) (mu_session_id mu) (mu_counter mu) (is_verifier st))
          (\<lambda>(verifier, opt_hashes).
        let st = st \<lparr> is_verifier := verifier \<rparr> in
        case opt_hashes of
          None \<Rightarrow> Ok (st, [])
        | Some hashes \<Rightarrow>
            and_then (map_err (\<lambda>_. GraphClientError)
                (graph_client_tick simple_graph (mu_node_public_key mu) (is_graphs st))) (\<lambda>graphs.
            let fmu = fmu \<lparr> fmu_time_proof_chain := fmu_time_proof_chain fmu @ [\<lparr> tpl_hashes = hashes \<rparr>] \<rparr> in
            and_then (fold_r (apply_index_mutation (mu_node_public_key mu)) (mu_index_mutations mu) graphs) (\<lambda>graphs.
            Ok (send_to_servers io opt_server_pk (ServerForward fmu) (st \<lparr> is_graphs := graphs \<rparr>))))))"

fun handle_from_server ::
  "'b env \<Rightarrow> server_io \<Rightarrow> public_key \<Rightarrow> index_server_to_server \<Rightarrow> 'a index_server \<Rightarrow> 'a server_result" where
  "handle_from_server env io pk (ServerTimeHash time_hash) st =
     Ok (st \<lparr> is_verifier := fst (sv_neighbor_tick pk time_hash (is_verifier st)) \<rparr>, [])"
| "handle_from_server env io pk (ServerForward fmu) st =
     handle_forward_mutations_update env io (Some pk) fmu st"

definition handle_timer_tick :: "'b env \<Rightarrow> server_io \<Rightarrow> 'a index_server \<Rightarrow> 'a server_result" where
  "handle_timer_tick env io st =
     and_then (sv_tick env (is_verifier st)) (\<lambda>(verifier, time_hash, removed_nodes).
     let (st, to_servers) = send_to_servers io None (ServerTimeHash time_hash) (st \<lparr> is_verifier := verifier \<rparr>);
         (st, to_clients) = send_to_clients io (ClientTimeHash time_hash) st
     in and_then (fold_r (\<lambda>node graphs. map_err (\<lambda>_. GraphClientError)
            (graph_client_remove_node simple_graph node graphs)) removed_nodes (is_graphs st)) (\<lambda>graphs.
        Ok (st \<lparr> is_graphs := graphs \<rparr>, to_servers @ to_clients)))"

definition to_multi_route :: "public_key capacity_multi_route \<Rightarrow> multi_route" where
  "to_multi_route graph_multi_route =
     \<lparr> mr_routes = map (\<lambda>graph_route.
          \<lparr> rcr_route = cr_route graph_route, rcr_capacity = cr_capacity graph_route,
            rcr_rate = cr_rate graph_route \<rparr>) (cmr_routes graph_multi_route) \<rparr>"

definition client_request_routes ::
  "request_routes \<Rightarrow> 'a index_server \<Rightarrow> (server_loop_error, response_routes) result" where
  "client_request_routes request st =
     (let opt_exclude_edge = map_option (\<lambda>e. (from_public_key e, to_public_key e)) (rr_opt_exclude request) in
      and_then (map_err (\<lambda>_. GraphClientError)
          (graph_client_get_multi_routes simple_graph (rr_currency request) (rr_source request)
             (rr_destination request) (rr_capacity request) opt_exclude_edge (is_graphs st))) (\<lambda>graph_multi_routes.
      Ok \<lparr> rsr_request_id = rr_request_id request,
           rsr_multi_routes = map to_multi_route graph_multi_routes \<rparr>))"

section \<open>The loop\<close>

datatype index_server_event =
    ServerConnection public_key
  | IncomingServerConnection public_key
  | FromServer public_key "index_server_to_server option"
  | ClientConnection public_key
  | ClientClosed public_key
  | ClientMessage public_key index_client_to_server
  | TimerTick
  | StreamClosed

definition handle_server_connection :: "public_key \<Rightarrow> 'a index_server \<Rightarrow> server_io \<Rightarrow> 'a server_result" where
  "handle_server_connection pk st io =
     (case hm_get (is_remote_servers st) pk of
        None \<Rightarrow> Ok (st, [])
      | Some remote_server \<Rightarrow>
          (case rs_state remote_server of
             ServerConnected _ \<Rightarrow> Ok (st, [])
           | _ \<Rightarrow>
               and_then (fail_if (\<not> io_spawn_ok io) SpawnError) (\<lambda>_.
               Ok (st \<lparr> is_remote_servers := hm_insert pk (remote_server \<lparr> rs_state := ServerConnected True \<rparr>)
                     (is_remote_servers st) \<rparr>, []))))"

text \<open>
  One event. A client's request for routes is answered by the client's own task, whose errors end
  that task only. The two streams of connections and the timer end the loop when they close: the
  step for \<open>StreamClosed\<close> leaves the state, and a run ends there.
\<close>

fun index_server_step ::
  "'b env \<Rightarrow> server_io \<Rightarrow> index_server_event \<Rightarrow> 'a index_server \<Rightarrow> 'a server_result" where
  "index_server_step env io (ServerConnection pk) st = handle_server_connection pk st io"
| "index_server_step env io (IncomingServerConnection pk) st =
     (if compare_public_key env (is_local_public_key st) pk = Less
      then handle_server_connection pk st io else Ok (st, []))"
| "index_server_step env io (FromServer pk (Some msg)) st = handle_from_server env io pk msg st"
| "index_server_step env io (FromServer pk None) st =
     (case hm_get (is_remote_servers st) pk of
        None \<Rightarrow> Ok (st, [])
      | Some old_server \<Rightarrow>
          and_then (spawn_server env io (is_local_public_key st) pk (rs_address old_server)) (\<lambda>server.
          Ok (st \<lparr> is_verifier := fst (sv_remove_neighbor pk (is_verifier st)),
                   is_remote_servers := hm_insert pk server (is_remote_servers st) \<rparr>, [])))"
| "index_server_step env io (ClientConnection pk) st =
     (if hm_contains (is_clients st) pk then Ok (st, [])
      else and_then (fail_if (\<not> io_spawn_ok io) SpawnError) (\<lambda>_.
           Ok (st \<lparr> is_clients := hm_insert pk True (is_clients st) \<rparr>, [])))"
| "index_server_step env io (ClientClosed pk) st =
     Ok (st \<lparr> is_clients := hm_remove pk (is_clients st) \<rparr>, [])"
| "index_server_step env io (ClientMessage pk (ClientMutations mu)) st =
     handle_forward_mutations_update env io None
       \<lparr> fmu_mutations_update = mu, fmu_time_proof_chain = [] \<rparr> st"
| "index_server_step env io (ClientMessage pk (ClientRequestRoutes request)) st =
     (case client_request_routes request st of
        Ok response \<Rightarrow> Ok (st, [ToClient pk (ClientResponseRoutes response)])
      | _ \<Rightarrow> Ok (st, []))"
| "index_server_step env io TimerTick st = handle_timer_tick env io st"
| "index_server_step env io StreamClosed st = Ok (st, [])"

fun server_loop ::
  "'b env \<Rightarrow> (server_io \<times> index_server_event) list \<Rightarrow> 'a index_server \<Rightarrow> 'a server_result" where
  "server_loop env [] st = Ok (st, [])"
| "server_loop env ((io, ev) # evs) st =
     (if ev = StreamClosed then Ok (st, [])
      else and_then (index_server_step env io ev st) (\<lambda>(st, out).
           and_then (server_loop env evs st) (\<lambda>(st, out'). Ok (st, out @ out'))))"

section \<open>A sample server\<close>

text \<open>A server at its start and one tick later, and updates that node 7 signs then.\<close>

definition sample_signed :: "index_mutation list \<Rightarrow> mutations_update" where
  "sample_signed ms =
     (let mu = \<lparr> mu_node_public_key = 7, mu_index_mutations = ms, mu_time_hash = 64, mu_session_id = 0,
            mu_counter = 1, mu_rand_nonce = 0, mu_signature = 0 \<rparr>
      in mu \<lparr> mu_signature := sample_sign 7 (create_mutations_update_signature_buff length_env mu) \<rparr>)"

definition sample_start :: "unit index_server" where
  "sample_start =
     \<lparr> is_local_public_key = 1, is_graphs = [],
       is_verifier =
         \<lparr> sv_hash_clock = \<lparr> neighbor_hashes = [], last_ticks_max_len = 2, last_ticks = [], last_ticks_map = [] \<rparr>,
           sv_ratchet_pool = ratchet_pool_new 2, sv_rng = \<lparr> rng_tape = of_nat, rng_pos = 0 \<rparr> \<rparr>,
       is_remote_servers = [], is_clients = [] \<rparr>"

definition sample_server :: "unit index_server" where
  "sample_server = sample_start \<lparr> is_verifier :=
     \<lparr> sv_hash_clock = \<lparr> neighbor_hashes = [], last_ticks_max_len = 2, last_ticks = [64],
         last_ticks_map = [(64, [16])] \<rparr>,
       sv_ratchet_pool = ratchet_pool_new 2, sv_rng = \<lparr> rng_tape = of_nat, rng_pos = 16 \<rparr> \<rparr> \<rparr>"

definition sample_io :: server_io where
  "sample_io = \<lparr> io_to_server = (\<lambda>_. Sent), io_to_client = (\<lambda>_. Sent), io_spawn_ok = True \<rparr>"

definition sample_update :: mutations_update where
  "sample_update = sample_signed [UpdateFriendCurrency
     \<lparr> ufc_public_key = 8, ufc_currency = Currency ''b'', ufc_recv_capacity = 10, ufc_rate = rate_new \<rparr>]"

definition sample_server_events :: "(server_io \<times> index_server_event) list" where
  "sample_server_events =
     [(sample_io, TimerTick), (sample_io, ClientMessage 7 (ClientMutations sample_update))]"

section \<open>What the index holds\<close>

text \<open>The updates that reach the server in a sequence of events.\<close>

fun event_updates :: "index_server_event \<Rightarrow> mutations_update set" where
  "event_updates (FromServer pk (Some (ServerForward fmu))) = {fmu_mutations_update fmu}"
| "event_updates (ClientMessage pk (ClientMutations mu)) = {mu}"
| "event_updates _ = {}"

definition announced ::
  "'b env \<Rightarrow> mutations_update set \<Rightarrow> currency \<Rightarrow> public_key \<Rightarrow> public_key \<Rightarrow> capacity_edge \<Rightarrow> bool" where
  "announced env updates k a b ce \<longleftrightarrow>
     (\<exists>mu\<in>updates. verify_mutations_update env mu \<and> mu_node_public_key mu = a \<and>
        UpdateFriendCurrency \<lparr> ufc_public_key = b, ufc_currency = k, ufc_recv_capacity = recv_capacity ce,
          ufc_rate = ce_rate ce \<rparr> \<in> set (mu_index_mutations mu))"

abbreviation index_view where
  "index_view graphs \<equiv> service_view get_edge graphs"

definition all_announced ::
  "'b env \<Rightarrow> mutations_update set \<Rightarrow> (currency, public_key simple_capacity_graph) hash_map \<Rightarrow> bool" where
  "all_announced env updates graphs \<longleftrightarrow>
     service_wf graph_wf graphs \<and>
     (\<forall>k a b e. index_view graphs k a b = Some e \<longrightarrow> announced env updates k a b (capacity_edge e))"

definition index_ok :: "'b env \<Rightarrow> mutations_update set \<Rightarrow> 'a index_server \<Rightarrow> bool" where
  "index_ok env updates st \<longleftrightarrow> sv_ok (is_verifier st) \<and> all_announced env updates (is_graphs st)"

lemma announced_mono: "announced env U k a b ce \<Longrightarrow> U \<subseteq> U' \<Longrightarrow> announced env U' k a b ce"
  by (auto simp: announced_def)

lemma all_announced_mono: "all_announced env U graphs \<Longrightarrow> U \<subseteq> U' \<Longrightarrow> all_announced env U' graphs"
  unfolding all_announced_def by (blast intro: announced_mono)

lemma graph_client_simps:
  "graph_client_tick cg a graphs = Ok (fst (process_request cg (Tick a) graphs))"
  "graph_client_remove_node cg a graphs = Ok (fst (process_request cg (RemoveNode a) graphs))"
  "graph_client_update_edge cg k a b ce graphs =
     (let r = process_request cg (UpdateEdge k a b ce) graphs in and_then (edge_response (snd r)) (\<lambda>old. Ok (fst r, old)))"
  "graph_client_remove_edge cg k a b graphs =
     (let r = process_request cg (RemoveEdge k a b) graphs in and_then (edge_response (snd r)) (\<lambda>old. Ok (fst r, old)))"
  by (simp_all add: graph_client_tick_def graph_client_remove_node_def graph_client_update_edge_def
      graph_client_remove_edge_def case_prod_beta Let_def)

lemma all_announced_tick:
  "all_announced env U graphs \<Longrightarrow> all_announced env U (fst (process_request simple_graph (Tick a) graphs))"
  using sg.tick_service[of graphs a]
  by (auto simp: all_announced_def spec_tick_def edge_older_def simp del: process_request.simps
      split: option.splits if_splits)

lemma all_announced_remove_node:
  "all_announced env U graphs \<Longrightarrow> all_announced env U (fst (process_request simple_graph (RemoveNode a) graphs))"
  using sg.remove_node_service[of graphs a] by (auto simp: all_announced_def simp del: process_request.simps)

lemma apply_index_mutation_announced:
  assumes "all_announced env U graphs" and "apply_index_mutation node m graphs = Ok graphs'"
    and "mu \<in> U" "verify_mutations_update env mu" "mu_node_public_key mu = node" "m \<in> set (mu_index_mutations mu)"
  shows "all_announced env U graphs'"
proof (cases m)
  case (UpdateFriendCurrency u)
  let ?ce = "\<lparr> recv_capacity = ufc_recv_capacity u, ce_rate = ufc_rate u \<rparr>"
  have g': "graphs' = fst (process_request simple_graph (UpdateEdge (ufc_currency u) node (ufc_public_key u) ?ce) graphs)"
    using assms(2) UpdateFriendCurrency by (auto simp: graph_client_simps Let_def rust_simps simp del: process_request.simps)
  have "announced env U (ufc_currency u) node (ufc_public_key u) ?ce"
    using assms(3-6) UpdateFriendCurrency by (cases u) (auto simp: announced_def)
  then show ?thesis
    using assms(1) sg.update_edge_service[of graphs "ufc_currency u" node "ufc_public_key u" ?ce] unfolding g'
    by (auto simp: all_announced_def spec_update_def edge_new_def simp del: process_request.simps split: if_splits)
next
  case (RemoveFriendCurrency r)
  have g': "graphs' = fst (process_request simple_graph (RemoveEdge (rfc_currency r) node (rfc_public_key r)) graphs)"
    using assms(2) RemoveFriendCurrency by (auto simp: graph_client_simps Let_def rust_simps simp del: process_request.simps)
  then show ?thesis
    using assms(1) sg.remove_edge_service[of graphs "rfc_currency r" node "rfc_public_key r"] unfolding g'
    by (auto simp: all_announced_def spec_remove_edge_def simp del: process_request.simps split: if_splits)
qed

lemma apply_index_mutations_announced:
  assumes "fold_r (apply_index_mutation (mu_node_public_key mu)) ms graphs = Ok graphs'" and "all_announced env U graphs"
    and "mu \<in> U" "verify_mutations_update env mu" "set ms \<subseteq> set (mu_index_mutations mu)"
  shows "all_announced env U graphs'"
  using assms(1,2) by (rule fold_r_invariant) (use assms(3-5) in \<open>auto intro: apply_index_mutation_announced\<close>)

lemma send_simps [simp]:
  "is_verifier (fst (send_to_servers io skip msg st)) = is_verifier st"
  "is_graphs (fst (send_to_servers io skip msg st)) = is_graphs st"
  "is_verifier (fst (send_to_clients io msg' st)) = is_verifier st"
  "is_graphs (fst (send_to_clients io msg' st)) = is_graphs st"
  by (simp_all add: send_to_servers_def send_to_clients_def Let_def)

section \<open>No event panics\<close>

text \<open>\<open>safely P r\<close>: \<open>r\<close> is no panic, and a value in it satisfies \<open>P\<close>.\<close>

definition safely :: "('x \<Rightarrow> bool) \<Rightarrow> ('e, 'x) result \<Rightarrow> bool" where
  "safely P r \<longleftrightarrow> r \<noteq> Panic \<and> (\<forall>x. r = Ok x \<longrightarrow> P x)"

lemma safely_simps [simp]:
  "safely P (Ok x) \<longleftrightarrow> P x" "safely P (Err e)" "\<not> safely P Panic"
  by (auto simp: safely_def)

lemma safely_and_then: "safely P m \<Longrightarrow> (\<And>x. P x \<Longrightarrow> safely Q (f x)) \<Longrightarrow> safely Q (and_then m f)"
  by (cases m) auto

lemma safely_fail_if [simp]: "safely P (fail_if c e) \<longleftrightarrow> c \<or> P ()"
  by (simp add: fail_if_def)

lemma safely_fold_r:
  "Q s \<Longrightarrow> (\<And>x s. x \<in> set xs \<Longrightarrow> Q s \<Longrightarrow> safely Q (f x s)) \<Longrightarrow> safely Q (fold_r f xs s)"
  by (induction xs arbitrary: s) (auto intro: safely_and_then)

lemma edge_response_no_panic: "edge_response r \<noteq> Panic"
  by (cases r) auto

lemma apply_index_mutation_safely:
  assumes "all_announced env U graphs" "mu \<in> U" "verify_mutations_update env mu" "m \<in> set (mu_index_mutations mu)"
  shows "safely (all_announced env U) (apply_index_mutation (mu_node_public_key mu) m graphs)"
proof -
  have "apply_index_mutation (mu_node_public_key mu) m graphs \<noteq> Panic"
    by (cases m) (auto simp: graph_client_simps Let_def rust_simps edge_response_no_panic simp del: process_request.simps)
  then show ?thesis using apply_index_mutation_announced[OF assms(1)] assms(2-4) by (auto simp: safely_def)
qed

lemma verify_safely:
  assumes "sv_ok sv"
  shows "safely (\<lambda>(sv', opt). sv_ok sv') (verify env origin chain node session c sv)"
  using assms update_sv_ok[OF assms]
  by (cases "verify_expansion_chain env origin chain (sv_hash_clock sv)") (auto simp: verify_refused verify_ratchet)

lemma handle_forward_safely:
  assumes "index_ok env U st" and "fmu_mutations_update fmu \<in> U"
  shows "safely (\<lambda>(st', out). index_ok env U st') (handle_forward_mutations_update env io opt_pk fmu st)"
proof (cases "verify_mutations_update env (fmu_mutations_update fmu)")
  case True
  let ?mu = "fmu_mutations_update fmu"
  have graphs: "safely (all_announced env U)
      (fold_r (apply_index_mutation (mu_node_public_key ?mu)) (mu_index_mutations ?mu) graphs)"
    if "all_announced env U graphs" for graphs
    using that by (rule safely_fold_r) (use assms(2) True in \<open>auto intro: apply_index_mutation_safely\<close>)
  show ?thesis
    unfolding handle_forward_mutations_update_def Let_def graph_client_simps
    using True assms
    by (auto simp: index_ok_def all_announced_tick case_prod_beta simp del: process_request.simps
        intro!: safely_and_then[OF verify_safely] safely_and_then[OF graphs] split: option.splits)
qed (use assms in \<open>simp add: handle_forward_mutations_update_def\<close>)

lemma handle_timer_tick_safely:
  assumes "index_ok env U st"
  shows "safely (\<lambda>(st', out). index_ok env U st') (handle_timer_tick env io st)"
proof -
  obtain sv h removed where tick: "sv_tick env (is_verifier st) = (Ok (sv, h, removed) :: (server_loop_error, _) result)" "sv_ok sv"
    using sv_tick_Ok[of "is_verifier st" env] assms unfolding index_ok_def by blast
  have graphs: "safely (all_announced env U) (fold_r (\<lambda>node graphs. map_err (\<lambda>_. GraphClientError)
      (graph_client_remove_node simple_graph node graphs)) removed (is_graphs st))"
    by (rule safely_fold_r)
      (use assms in \<open>auto simp: index_ok_def graph_client_simps all_announced_remove_node simp del: process_request.simps\<close>)
  show ?thesis
    using tick by (auto simp: handle_timer_tick_def case_prod_beta index_ok_def intro!: safely_and_then[OF graphs])
qed

lemma index_server_step_safely:
  assumes "index_ok env U st" and "event_updates ev \<subseteq> U"
  shows "safely (\<lambda>(st', out). index_ok env U st') (index_server_step env io ev st)"
proof (cases ev)
  case (FromServer pk opt)
  then show ?thesis
  proof (cases opt)
    case (Some msg)
    then show ?thesis
      using assms FromServer neighbor_sv_ok handle_forward_safely[OF assms(1)]
      by (cases msg) (auto simp: index_ok_def)
  qed (use assms FromServer neighbor_sv_ok in \<open>auto simp: index_ok_def spawn_server_def fail_if_def split: option.splits\<close>)
next
  case (ClientMessage pk msg)
  then show ?thesis
    using assms handle_forward_safely[OF assms(1)]
    by (cases msg) (auto split: result.splits)
qed (use assms handle_timer_tick_safely[OF assms(1)] in
    \<open>auto simp: index_ok_def handle_server_connection_def fail_if_def split: option.splits remote_server_state.splits\<close>)

definition updates_of :: "(server_io \<times> index_server_event) list \<Rightarrow> mutations_update set" where
  "updates_of evs = (\<Union>(_, ev)\<in>set evs. event_updates ev)"

definition index_wf :: "'a index_server \<Rightarrow> bool" where
  "index_wf st \<longleftrightarrow> sv_ok (is_verifier st) \<and> service_wf graph_wf (is_graphs st)"

lemma server_loop_safely:
  fixes st :: "'a index_server"
  shows "index_ok env U st \<Longrightarrow> updates_of evs \<subseteq> U \<Longrightarrow> safely (\<lambda>(st', out). index_ok env U st') (server_loop env evs st)"
proof (induction evs arbitrary: st)
  case (Cons p evs)
  obtain io ev where p: "p = (io, ev)" by fastforce
  have U: "event_updates ev \<subseteq> U" "updates_of evs \<subseteq> U" using Cons.prems by (auto simp: updates_of_def p)
  have loop: "safely (\<lambda>(st', out). index_ok env U st')
      (and_then (server_loop env evs st1) (\<lambda>(st2, out'). Ok (st2, out @ out')))"
    if "index_ok env U st1" for st1 :: "'a index_server" and out
    by (rule safely_and_then[OF Cons.IH[OF that U(2)]]) auto
  show ?case
    using Cons.prems loop
    by (auto simp: p intro!: safely_and_then[OF index_server_step_safely[OF Cons.prems(1) U(1)]])
qed simp

lemma index_server_new_ok:
  assumes "index_server_new env io pk trusted verifier = Ok st" and "sv_ok verifier"
  shows "index_ok env U st"
proof -
  have "is_verifier st = verifier \<and> is_graphs st = []"
    using assms(1) unfolding index_server_new_def
    by (rule fold_r_invariant[where P = "\<lambda>st. is_verifier st = verifier \<and> is_graphs st = []"])
      (auto simp: rust_simps case_prod_beta)
  then show ?thesis
    using assms(2) by (simp add: index_ok_def all_announced_def service_wf_def service_view_def)
qed

lemma sample_signed_simps:
  "verify_mutations_update length_env (sample_signed ms)"
  "mu_index_mutations (sample_signed ms) = ms" "mu_node_public_key (sample_signed ms) = 7"
  "mu_time_hash (sample_signed ms) = 64" "mu_session_id (sample_signed ms) = 0" "mu_counter (sample_signed ms) = 1"
  by (simp_all add: verify_mutations_update_def sample_signed_def Let_def verify_signature_def length_env_def
      sample_env_def create_mutations_update_signature_buff_def)

lemma sample_server_fresh:
  "verify length_env 64 [] 7 0 1 (is_verifier sample_server) =
     Ok ((is_verifier sample_server) \<lparr> sv_ratchet_pool :=
        \<lparr> ratchets = [(7, ratchet_new 0 1 2)], ratchet_ticks_to_live = 2 \<rparr> \<rparr>, Some [16])"
  by (simp add: verify_def verify_expansion_chain_def sample_server_def ratchet_pool_new_def
      ratchet_pool_update_def hm_contains_def hm_get_def hm_insert_def get_expansion_def)

lemma sample_start_tick: "handle_timer_tick length_env sample_io sample_start = Ok (sample_server, [])"
  by (simp add: handle_timer_tick_def sv_tick_def sample_server_def sample_start_def rand_gen_def rng_fill_def
      hc_tick_def insert_tick_hash_def hash_hashes_def length_env_def sha_512_256_def assert_that_def
      hm_insert_def hm_values_def ratchet_pool_tick_def ratchet_pool_new_def length_to_be_bytes Let_def
      send_to_servers_def send_to_clients_def)

lemma sample_start_new:
  "simple_verifier_new 2 \<lparr> rng_tape = of_nat, rng_pos = 0 \<rparr> = (Ok (is_verifier sample_start) :: (unit, _) result)"
  "index_server_new length_env sample_io 1 [] (is_verifier sample_start) = Ok sample_start"
  by (simp_all add: simple_verifier_new_def hash_clock_new_def sample_start_def assert_that_def index_server_new_def)

lemma sample_server_run:
  "\<exists>st out. server_loop length_env sample_server_events sample_start = Ok (st, out) \<and>
     service_view get_edge (is_graphs st) (Currency ''b'') 7 8 =
       Some \<lparr> capacity_edge = \<lparr> recv_capacity = 10, ce_rate = rate_new \<rparr>, age = 0 \<rparr>"
  by (simp add: sample_server_events_def sample_start_tick handle_forward_mutations_update_def sample_update_def
      sample_signed_simps sample_server_fresh graph_client_tick_def graph_client_update_edge_def
      send_to_servers_def service_view_def simple_graph_def update_edge_def graph_new_def node_edges_new_def
      hm_get_def hm_insert_def get_edge_def edge_new_def Let_def)
     (simp add: sample_server_def sample_start_def hm_get_def hm_insert_def update_edge_def graph_new_def
      node_edges_new_def edge_new_def get_edge_def)

section \<open>Properties\<close>





text \<open>
  C35. One client can end the index server: an update with a valid signature and a fresh time hash that
  removes a currency of which the server has no graph makes the loop return an error. The graph
  service drops the sender of the reply, and the loop takes the closed receiver for a failure.
\<close>

theorem unknown_currency_removal_stops_server:
  assumes "verify_mutations_update env mu" and "mu_index_mutations mu = RemoveFriendCurrency rm # ms"
    and "verify env (mu_time_hash mu) [] (mu_node_public_key mu) (mu_session_id mu) (mu_counter mu) (is_verifier st) =
      (Ok (verifier, Some hashes) :: (server_loop_error, _) result)"
    and "hm_get (is_graphs st) (rfc_currency rm) = None"
  shows "server_loop env ((io, ClientMessage pk (ClientMutations mu)) # evs) st = Err GraphClientError"
  using assms
  by (simp add: handle_forward_mutations_update_def graph_client_tick_def graph_client_remove_edge_def
      hm_get_map_values)

theorem unknown_currency_removal_stops_server_witness:
  "server_loop length_env [(sample_io, ClientMessage 7 (ClientMutations
     (sample_signed [RemoveFriendCurrency \<lparr> rfc_public_key = 8, rfc_currency = Currency ''b'' \<rparr>])))] sample_server =
     Err GraphClientError"
  by (rule unknown_currency_removal_stops_server)
    (simp_all add: sample_signed_simps sample_server_fresh, simp add: sample_server_def sample_start_def)

end
