(* ===== verification/Secure_Channel.thy ===== *)
theory Secure_Channel
  imports Handler_State
begin

text \<open>
  The encrypted channel between two nodes (\<open>secure_channel/src/state.rs\<close>,
  \<open>secure_channel/src/secure_channel.rs\<close>), with the nonce counters and symmetric keys of
  \<open>crypto/src/sym_encrypt.rs\<close> and \<open>crypto/src/dh.rs\<close>. The key agreement, the key derivation, the cipher and
  the wire format (\<open>x25519_dalek\<close>, \<open>hkdf\<close>, \<open>chacha20poly1305\<close>, Cap'n Proto) are third-party code: they are
  the fields of the record \<open>sc_crypto\<close>, and every definition that reaches them takes it as an
  argument.
\<close>

section \<open>Messages\<close>

type_synonym salt = "256 word"
type_synonym dh_public_key = "256 word"
type_synonym symmetric_key = "256 word"

record exchange_rand_nonce =
  ern_rand_nonce :: rand_value
  ern_src_public_key :: public_key
  ern_opt_dest_public_key :: "public_key option"

record exchange_dh =
  ed_dh_public_key :: dh_public_key
  ed_rand_nonce :: rand_value
  ed_key_salt :: salt
  ed_signature :: signature

definition exchange_dh_signature_buffer :: "exchange_dh \<Rightarrow> u8 list" where
  "exchange_dh_signature_buffer ed =
     to_be_bytes (ed_dh_public_key ed) @ to_be_bytes (ed_rand_nonce ed) @ to_be_bytes (ed_key_salt ed)"

record rekey =
  rk_dh_public_key :: dh_public_key
  rk_key_salt :: salt

datatype channel_content = ContentRekey rekey | ContentUser "u8 list"

record channel_message =
  cm_rand_padding :: "u8 list"
  cm_content :: channel_content

text \<open>\<open>'k\<close> is the type of the ephemeral secrets.\<close>

record 'k sc_crypto =
  x25519_new_secret :: "rng \<Rightarrow> 'k \<times> rng"
  x25519_public :: "'k \<Rightarrow> dh_public_key"
  x25519_diffie_hellman :: "'k \<Rightarrow> dh_public_key \<Rightarrow> u8 list"
  hkdf_expand :: "salt \<Rightarrow> u8 list \<Rightarrow> symmetric_key option"
  chacha_encrypt :: "symmetric_key \<Rightarrow> u8 list \<Rightarrow> u8 list \<Rightarrow> u8 list option"
  chacha_decrypt :: "symmetric_key \<Rightarrow> u8 list \<Rightarrow> u8 list \<Rightarrow> u8 list option"
  channel_message_serialize :: "channel_message \<Rightarrow> u8 list"
  channel_message_deserialize :: "u8 list \<Rightarrow> channel_message option"

section \<open>Symmetric encryption\<close>

definition ENC_NONCE_LEN :: nat where
  "ENC_NONCE_LEN = 12"

text \<open>The carry \<open>c\<close> is a 16-bit integer.\<close>

fun increase_nonce_loop :: "16 word \<Rightarrow> u8 list \<Rightarrow> u8 list" where
  "increase_nonce_loop c [] = []"
| "increase_nonce_loop c (i # nonce) =
     (let c = c + ucast i in ucast c # increase_nonce_loop (drop_bit 8 c) nonce)"

definition increase_nonce :: "u8 list \<Rightarrow> u8 list" where
  "increase_nonce nonce = increase_nonce_loop 1 nonce"

definition nonce_counter_new :: "u8 list" where
  "nonce_counter_new = replicate ENC_NONCE_LEN 0"

text \<open>An \<open>Encryptor\<close> or a \<open>Decryptor\<close>: a cipher with its key, and the counter of the next nonce.\<close>

record encryptor =
  en_key :: symmetric_key
  en_nonce :: "u8 list"

definition encryptor_new :: "symmetric_key \<Rightarrow> encryptor" where
  "encryptor_new key = \<lparr> en_key = key, en_nonce = nonce_counter_new \<rparr>"

definition next_nonce :: "encryptor \<Rightarrow> encryptor" where
  "next_nonce en = en \<lparr> en_nonce := increase_nonce (en_nonce en) \<rparr>"

definition encrypt :: "'k sc_crypto \<Rightarrow> u8 list \<Rightarrow> encryptor \<Rightarrow> encryptor \<times> u8 list option" where
  "encrypt cr plain_msg en =
     (next_nonce en, map_option ((@) (en_nonce en)) (chacha_encrypt cr (en_key en) (en_nonce en) plain_msg))"

datatype crypto_error = CryptoError

definition decrypt ::
  "'k sc_crypto \<Rightarrow> u8 list \<Rightarrow> encryptor \<Rightarrow> (crypto_error, encryptor \<times> u8 list) result" where
  "decrypt cr cipher_msg de =
     and_then (assert_that (ENC_NONCE_LEN \<le> length cipher_msg)) (\<lambda>_.
     let enc_nonce = take ENC_NONCE_LEN cipher_msg in
     and_then (fail_if (enc_nonce \<noteq> en_nonce de) CryptoError) (\<lambda>_.
     and_then (ok_or (chacha_decrypt cr (en_key de) enc_nonce (drop ENC_NONCE_LEN cipher_msg)) CryptoError) (\<lambda>text.
     Ok (next_nonce de, text))))"

definition derive_symmetric_key ::
  "'k sc_crypto \<Rightarrow> 'k \<Rightarrow> dh_public_key \<Rightarrow> salt \<Rightarrow> salt \<Rightarrow> (crypto_error, symmetric_key \<times> symmetric_key) result" where
  "derive_symmetric_key cr secret remote_public_key send_salt recv_salt =
     (let shared_secret = x25519_diffie_hellman cr secret remote_public_key in
      and_then (ok_or (hkdf_expand cr send_salt shared_secret) CryptoError) (\<lambda>send_key.
      and_then (ok_or (hkdf_expand cr recv_salt shared_secret) CryptoError) (\<lambda>recv_key.
      Ok (send_key, recv_key))))"

section \<open>The handshake\<close>

datatype sc_state_error =
    SC_UnexpectedRemotePublicKey
  | SC_PrivateKeyGenFailure
  | SC_DhPublicKeyComputeFailure
  | SC_IncorrectRandNonce
  | SC_InvalidSignature
  | SC_KeyDerivationFailure
  | SC_CreateEncryptorFailure
  | SC_CreateDecryptorFailure
  | SC_DecryptionFailure
  | SC_ProtoSerializeError
  | SC_IdentityClientError
  | SC_RekeyInProgress

record sc_state_initial =
  ini_local_public_key :: public_key
  ini_opt_remote_public_key :: "public_key option"
  ini_local_rand_nonce :: rand_value

record 'k sc_state_half =
  half_remote_public_key :: public_key
  half_local_public_key :: public_key
  half_local_rand_nonce :: rand_value
  half_dh_private_key :: 'k
  half_local_salt :: salt

record 'k pending_rekey =
  pr_local_dh_private_key :: 'k
  pr_local_salt :: salt

record 'k sc_state =
  sc_local_public_key :: public_key
  sc_remote_public_key :: public_key
  sc_sender :: encryptor
  sc_receiver :: encryptor
  sc_opt_old_receiver :: "encryptor option"
  sc_opt_pending_rekey :: "'k pending_rekey option"

definition sc_state_initial_new ::
  "public_key \<Rightarrow> public_key option \<Rightarrow> rng \<Rightarrow> sc_state_initial \<times> exchange_rand_nonce \<times> rng" where
  "sc_state_initial_new local_pk opt_remote_pk r =
     (let (local_rand_nonce, r) = rand_gen r in
      (\<lparr> ini_local_public_key = local_pk, ini_opt_remote_public_key = opt_remote_pk,
         ini_local_rand_nonce = local_rand_nonce \<rparr>,
       \<lparr> ern_rand_nonce = local_rand_nonce, ern_src_public_key = local_pk,
         ern_opt_dest_public_key = opt_remote_pk \<rparr>, r))"

text \<open>\<open>sign\<close> is the identity service of the node.\<close>

definition handle_exchange_rand_nonce ::
  "'k sc_crypto \<Rightarrow> (u8 list \<Rightarrow> signature) \<Rightarrow> exchange_rand_nonce \<Rightarrow> rng \<Rightarrow> sc_state_initial \<Rightarrow>
     (sc_state_error, 'k sc_state_half \<times> exchange_dh) result" where
  "handle_exchange_rand_nonce cr sign ern r ini =
     and_then (fail_if (case ini_opt_remote_public_key ini of
           Some expected_remote_public_key \<Rightarrow> expected_remote_public_key \<noteq> ern_src_public_key ern
         | None \<Rightarrow> False) SC_UnexpectedRemotePublicKey) (\<lambda>_.
     let (dh_private_key, r) = x25519_new_secret cr r;
         dh_public_key = x25519_public cr dh_private_key;
         (local_salt, r) = rand_gen r;
         half = \<lparr> half_remote_public_key = ern_src_public_key ern,
                  half_local_public_key = ini_local_public_key ini,
                  half_local_rand_nonce = ini_local_rand_nonce ini,
                  half_dh_private_key = dh_private_key, half_local_salt = local_salt \<rparr>;
         ed = \<lparr> ed_dh_public_key = dh_public_key, ed_rand_nonce = ern_rand_nonce ern,
                ed_key_salt = local_salt, ed_signature = 0 \<rparr>
     in Ok (half, ed \<lparr> ed_signature := sign (exchange_dh_signature_buffer ed) \<rparr>))"

definition verify_exchange_dh ::
  "'b env \<Rightarrow> exchange_dh \<Rightarrow> 'k sc_state_half \<Rightarrow> (sc_state_error, unit) result" where
  "verify_exchange_dh env ed half =
     and_then (fail_if (half_local_rand_nonce half \<noteq> ed_rand_nonce ed) SC_IncorrectRandNonce) (\<lambda>_.
     fail_if (\<not> verify_signature env (exchange_dh_signature_buffer ed) (half_remote_public_key half)
        (ed_signature ed)) SC_InvalidSignature)"

definition handle_exchange_dh ::
  "'b env \<Rightarrow> 'k sc_crypto \<Rightarrow> exchange_dh \<Rightarrow> 'k sc_state_half \<Rightarrow> (sc_state_error, 'k sc_state) result" where
  "handle_exchange_dh env cr ed half =
     and_then (verify_exchange_dh env ed half) (\<lambda>_.
     and_then (map_err (\<lambda>_. SC_KeyDerivationFailure)
         (derive_symmetric_key cr (half_dh_private_key half) (ed_dh_public_key ed) (half_local_salt half)
           (ed_key_salt ed))) (\<lambda>(send_key, recv_key).
     Ok \<lparr> sc_local_public_key = half_local_public_key half,
          sc_remote_public_key = half_remote_public_key half,
          sc_sender = encryptor_new send_key, sc_receiver = encryptor_new recv_key,
          sc_opt_old_receiver = None, sc_opt_pending_rekey = None \<rparr>))"

section \<open>Messages on the channel\<close>

definition MAX_RAND_PADDING :: "16 word" where
  "MAX_RAND_PADDING = 0x100"

record handle_incoming_output =
  hio_rekey_occurred :: bool
  hio_opt_send_message :: "u8 list option"
  hio_opt_incoming_message :: "u8 list option"

definition gen_rand_padding :: "rng \<Rightarrow> ('e, u8 list \<times> rng) result" where
  "gen_rand_padding r =
     and_then (assert_that (and MAX_RAND_PADDING 0xff = 0)) (\<lambda>_.
     let (len_bytes, r) = rng_fill 2 r;
         padding_len = unat (of_be_bytes len_bytes :: 16 word)
     in Ok (rng_fill padding_len r))"

definition encrypt_outgoing ::
  "'k sc_crypto \<Rightarrow> channel_content \<Rightarrow> 'k sc_state \<Rightarrow> rng \<Rightarrow> ('e, 'k sc_state \<times> u8 list \<times> rng) result" where
  "encrypt_outgoing cr content st r =
     and_then (gen_rand_padding r) (\<lambda>(rand_padding, r).
     let ser_channel_message =
           channel_message_serialize cr \<lparr> cm_rand_padding = rand_padding, cm_content = content \<rparr>;
         (sender, opt_enc) = encrypt cr ser_channel_message (sc_sender st)
     in and_then (unwrap opt_enc) (\<lambda>enc. Ok (st \<lparr> sc_sender := sender \<rparr>, enc, r)))"

definition try_decrypt ::
  "'k sc_crypto \<Rightarrow> u8 list \<Rightarrow> 'k sc_state \<Rightarrow> (sc_state_error, 'k sc_state \<times> u8 list) result" where
  "try_decrypt cr enc_data st =
     (let with_new_receiver =
            and_then (map_err (\<lambda>_. SC_DecryptionFailure) (decrypt cr enc_data (sc_receiver st))) (\<lambda>(receiver, text).
            Ok (st \<lparr> sc_receiver := receiver, sc_opt_old_receiver := None \<rparr>, text))
      in case sc_opt_old_receiver st of
           Some old_receiver \<Rightarrow>
             (case decrypt cr enc_data old_receiver of
                Ok (old_receiver, text) \<Rightarrow> Ok (st \<lparr> sc_opt_old_receiver := Some old_receiver \<rparr>, text)
              | Err _ \<Rightarrow> with_new_receiver
              | Panic \<Rightarrow> Panic)
         | None \<Rightarrow> with_new_receiver)"

definition decrypt_incoming ::
  "'k sc_crypto \<Rightarrow> u8 list \<Rightarrow> 'k sc_state \<Rightarrow> (sc_state_error, 'k sc_state \<times> channel_content) result" where
  "decrypt_incoming cr enc_data st =
     and_then (try_decrypt cr enc_data st) (\<lambda>(st, text).
     and_then (ok_or (channel_message_deserialize cr text) SC_ProtoSerializeError) (\<lambda>msg.
     Ok (st, cm_content msg)))"

definition create_outgoing ::
  "'k sc_crypto \<Rightarrow> u8 list \<Rightarrow> 'k sc_state \<Rightarrow> rng \<Rightarrow> ('e, 'k sc_state \<times> u8 list \<times> rng) result" where
  "create_outgoing cr plain_data st r = encrypt_outgoing cr (ContentUser plain_data) st r"

definition create_rekey ::
  "'k sc_crypto \<Rightarrow> 'k sc_state \<Rightarrow> rng \<Rightarrow> (sc_state_error, 'k sc_state \<times> u8 list \<times> rng) result" where
  "create_rekey cr st r =
     and_then (fail_if (sc_opt_pending_rekey st \<noteq> None) SC_RekeyInProgress) (\<lambda>_.
     let (dh_private_key, r) = x25519_new_secret cr r;
         (local_salt, r) = rand_gen r;
         dh_public_key = x25519_public cr dh_private_key;
         st = st \<lparr> sc_opt_pending_rekey :=
           Some \<lparr> pr_local_dh_private_key = dh_private_key, pr_local_salt = local_salt \<rparr> \<rparr>
     in encrypt_outgoing cr (ContentRekey \<lparr> rk_dh_public_key = dh_public_key, rk_key_salt = local_salt \<rparr>) st r)"

definition handle_incoming_rekey ::
  "'k sc_crypto \<Rightarrow> rekey \<Rightarrow> 'k sc_state \<Rightarrow> rng \<Rightarrow>
     (sc_state_error, 'k sc_state \<times> handle_incoming_output \<times> rng) result" where
  "handle_incoming_rekey cr rk st r =
     (case sc_opt_pending_rekey st of
        None \<Rightarrow>
          (let (dh_private_key, r) = x25519_new_secret cr r;
               (local_salt, r) = rand_gen r;
               dh_public_key = x25519_public cr dh_private_key in
           and_then (map_err (\<lambda>_. SC_KeyDerivationFailure)
               (derive_symmetric_key cr dh_private_key (rk_dh_public_key rk) local_salt (rk_key_salt rk)))
             (\<lambda>(send_key, recv_key).
           let st = st \<lparr> sc_opt_old_receiver := Some (sc_receiver st), sc_receiver := encryptor_new recv_key \<rparr> in
           and_then (encrypt_outgoing cr
               (ContentRekey \<lparr> rk_dh_public_key = dh_public_key, rk_key_salt = local_salt \<rparr>) st r)
             (\<lambda>(st, rekey_data, r).
           Ok (st \<lparr> sc_sender := encryptor_new send_key \<rparr>,
               \<lparr> hio_rekey_occurred = True, hio_opt_send_message = Some rekey_data,
                 hio_opt_incoming_message = None \<rparr>, r))))
      | Some pending \<Rightarrow>
          (let st = st \<lparr> sc_opt_pending_rekey := None \<rparr> in
           and_then (map_err (\<lambda>_. SC_KeyDerivationFailure)
               (derive_symmetric_key cr (pr_local_dh_private_key pending) (rk_dh_public_key rk)
                 (pr_local_salt pending) (rk_key_salt rk)))
             (\<lambda>(send_key, recv_key).
           Ok (st \<lparr> sc_sender := encryptor_new send_key, sc_opt_old_receiver := Some (sc_receiver st),
                    sc_receiver := encryptor_new recv_key \<rparr>,
               \<lparr> hio_rekey_occurred = True, hio_opt_send_message = None, hio_opt_incoming_message = None \<rparr>, r))))"

definition handle_incoming ::
  "'k sc_crypto \<Rightarrow> u8 list \<Rightarrow> 'k sc_state \<Rightarrow> rng \<Rightarrow>
     (sc_state_error, 'k sc_state \<times> handle_incoming_output \<times> rng) result" where
  "handle_incoming cr enc_data st r =
     and_then (decrypt_incoming cr enc_data st) (\<lambda>(st, content).
     case content of
       ContentRekey rk \<Rightarrow> handle_incoming_rekey cr rk st r
     | ContentUser text \<Rightarrow>
         Ok (st, \<lparr> hio_rekey_occurred = False, hio_opt_send_message = None,
                   hio_opt_incoming_message = Some text \<rparr>, r))"

section \<open>The loop\<close>

datatype secure_channel_error =
    SCE_IdentityFailure
  | SCE_WriterError
  | SCE_ReaderClosed
  | SCE_ProtoSerializeError
  | SCE_HandleExchangeRandNonceError sc_state_error
  | SCE_HandleExchangeScStateError sc_state_error
  | SCE_UnexpectedRemotePublicKey
  | SCE_RequestTimerStreamError
  | SCE_HandleIncomingError
  | SCE_SpawnError

text \<open>
  The exchange with which the two sides start, as one step from the remote messages, as they
  arrive, to the state. The messages to send are returned as well.
\<close>

definition initial_exchange ::
  "'b env \<Rightarrow> 'k sc_crypto \<Rightarrow> (u8 list \<Rightarrow> signature) \<Rightarrow> public_key \<Rightarrow> public_key option \<Rightarrow> rng \<Rightarrow>
     exchange_rand_nonce \<Rightarrow> exchange_dh \<Rightarrow>
     (secure_channel_error, 'k sc_state \<times> exchange_rand_nonce \<times> exchange_dh) result" where
  "initial_exchange env cr sign local_pk opt_expected_remote r remote_ern remote_ed =
     (let (ini, ern, r) = sc_state_initial_new local_pk opt_expected_remote r in
      and_then (map_err SCE_HandleExchangeRandNonceError (handle_exchange_rand_nonce cr sign remote_ern r ini))
        (\<lambda>(half, ed).
      and_then (fail_if (case opt_expected_remote of
            Some expected_remote \<Rightarrow> expected_remote \<noteq> half_remote_public_key half
          | None \<Rightarrow> False) SCE_UnexpectedRemotePublicKey) (\<lambda>_.
      and_then (map_err SCE_HandleExchangeScStateError (handle_exchange_dh env cr remote_ed half)) (\<lambda>st.
      Ok (st, ern, ed)))))"

datatype secure_channel_event =
    SC_Reader "u8 list"
  | SC_User "u8 list"
  | SC_TimerTick
  | SC_ReceiverClosed

record 'k sc_endpoint =
  ep_state :: "'k sc_state"
  ep_rng :: rng
  ep_cur_ticks_to_rekey :: nat

text \<open>
  What an event sends: bytes to the writer and messages to the user. The sends succeed; a
  failure of one of them ends the loop.
\<close>

type_synonym sc_output = "u8 list list \<times> u8 list list"

fun secure_channel_step ::
  "'k sc_crypto \<Rightarrow> nat \<Rightarrow> secure_channel_event \<Rightarrow> 'k sc_endpoint \<Rightarrow>
     (secure_channel_error, 'k sc_endpoint \<times> sc_output) result" where
  "secure_channel_step cr ticks_to_rekey (SC_Reader enc_data) ep =
     and_then (map_err (\<lambda>_. SCE_HandleIncomingError) (handle_incoming cr enc_data (ep_state ep) (ep_rng ep)))
       (\<lambda>(st, out, r).
     Ok (ep \<lparr> ep_state := st, ep_rng := r,
              ep_cur_ticks_to_rekey :=
                (if hio_rekey_occurred out then ticks_to_rekey else ep_cur_ticks_to_rekey ep) \<rparr>,
         (case hio_opt_send_message out of Some m \<Rightarrow> [m] | None \<Rightarrow> []),
         (case hio_opt_incoming_message out of Some m \<Rightarrow> [m] | None \<Rightarrow> [])))"
| "secure_channel_step cr ticks_to_rekey (SC_User plain) ep =
     and_then (create_outgoing cr plain (ep_state ep) (ep_rng ep)) (\<lambda>(st, enc_data, r).
     Ok (ep \<lparr> ep_state := st, ep_rng := r \<rparr>, [enc_data], []))"
| "secure_channel_step cr ticks_to_rekey SC_TimerTick ep =
     (if ep_cur_ticks_to_rekey ep \<noteq> 0
      then Ok (ep \<lparr> ep_cur_ticks_to_rekey := ep_cur_ticks_to_rekey ep - 1 \<rparr>, [], [])
      else
        (case create_rekey cr (ep_state ep) (ep_rng ep) of
           Ok (st, enc_data, r) \<Rightarrow>
             Ok (\<lparr> ep_state = st, ep_rng = r, ep_cur_ticks_to_rekey = ticks_to_rekey \<rparr>, [enc_data], [])
         | Err SC_RekeyInProgress \<Rightarrow> Ok (ep, [], [])
         | _ \<Rightarrow> Panic))"
| "secure_channel_step cr ticks_to_rekey SC_ReceiverClosed ep = Ok (ep, [], [])"

text \<open>The loop over the events, until one of the sources is closed.\<close>

fun secure_channel_loop ::
  "'k sc_crypto \<Rightarrow> nat \<Rightarrow> secure_channel_event list \<Rightarrow> 'k sc_endpoint \<Rightarrow>
     (secure_channel_error, 'k sc_endpoint \<times> sc_output) result" where
  "secure_channel_loop cr ticks_to_rekey [] ep = Ok (ep, [], [])"
| "secure_channel_loop cr ticks_to_rekey (SC_ReceiverClosed # events) ep = Ok (ep, [], [])"
| "secure_channel_loop cr ticks_to_rekey (event # events) ep =
     and_then (secure_channel_step cr ticks_to_rekey event ep) (\<lambda>(ep, writes, incoming).
     and_then (secure_channel_loop cr ticks_to_rekey events ep) (\<lambda>(ep, writes', incoming').
     Ok (ep, writes @ writes', incoming @ incoming')))"

end
