(* ===== verification/Sc_Protocol.thy ===== *)
theory Sc_Protocol
  imports Secure_Channel "HOL-Library.Sublist"
begin

text \<open>
  Two ends of a secure channel with the bytes in flight between them. Whatever the users send and
  whenever the ends change their keys, also both at the same time and with messages in flight, each end
  decrypts every message and its user gets what the other user sent, in order. The key agreement and
  the cipher are assumed to do what they are documented to do, and a key change to give new keys.
\<close>

section \<open>What the channel relies on\<close>

definition sc_crypto_laws :: "'k sc_crypto \<Rightarrow> bool" where
  "sc_crypto_laws cr \<longleftrightarrow>
     (\<forall>a b. x25519_diffie_hellman cr a (x25519_public cr b) = x25519_diffie_hellman cr b (x25519_public cr a)) \<and>
     (\<forall>s x. hkdf_expand cr s x \<noteq> None) \<and>
     (\<forall>key nonce text. \<exists>c. chacha_encrypt cr key nonce text = Some c \<and> chacha_decrypt cr key nonce c = Some text \<and>
        (\<forall>key'. key' \<noteq> key \<longrightarrow> chacha_decrypt cr key' nonce c = None)) \<and>
     (\<forall>m. channel_message_deserialize cr (channel_message_serialize cr m) = Some m)"

section \<open>Two ends and the bytes in flight\<close>

record 'k sc_system =
  sys_a :: "'k sc_endpoint"
  sys_b :: "'k sc_endpoint"
  queue_ab :: "u8 list list"
  queue_ba :: "u8 list list"
  sent_a :: "u8 list list"
  sent_b :: "u8 list list"
  got_a :: "u8 list list"
  got_b :: "u8 list list"

definition swap_ends :: "'k sc_system \<Rightarrow> 'k sc_system" where
  "swap_ends s = \<lparr> sys_a = sys_b s, sys_b = sys_a s, queue_ab = queue_ba s, queue_ba = queue_ab s,
     sent_a = sent_b s, sent_b = sent_a s, got_a = got_b s, got_b = got_a s \<rparr>"

definition sc_system_start :: "'k sc_endpoint \<Rightarrow> 'k sc_endpoint \<Rightarrow> 'k sc_system" where
  "sc_system_start a b = \<lparr> sys_a = a, sys_b = b, queue_ab = [], queue_ba = [],
     sent_a = [], sent_b = [], got_a = [], got_b = [] \<rparr>"

text \<open>A key change gives keys that differ from the ones they replace.\<close>

definition fresh_keys :: "'k sc_state \<Rightarrow> 'k sc_state \<Rightarrow> bool" where
  "fresh_keys st st' \<longleftrightarrow>
     (case sc_opt_old_receiver st' of Some old \<Rightarrow> en_key old \<noteq> en_key (sc_receiver st') | None \<Rightarrow> True) \<and>
     (en_key (sc_receiver st') \<noteq> en_key (sc_receiver st) \<longrightarrow> en_key (sc_sender st') \<noteq> en_key (sc_sender st))"

inductive a_step :: "'k sc_crypto \<Rightarrow> nat \<Rightarrow> 'k sc_system \<Rightarrow> 'k sc_system \<Rightarrow> bool" for cr ticks where
  a_user: "secure_channel_step cr ticks (SC_User d) (sys_a s) = Ok (ep, ws, us) \<Longrightarrow>
    a_step cr ticks s (s \<lparr> sys_a := ep, queue_ab := queue_ab s @ ws, sent_a := sent_a s @ [d] \<rparr>)"
| a_tick: "secure_channel_step cr ticks SC_TimerTick (sys_a s) = Ok (ep, ws, us) \<Longrightarrow>
    a_step cr ticks s (s \<lparr> sys_a := ep, queue_ab := queue_ab s @ ws \<rparr>)"
| a_reader: "queue_ba s = c # q \<Longrightarrow> secure_channel_step cr ticks (SC_Reader c) (sys_a s) = Ok (ep, ws, us) \<Longrightarrow>
    fresh_keys (ep_state (sys_a s)) (ep_state ep) \<Longrightarrow>
    a_step cr ticks s (s \<lparr> sys_a := ep, queue_ba := q, queue_ab := queue_ab s @ ws, got_a := got_a s @ us \<rparr>)"

definition sc_system_step :: "'k sc_crypto \<Rightarrow> nat \<Rightarrow> 'k sc_system \<Rightarrow> 'k sc_system \<Rightarrow> bool" where
  "sc_system_step cr ticks s s' \<longleftrightarrow> a_step cr ticks s s' \<or> a_step cr ticks (swap_ends s) (swap_ends s')"

text \<open>
  What the second end must get: the first of the messages that were sent, all of them when nothing is in
  flight, and the next message in flight can be read.
\<close>

definition delivers_to_b :: "'k sc_crypto \<Rightarrow> nat \<Rightarrow> 'k sc_system \<Rightarrow> bool" where
  "delivers_to_b cr ticks s \<longleftrightarrow>
     prefix (got_b s) (sent_a s) \<and>
     (case queue_ab s of
        [] \<Rightarrow> got_b s = sent_a s
      | c # _ \<Rightarrow> (\<exists>ep output. secure_channel_step cr ticks (SC_Reader c) (sys_b s) = Ok (ep, output)))"

section \<open>Sealed messages\<close>

definition sealed :: "'k sc_crypto \<Rightarrow> symmetric_key \<Rightarrow> u8 list \<Rightarrow> channel_content \<Rightarrow> u8 list \<Rightarrow> bool" where
  "sealed cr key nonce content c \<longleftrightarrow>
     (\<exists>padding raw. c = nonce @ raw \<and>
        chacha_encrypt cr key nonce
          (channel_message_serialize cr \<lparr> cm_rand_padding = padding, cm_content = content \<rparr>) = Some raw)"

fun sealed_stream ::
  "'k sc_crypto \<Rightarrow> symmetric_key \<Rightarrow> u8 list \<Rightarrow> u8 list list \<Rightarrow> channel_content list \<Rightarrow> u8 list \<Rightarrow> bool" where
  "sealed_stream cr key nonce [] [] final \<longleftrightarrow> nonce = final"
| "sealed_stream cr key nonce (c # cs) (m # ms) final \<longleftrightarrow>
     sealed cr key nonce m c \<and> sealed_stream cr key (increase_nonce nonce) cs ms final"
| "sealed_stream cr key nonce cs ms final \<longleftrightarrow> False"

fun is_user :: "channel_content \<Rightarrow> bool" where
  "is_user (ContentUser text) = True"
| "is_user (ContentRekey rk) = False"

primrec rekeys :: "channel_content list \<Rightarrow> rekey list" where
  "rekeys [] = []"
| "rekeys (m # ms) = (case m of ContentRekey rk \<Rightarrow> rk # rekeys ms | ContentUser text \<Rightarrow> rekeys ms)"

primrec users :: "channel_content list \<Rightarrow> u8 list list" where
  "users [] = []"
| "users (m # ms) = (case m of ContentRekey rk \<Rightarrow> users ms | ContentUser text \<Rightarrow> text # users ms)"

definition pending_rekeys :: "'k sc_crypto \<Rightarrow> 'k sc_state \<Rightarrow> rekey list" where
  "pending_rekeys cr st =
     (case sc_opt_pending_rekey st of
        Some p \<Rightarrow> [\<lparr> rk_dh_public_key = x25519_public cr (pr_local_dh_private_key p), rk_key_salt = pr_local_salt p \<rparr>]
      | None \<Rightarrow> [])"

section \<open>The invariant\<close>

text \<open>The messages in flight that the receiver reads with its previous key.\<close>

definition olds_ok :: "'k sc_crypto \<Rightarrow> 'k sc_state \<Rightarrow> u8 list list \<Rightarrow> channel_content list \<Rightarrow> bool" where
  "olds_ok cr B cs ms \<longleftrightarrow> list_all is_user ms \<and> length (en_nonce (sc_receiver B)) = ENC_NONCE_LEN \<and>
     (case sc_opt_old_receiver B of
        None \<Rightarrow> cs = [] \<and> ms = []
      | Some old \<Rightarrow> length (en_nonce old) = ENC_NONCE_LEN \<and> en_key old \<noteq> en_key (sc_receiver B) \<and>
          (\<exists>final. sealed_stream cr (en_key old) (en_nonce old) cs ms final))"

text \<open>The sender of this direction uses the key with which the other end receives.\<close>

definition same_epoch ::
  "'k sc_crypto \<Rightarrow> 'k sc_state \<Rightarrow> 'k sc_state \<Rightarrow> u8 list list \<Rightarrow> channel_content list \<Rightarrow> bool" where
  "same_epoch cr A B q ms \<longleftrightarrow> (\<exists>olds news msO msN. q = olds @ news \<and> ms = msO @ msN \<and> olds_ok cr B olds msO \<and>
     en_key (sc_sender A) = en_key (sc_receiver B) \<and>
     sealed_stream cr (en_key (sc_receiver B)) (en_nonce (sc_receiver B)) news msN (en_nonce (sc_sender A)) \<and>
     rekeys msN = pending_rekeys cr A)"

text \<open>
  \<open>A\<close> has changed the keys and \<open>B\<close> not yet: \<open>B\<close> waits for the answer to its
  own request, the answer is in flight, and \<open>B\<close> will derive from it the keys that \<open>A\<close> uses.
\<close>

definition behind_sends :: "'k sc_crypto \<Rightarrow> 'k sc_state \<Rightarrow> 'k sc_state \<Rightarrow> u8 list list \<Rightarrow> channel_content list \<Rightarrow> bool" where
  "behind_sends cr B A q ms \<longleftrightarrow> list_all is_user ms \<and> en_nonce (sc_receiver A) = nonce_counter_new \<and>
     (\<exists>old. sc_opt_old_receiver A = Some old \<and> length (en_nonce old) = ENC_NONCE_LEN \<and>
       en_key old \<noteq> en_key (sc_receiver A) \<and> en_key (sc_sender B) = en_key old \<and>
       sealed_stream cr (en_key old) (en_nonce old) q ms (en_nonce (sc_sender B)))"

definition ahead_sends :: "'k sc_crypto \<Rightarrow> 'k sc_state \<Rightarrow> 'k sc_state \<Rightarrow> u8 list list \<Rightarrow> channel_content list \<Rightarrow> bool" where
  "ahead_sends cr A B q ms \<longleftrightarrow> (\<exists>pending rk olds mids news msO msM msN final.
     sc_opt_pending_rekey B = Some pending \<and>
     q = olds @ mids @ news \<and> ms = msO @ msM @ msN \<and> olds_ok cr B olds msO \<and>
     sealed_stream cr (en_key (sc_receiver B)) (en_nonce (sc_receiver B)) mids msM final \<and> rekeys msM = [rk] \<and>
     derive_symmetric_key cr (pr_local_dh_private_key pending) (rk_dh_public_key rk) (pr_local_salt pending)
       (rk_key_salt rk) = Ok (en_key (sc_receiver A), en_key (sc_sender A)) \<and>
     en_key (sc_sender A) \<noteq> en_key (sc_receiver B) \<and>
     sealed_stream cr (en_key (sc_sender A)) nonce_counter_new news msN (en_nonce (sc_sender A)) \<and>
     rekeys msN = pending_rekeys cr A)"

text \<open>
  What is left in flight when the request for a key change has been read, and when the answer has.
\<close>

definition request_read ::
  "'k sc_crypto \<Rightarrow> 'k sc_state \<Rightarrow> 'k sc_state \<Rightarrow> u8 list list \<Rightarrow> channel_content list \<Rightarrow> rekey \<Rightarrow> bool" where
  "request_read cr B A q ms rk \<longleftrightarrow> pending_rekeys cr B = [rk] \<and> list_all is_user ms \<and>
     en_key (sc_sender B) = en_key (sc_receiver A) \<and> length (en_nonce (sc_receiver A)) = ENC_NONCE_LEN \<and>
     sealed_stream cr (en_key (sc_receiver A)) (en_nonce (sc_receiver A)) q ms (en_nonce (sc_sender B))"

definition answer_read ::
  "'k sc_crypto \<Rightarrow> 'k sc_state \<Rightarrow> 'k sc_state \<Rightarrow> u8 list list \<Rightarrow> channel_content list \<Rightarrow> rekey \<Rightarrow> bool" where
  "answer_read cr B A q ms rk \<longleftrightarrow> (\<exists>pending mids news msM msN final. sc_opt_pending_rekey A = Some pending \<and>
     q = mids @ news \<and> ms = msM @ msN \<and> list_all is_user msM \<and>
     length (en_nonce (sc_receiver A)) = ENC_NONCE_LEN \<and> en_key (sc_sender B) \<noteq> en_key (sc_receiver A) \<and>
     sealed_stream cr (en_key (sc_receiver A)) (en_nonce (sc_receiver A)) mids msM final \<and>
     derive_symmetric_key cr (pr_local_dh_private_key pending) (rk_dh_public_key rk) (pr_local_salt pending)
       (rk_key_salt rk) = Ok (en_key (sc_receiver B), en_key (sc_sender B)) \<and>
     sealed_stream cr (en_key (sc_sender B)) nonce_counter_new news msN (en_nonce (sc_sender B)) \<and>
     rekeys msN = pending_rekeys cr B)"

definition moved_keys :: "'k sc_crypto \<Rightarrow> 'k sc_state \<Rightarrow> 'k sc_state \<Rightarrow> 'k sc_state \<Rightarrow> rekey \<Rightarrow> bool" where
  "moved_keys cr B A A' rk \<longleftrightarrow> (\<exists>pending. sc_opt_pending_rekey B = Some pending \<and>
     derive_symmetric_key cr (pr_local_dh_private_key pending) (rk_dh_public_key rk) (pr_local_salt pending)
       (rk_key_salt rk) = Ok (en_key (sc_receiver A'), en_key (sc_sender A'))) \<and>
     en_nonce (sc_sender A') = nonce_counter_new \<and> en_nonce (sc_receiver A') = nonce_counter_new \<and>
     sc_opt_old_receiver A' = Some (sc_receiver A) \<and> sc_opt_pending_rekey A' = None"

definition channel_inv ::
  "'k sc_crypto \<Rightarrow> 'k sc_state \<Rightarrow> 'k sc_state \<Rightarrow> u8 list list \<Rightarrow> channel_content list \<Rightarrow> u8 list list \<Rightarrow>
     channel_content list \<Rightarrow> bool" where
  "channel_inv cr A B qab ab qba ba \<longleftrightarrow>
     (same_epoch cr A B qab ab \<and> same_epoch cr B A qba ba) \<or>
     (ahead_sends cr A B qab ab \<and> behind_sends cr B A qba ba) \<or>
     (ahead_sends cr B A qba ba \<and> behind_sends cr A B qab ab)"

text \<open>What one message from the other end does.\<close>

definition recv_ok ::
  "'k sc_crypto \<Rightarrow> 'k sc_state \<Rightarrow> 'k sc_state \<Rightarrow> u8 list list \<Rightarrow> channel_content list \<Rightarrow> u8 list \<Rightarrow> u8 list list \<Rightarrow>
     channel_content list \<Rightarrow> rng \<Rightarrow> bool" where
  "recv_ok cr A B qab ab c qba ba r \<longleftrightarrow> (\<exists>m ba' A' out r' ab'. ba = m # ba' \<and>
     handle_incoming cr c A r = Ok (A', out, r') \<and>
     (case hio_opt_incoming_message out of Some x \<Rightarrow> [x] | None \<Rightarrow> []) = users [m] \<and> users ab' = users ab \<and>
     (fresh_keys A A' \<longrightarrow>
       channel_inv cr A' B (qab @ (case hio_opt_send_message out of Some x \<Rightarrow> [x] | None \<Rightarrow> [])) ab' qba ba'))"

definition system_inv :: "'k sc_crypto \<Rightarrow> 'k sc_system \<Rightarrow> bool" where
  "system_inv cr s \<longleftrightarrow> (\<exists>ab ba.
     channel_inv cr (ep_state (sys_a s)) (ep_state (sys_b s)) (queue_ab s) ab (queue_ba s) ba \<and>
     sent_a s = got_b s @ users ab \<and> sent_b s = got_a s @ users ba)"

lemma sealed_stream_Nil [simp]: "sealed_stream cr key nonce [] ms final \<longleftrightarrow> ms = [] \<and> nonce = final"
  by (cases ms) auto

lemma sealed_stream_Cons [simp]:
  "sealed_stream cr key nonce (c # cs) ms final \<longleftrightarrow>
     (\<exists>m ms'. ms = m # ms' \<and> sealed cr key nonce m c \<and> sealed_stream cr key (increase_nonce nonce) cs ms' final)"
  by (cases ms) auto

lemma sealed_stream_snoc:
  "sealed_stream cr key nonce cs ms final \<Longrightarrow> sealed cr key final m c \<Longrightarrow>
     sealed_stream cr key nonce (cs @ [c]) (ms @ [m]) (increase_nonce final)"
  by (induction cs arbitrary: nonce ms) auto

lemma length_increase_nonce [simp]: "length (increase_nonce nonce) = length nonce"
proof -
  have "length (increase_nonce_loop c nonce) = length nonce" for c
    by (induction nonce arbitrary: c) (auto simp: Let_def)
  then show ?thesis by (simp add: increase_nonce_def)
qed

lemma length_nonce_counter_new [simp]: "length nonce_counter_new = ENC_NONCE_LEN"
  by (simp add: nonce_counter_new_def)

lemma decrypt_sealed:
  assumes "sc_crypto_laws cr" and "sealed cr key nonce m c" and "length nonce = ENC_NONCE_LEN"
  obtains padding where
    "decrypt cr c de =
       (if en_key de = key \<and> en_nonce de = nonce
        then Ok (next_nonce de, channel_message_serialize cr \<lparr> cm_rand_padding = padding, cm_content = m \<rparr>)
        else Err CryptoError)"
proof -
  obtain padding raw where c: "c = nonce @ raw" and raw: "chacha_encrypt cr key nonce
      (channel_message_serialize cr \<lparr> cm_rand_padding = padding, cm_content = m \<rparr>) = Some raw"
    using assms(2) by (auto simp: sealed_def)
  have "chacha_decrypt cr key nonce raw =
      Some (channel_message_serialize cr \<lparr> cm_rand_padding = padding, cm_content = m \<rparr>)"
    "\<And>key'. key' \<noteq> key \<Longrightarrow> chacha_decrypt cr key' nonce raw = None"
    using assms(1) raw unfolding sc_crypto_laws_def by (metis option.inject)+
  then show ?thesis
    using assms(3) by (intro that[of padding]) (auto simp: decrypt_def c assert_that_def fail_if_def)
qed

lemma decrypt_incoming_old:
  assumes "sc_crypto_laws cr" and "sealed cr (en_key old) (en_nonce old) m c" and "length (en_nonce old) = ENC_NONCE_LEN"
    and "sc_opt_old_receiver st = Some old"
  shows "decrypt_incoming cr c st = Ok (st \<lparr> sc_opt_old_receiver := Some (next_nonce old) \<rparr>, m)"
proof -
  obtain padding where "decrypt cr c old =
      Ok (next_nonce old, channel_message_serialize cr \<lparr> cm_rand_padding = padding, cm_content = m \<rparr>)"
    using decrypt_sealed[OF assms(1-3), of old] by auto
  then show ?thesis
    using assms(1,4) by (simp add: decrypt_incoming_def try_decrypt_def sc_crypto_laws_def)
qed

lemma decrypt_incoming_new:
  assumes laws: "sc_crypto_laws cr" and c: "sealed cr (en_key (sc_receiver st)) (en_nonce (sc_receiver st)) m c"
    and len: "length (en_nonce (sc_receiver st)) = ENC_NONCE_LEN"
    and old: "\<And>old. sc_opt_old_receiver st = Some old \<Longrightarrow> en_key old \<noteq> en_key (sc_receiver st)"
  shows "decrypt_incoming cr c st =
    Ok (st \<lparr> sc_receiver := next_nonce (sc_receiver st), sc_opt_old_receiver := None \<rparr>, m)"
proof -
  obtain padding where d: "decrypt cr c (sc_receiver st) =
      Ok (next_nonce (sc_receiver st), channel_message_serialize cr \<lparr> cm_rand_padding = padding, cm_content = m \<rparr>)"
    using decrypt_sealed[OF laws c len, of "sc_receiver st"] by auto
  have "decrypt cr c old = Err CryptoError" if "sc_opt_old_receiver st = Some old" for old
    using decrypt_sealed[OF laws c len, of old] old[OF that] by auto
  then show ?thesis
    using laws d by (auto simp: decrypt_incoming_def try_decrypt_def sc_crypto_laws_def Let_def split: option.splits)
qed

lemma encrypt_outgoing_sealed:
  assumes "sc_crypto_laws cr"
  shows "\<exists>c r'. encrypt_outgoing cr content st r =
      (Ok (st \<lparr> sc_sender := next_nonce (sc_sender st) \<rparr>, c, r') :: ('e, _) result) \<and>
    sealed cr (en_key (sc_sender st)) (en_nonce (sc_sender st)) content c"
proof -
  obtain padding r' where pad: "gen_rand_padding r = (Ok (padding, r') :: ('e, _) result)"
    by (auto simp: gen_rand_padding_def assert_that_def MAX_RAND_PADDING_def case_prod_beta rng_fill_def Let_def)
  obtain raw where raw: "chacha_encrypt cr (en_key (sc_sender st)) (en_nonce (sc_sender st))
      (channel_message_serialize cr \<lparr> cm_rand_padding = padding, cm_content = content \<rparr>) = Some raw"
    using assms unfolding sc_crypto_laws_def by meson
  then show ?thesis
    using pad by (auto simp: encrypt_outgoing_def encrypt_def sealed_def)
qed

section \<open>Sending\<close>

lemma rekeys_append [simp]: "rekeys (xs @ ys) = rekeys xs @ rekeys ys"
  by (induction xs) (auto split: channel_content.splits)

lemma users_append [simp]: "users (xs @ ys) = users xs @ users ys"
  by (induction xs) (auto split: channel_content.splits)

lemma rekeys_Nil_iff [simp]: "rekeys ms = [] \<longleftrightarrow> list_all is_user ms"
  by (induction ms) (auto split: channel_content.splits)

lemma olds_ok_cong:
  "sc_receiver B' = sc_receiver B \<Longrightarrow> sc_opt_old_receiver B' = sc_opt_old_receiver B \<Longrightarrow>
     olds_ok cr B' cs ms = olds_ok cr B cs ms"
  by (simp add: olds_ok_def split: option.split)

text \<open>Sending changes the sender and the request that waits; the direction towards the sender does not see it.\<close>

lemma send_other_direction:
  assumes "sc_receiver A' = sc_receiver A" and "sc_opt_old_receiver A' = sc_opt_old_receiver A"
  shows "same_epoch cr B A q ms \<Longrightarrow> same_epoch cr B A' q ms"
    and "behind_sends cr B A q ms \<Longrightarrow> behind_sends cr B A' q ms"
    and "ahead_sends cr B A q ms \<Longrightarrow> sc_opt_pending_rekey A' = sc_opt_pending_rekey A \<Longrightarrow> ahead_sends cr B A' q ms"
  using assms by (simp_all add: same_epoch_def behind_sends_def ahead_sends_def olds_ok_cong[OF assms])

lemma same_epochI:
  assumes "olds_ok cr B olds msO" and "en_key (sc_sender A) = en_key (sc_receiver B)"
    and "sealed_stream cr (en_key (sc_receiver B)) (en_nonce (sc_receiver B)) news msN (en_nonce (sc_sender A))"
    and "rekeys msN = pending_rekeys cr A"
  shows "same_epoch cr A B (olds @ news) (msO @ msN)"
  using assms unfolding same_epoch_def by blast

lemma same_epoch_send:
  assumes "same_epoch cr A B q ms" and "sealed cr (en_key (sc_sender A)) (en_nonce (sc_sender A)) m c"
    and "sc_sender A' = next_nonce (sc_sender A)" and "pending_rekeys cr A' = pending_rekeys cr A @ rekeys [m]"
  shows "same_epoch cr A' B (q @ [c]) (ms @ [m])"
proof -
  obtain olds news msO msN where q: "q = olds @ news" "ms = msO @ msN" "olds_ok cr B olds msO"
    "en_key (sc_sender A) = en_key (sc_receiver B)" "rekeys msN = pending_rekeys cr A"
    and news: "sealed_stream cr (en_key (sc_receiver B)) (en_nonce (sc_receiver B)) news msN (en_nonce (sc_sender A))"
    using assms(1) by (auto simp: same_epoch_def)
  show ?thesis
    using same_epochI[OF q(3), of A' "news @ [c]" "msN @ [m]"] q assms(2-4) sealed_stream_snoc[OF news]
    by (simp add: next_nonce_def)
qed

lemma ahead_send:
  assumes "ahead_sends cr A B q ms" and "sealed cr (en_key (sc_sender A)) (en_nonce (sc_sender A)) m c"
    and "sc_sender A' = next_nonce (sc_sender A)" and "pending_rekeys cr A' = pending_rekeys cr A @ rekeys [m]"
    and "sc_receiver A' = sc_receiver A"
  shows "ahead_sends cr A' B (q @ [c]) (ms @ [m])"
proof -
  obtain pending rk olds mids news msO msM msN final where
    q: "sc_opt_pending_rekey B = Some pending" "q = olds @ mids @ news" "ms = msO @ msM @ msN" "olds_ok cr B olds msO"
      "sealed_stream cr (en_key (sc_receiver B)) (en_nonce (sc_receiver B)) mids msM final" "rekeys msM = [rk]"
      "derive_symmetric_key cr (pr_local_dh_private_key pending) (rk_dh_public_key rk) (pr_local_salt pending)
         (rk_key_salt rk) = Ok (en_key (sc_receiver A), en_key (sc_sender A))"
      "en_key (sc_sender A) \<noteq> en_key (sc_receiver B)" "rekeys msN = pending_rekeys cr A"
    and news: "sealed_stream cr (en_key (sc_sender A)) nonce_counter_new news msN (en_nonce (sc_sender A))"
    using assms(1) unfolding ahead_sends_def by blast
  show ?thesis
    unfolding ahead_sends_def
    using q assms(3-5) sealed_stream_snoc[OF news assms(2)]
    by (intro exI[of _ pending] exI[of _ rk] exI[of _ olds] exI[of _ mids] exI[of _ "news @ [c]"] exI[of _ msO]
        exI[of _ msM] exI[of _ "msN @ [m]"] exI[of _ final]) (simp add: next_nonce_def)
qed

lemma behind_send:
  assumes "behind_sends cr B A q ms" and "sealed cr (en_key (sc_sender B)) (en_nonce (sc_sender B)) m c"
    and "sc_sender B' = next_nonce (sc_sender B)" and "is_user m"
  shows "behind_sends cr B' A (q @ [c]) (ms @ [m])"
  using assms sealed_stream_snoc by (fastforce simp: behind_sends_def next_nonce_def)

text \<open>One message of the user, or the request for a key change when none is waiting.\<close>

lemma channel_inv_send:
  assumes inv: "channel_inv cr A B qab ab qba ba"
    and c: "sealed cr (en_key (sc_sender A)) (en_nonce (sc_sender A)) m c"
    and A': "sc_sender A' = next_nonce (sc_sender A)" "sc_receiver A' = sc_receiver A"
      "sc_opt_old_receiver A' = sc_opt_old_receiver A" "pending_rekeys cr A' = pending_rekeys cr A @ rekeys [m]"
    and pending: "is_user m \<and> sc_opt_pending_rekey A' = sc_opt_pending_rekey A \<or> sc_opt_pending_rekey A = None"
  shows "channel_inv cr A' B (qab @ [c]) (ab @ [m]) qba ba"
proof -
  note other = send_other_direction[OF A'(2,3)]
  consider "same_epoch cr A B qab ab" "same_epoch cr B A qba ba" | "ahead_sends cr A B qab ab" "behind_sends cr B A qba ba"
    | "ahead_sends cr B A qba ba" "behind_sends cr A B qab ab"
    using inv by (auto simp: channel_inv_def)
  then show ?thesis
  proof cases
    case 1
    then show ?thesis using same_epoch_send[OF 1(1) c A'(1,4)] other(1) by (simp add: channel_inv_def)
  next
    case 2
    then show ?thesis using ahead_send[OF 2(1) c A'(1,4,2)] other(2) by (simp add: channel_inv_def)
  next
    case 3
    then have "is_user m \<and> sc_opt_pending_rekey A' = sc_opt_pending_rekey A"
      using pending by (auto simp: ahead_sends_def)
    then show ?thesis using behind_send[OF 3(2) c A'(1)] other(3)[OF 3(1)] by (simp add: channel_inv_def)
  qed
qed

section \<open>Receiving\<close>

lemma olds_recv:
  assumes laws: "sc_crypto_laws cr" and olds: "olds_ok cr A (c # olds) ms"
  shows "\<exists>plain ms' old'. ms = ContentUser plain # ms' \<and>
    decrypt_incoming cr c A = Ok (A \<lparr> sc_opt_old_receiver := Some old' \<rparr>, ContentUser plain) \<and>
    olds_ok cr (A \<lparr> sc_opt_old_receiver := Some old' \<rparr>) olds ms'"
proof -
  obtain old m ms' final where old: "sc_opt_old_receiver A = Some old" "ms = m # ms'" "list_all is_user ms"
    "length (en_nonce old) = ENC_NONCE_LEN" "en_key old \<noteq> en_key (sc_receiver A)"
    "length (en_nonce (sc_receiver A)) = ENC_NONCE_LEN"
    "sealed cr (en_key old) (en_nonce old) m c"
    "sealed_stream cr (en_key old) (increase_nonce (en_nonce old)) olds ms' final"
    using olds by (auto simp: olds_ok_def split: option.splits)
  then obtain plain where "m = ContentUser plain" by (cases m) auto
  then show ?thesis
    using decrypt_incoming_old[OF laws old(7,4,1)] old
    by (intro exI[of _ plain] exI[of _ ms'] exI[of _ "next_nonce old"]) (auto simp: olds_ok_def next_nonce_def)
qed

lemma news_recv:
  assumes "sc_crypto_laws cr" and "olds_ok cr A [] []"
    and "sealed_stream cr (en_key (sc_receiver A)) (en_nonce (sc_receiver A)) (c # news) ms final"
  shows "\<exists>m ms'. ms = m # ms' \<and>
    decrypt_incoming cr c A =
      Ok (A \<lparr> sc_receiver := next_nonce (sc_receiver A), sc_opt_old_receiver := None \<rparr>, m) \<and>
    sealed_stream cr (en_key (sc_receiver A)) (increase_nonce (en_nonce (sc_receiver A))) news ms' final"
proof -
  obtain m ms' where m: "ms = m # ms'" "sealed cr (en_key (sc_receiver A)) (en_nonce (sc_receiver A)) m c"
    "sealed_stream cr (en_key (sc_receiver A)) (increase_nonce (en_nonce (sc_receiver A))) news ms' final"
    using assms(3) by auto
  have "length (en_nonce (sc_receiver A)) = ENC_NONCE_LEN"
    "\<And>old. sc_opt_old_receiver A = Some old \<Longrightarrow> en_key old \<noteq> en_key (sc_receiver A)"
    using assms(2) by (auto simp: olds_ok_def)
  from decrypt_incoming_new[OF assms(1) m(2) this] m(1,3) show ?thesis by simp
qed

text \<open>Decrypting changes the receivers only; the direction from this end does not see it.\<close>

lemma recv_other_direction:
  assumes "sc_sender A' = sc_sender A" and "sc_opt_pending_rekey A' = sc_opt_pending_rekey A"
  shows "same_epoch cr A B q ms \<Longrightarrow> same_epoch cr A' B q ms"
    and "behind_sends cr A B q ms \<Longrightarrow> behind_sends cr A' B q ms"
    and "ahead_sends cr A B q ms \<Longrightarrow> sc_receiver A' = sc_receiver A \<Longrightarrow> ahead_sends cr A' B q ms"
  using assms by (simp_all add: same_epoch_def behind_sends_def ahead_sends_def pending_rekeys_def)

lemma same_epoch_recv:
  assumes laws: "sc_crypto_laws cr" and epoch: "same_epoch cr B A (c # q) ms"
  shows "\<exists>m ms' A'. ms = m # ms' \<and> decrypt_incoming cr c A = Ok (A', m) \<and> sc_sender A' = sc_sender A \<and>
    sc_opt_pending_rekey A' = sc_opt_pending_rekey A \<and> en_key (sc_receiver A') = en_key (sc_receiver A) \<and>
    (is_user m \<and> same_epoch cr B A' q ms' \<or>
     (\<exists>rk. m = ContentRekey rk \<and> request_read cr B A' q ms' rk))"
proof -
  obtain olds news msO msN where q: "c # q = olds @ news" "ms = msO @ msN" and olds: "olds_ok cr A olds msO"
    and key: "en_key (sc_sender B) = en_key (sc_receiver A)" and rk: "rekeys msN = pending_rekeys cr B"
    and news: "sealed_stream cr (en_key (sc_receiver A)) (en_nonce (sc_receiver A)) news msN (en_nonce (sc_sender B))"
    using epoch by (auto simp: same_epoch_def)
  show ?thesis
  proof (cases olds)
    case (Cons c' olds')
    then have c: "c' = c" "q = olds' @ news" using q(1) by auto
    obtain plain ms' old' where o: "msO = ContentUser plain # ms'"
      "decrypt_incoming cr c A = Ok (A \<lparr> sc_opt_old_receiver := Some old' \<rparr>, ContentUser plain)"
      "olds_ok cr (A \<lparr> sc_opt_old_receiver := Some old' \<rparr>) olds' ms'"
      using olds_recv[OF laws, of A c olds' msO] olds Cons c by auto
    have "same_epoch cr B (A \<lparr> sc_opt_old_receiver := Some old' \<rparr>) q (ms' @ msN)"
      using same_epochI[OF o(3)] key rk news c(2) by simp
    then show ?thesis using o(1,2) q(2) by auto
  next
    case Nil
    then have c: "news = c # q" "msO = []" using q(1) olds by (auto simp: olds_ok_def split: option.splits)
    define A' where "A' = A \<lparr> sc_receiver := next_nonce (sc_receiver A), sc_opt_old_receiver := None \<rparr>"
    obtain m ms' where m: "msN = m # ms'" "decrypt_incoming cr c A = Ok (A', m)"
      "sealed_stream cr (en_key (sc_receiver A')) (en_nonce (sc_receiver A')) q ms' (en_nonce (sc_sender B))"
      using news_recv[OF laws, of A c q msN] olds news Nil c by (auto simp: A'_def next_nonce_def)
    have olds': "olds_ok cr A' [] []" using olds by (auto simp: olds_ok_def A'_def next_nonce_def)
    have "same_epoch cr B A' q ms'" if "is_user m"
      using same_epochI[OF olds' _ m(3)] m(1) key rk that by (cases m) (auto simp: A'_def next_nonce_def)
    moreover have "request_read cr B A' q ms' rk'" if "m = ContentRekey rk'" for rk'
      using rk m(1,3) key olds' that
      by (auto simp: request_read_def pending_rekeys_def olds_ok_def A'_def next_nonce_def split: option.splits)
    moreover have "sc_sender A' = sc_sender A" "sc_opt_pending_rekey A' = sc_opt_pending_rekey A"
      "en_key (sc_receiver A') = en_key (sc_receiver A)"
      by (simp_all add: A'_def next_nonce_def)
    ultimately show ?thesis
      using m(1,2) q(2) c(2) by (cases m) auto
  qed
qed

lemma behind_recv:
  assumes "sc_crypto_laws cr" and "behind_sends cr B A (c # q) ms"
  shows "\<exists>plain ms' old'. ms = ContentUser plain # ms' \<and>
    decrypt_incoming cr c A = Ok (A \<lparr> sc_opt_old_receiver := Some old' \<rparr>, ContentUser plain) \<and>
    behind_sends cr B (A \<lparr> sc_opt_old_receiver := Some old' \<rparr>) q ms'"
proof -
  obtain old m ms' where old: "sc_opt_old_receiver A = Some old" "length (en_nonce old) = ENC_NONCE_LEN"
    "ms = m # ms'" "sealed cr (en_key old) (en_nonce old) m c" and user: "is_user m"
    using assms(2) by (auto simp: behind_sends_def)
  obtain plain where "m = ContentUser plain" using user by (cases m) auto
  then show ?thesis
    using decrypt_incoming_old[OF assms(1) old(4,2,1)] old assms(2)
    by (intro exI[of _ plain] exI[of _ ms'] exI[of _ "next_nonce old"]) (auto simp: behind_sends_def next_nonce_def)
qed

lemma ahead_sendsI:
  assumes "sc_opt_pending_rekey B = Some pending" and "olds_ok cr B olds msO"
    and "sealed_stream cr (en_key (sc_receiver B)) (en_nonce (sc_receiver B)) mids msM final" and "rekeys msM = [rk]"
    and "derive_symmetric_key cr (pr_local_dh_private_key pending) (rk_dh_public_key rk) (pr_local_salt pending)
       (rk_key_salt rk) = Ok (en_key (sc_receiver A), en_key (sc_sender A))"
    and "en_key (sc_sender A) \<noteq> en_key (sc_receiver B)"
    and "sealed_stream cr (en_key (sc_sender A)) nonce_counter_new news msN (en_nonce (sc_sender A))"
    and "rekeys msN = pending_rekeys cr A"
  shows "ahead_sends cr A B (olds @ mids @ news) (msO @ msM @ msN)"
  using assms unfolding ahead_sends_def by blast

text \<open>
  The end that is behind reads a message of the user, or the answer it waits for; then the remaining
  messages under the previous key become the old ones.
\<close>

lemma ahead_recv:
  assumes laws: "sc_crypto_laws cr" and ahead: "ahead_sends cr B A (c # q) ms"
  shows "\<exists>m ms' A'. ms = m # ms' \<and> decrypt_incoming cr c A = Ok (A', m) \<and> sc_sender A' = sc_sender A \<and>
    sc_opt_pending_rekey A' = sc_opt_pending_rekey A \<and>
    (is_user m \<and> ahead_sends cr B A' q ms' \<or>
     (\<exists>rk. m = ContentRekey rk \<and> answer_read cr B A' q ms' rk))"
proof -
  obtain pending rk olds mids news msO msM msN final where
    q: "sc_opt_pending_rekey A = Some pending" "c # q = olds @ mids @ news" "ms = msO @ msM @ msN"
    and olds: "olds_ok cr A olds msO"
    and mids: "sealed_stream cr (en_key (sc_receiver A)) (en_nonce (sc_receiver A)) mids msM final" "rekeys msM = [rk]"
    and keys: "derive_symmetric_key cr (pr_local_dh_private_key pending) (rk_dh_public_key rk) (pr_local_salt pending)
         (rk_key_salt rk) = Ok (en_key (sc_receiver B), en_key (sc_sender B))"
      "en_key (sc_sender B) \<noteq> en_key (sc_receiver A)"
    and news: "sealed_stream cr (en_key (sc_sender B)) nonce_counter_new news msN (en_nonce (sc_sender B))"
      "rekeys msN = pending_rekeys cr B"
    using ahead unfolding ahead_sends_def by blast
  show ?thesis
  proof (cases olds)
    case (Cons c' olds')
    then have c: "c' = c" "q = olds' @ mids @ news" using q(2) by auto
    obtain plain ms' old' where o: "msO = ContentUser plain # ms'"
      "decrypt_incoming cr c A = Ok (A \<lparr> sc_opt_old_receiver := Some old' \<rparr>, ContentUser plain)"
      "olds_ok cr (A \<lparr> sc_opt_old_receiver := Some old' \<rparr>) olds' ms'"
      using olds_recv[OF laws, of A c olds' msO] olds Cons c by auto
    have "ahead_sends cr B (A \<lparr> sc_opt_old_receiver := Some old' \<rparr>) q (ms' @ msM @ msN)"
      using ahead_sendsI[OF _ o(3) _ mids(2) keys(1) _ news] q(1) mids(1) keys(2) c(2) by simp
    then show ?thesis using o(1,2) q(3) by auto
  next
    case Nil
    define A' where "A' = A \<lparr> sc_receiver := next_nonce (sc_receiver A), sc_opt_old_receiver := None \<rparr>"
    obtain mids' where c: "mids = c # mids'" "q = mids' @ news" "msO = []"
      using Nil q(2) olds mids by (cases mids) (auto simp: olds_ok_def split: option.splits)
    obtain m ms' where m: "msM = m # ms'" "decrypt_incoming cr c A = Ok (A', m)"
      "sealed_stream cr (en_key (sc_receiver A')) (en_nonce (sc_receiver A')) mids' ms' final"
      using news_recv[OF laws, of A c mids' msM] olds mids Nil c by (auto simp: A'_def next_nonce_def)
    have A': "sc_sender A' = sc_sender A" "sc_opt_pending_rekey A' = sc_opt_pending_rekey A"
      "en_key (sc_receiver A') = en_key (sc_receiver A)" "length (en_nonce (sc_receiver A')) = ENC_NONCE_LEN"
      "olds_ok cr A' [] []"
      using olds by (auto simp: olds_ok_def A'_def next_nonce_def)
    show ?thesis
    proof (cases m)
      case (ContentUser plain)
      then have "ahead_sends cr B A' q (ms' @ msN)"
        using ahead_sendsI[OF _ A'(5) m(3) _ keys(1) _ news] A' q(1) mids(2) m(1) keys(2) c(2) by simp
      then show ?thesis using ContentUser m(1,2) A' q(3) c(3) by auto
    next
      case (ContentRekey rk')
      then have "rk' = rk" "list_all is_user ms'" using mids(2) m(1) by auto
      then have "ms = ContentRekey rk # ms' @ msN" "decrypt_incoming cr c A = Ok (A', ContentRekey rk)"
        "list_all is_user ms'" "en_key (sc_sender B) \<noteq> en_key (sc_receiver A')"
        using ContentRekey m(1,2) q(3) c(3) A'(3) keys(2) by simp_all
      moreover from this have "answer_read cr B A' q (ms' @ msN) rk"
        unfolding answer_read_def A'(2) using m(3) A'(4) q(1) c(2) keys(1) news by blast
      ultimately show ?thesis using A'(1,2) by blast
    qed
  qed
qed

section \<open>Changing the keys\<close>

lemma derive_symmetric:
  assumes "sc_crypto_laws cr"
  shows "\<exists>send recv. derive_symmetric_key cr a (x25519_public cr b) salt_a salt_b = Ok (send, recv) \<and>
    derive_symmetric_key cr b (x25519_public cr a) salt_b salt_a = Ok (recv, send)"
proof -
  have "x25519_diffie_hellman cr a (x25519_public cr b) = x25519_diffie_hellman cr b (x25519_public cr a)"
    using assms by (simp add: sc_crypto_laws_def)
  moreover obtain send recv where
    "hkdf_expand cr salt_a (x25519_diffie_hellman cr b (x25519_public cr a)) = Some send"
    "hkdf_expand cr salt_b (x25519_diffie_hellman cr b (x25519_public cr a)) = Some recv"
    using assms unfolding sc_crypto_laws_def by (meson option.exhaust)
  ultimately show ?thesis by (simp add: derive_symmetric_key_def)
qed

lemma derive_from_pending:
  assumes "sc_crypto_laws cr" and "pending_rekeys cr B = [rk]"
  shows "\<exists>pending send recv. sc_opt_pending_rekey B = Some pending \<and>
    derive_symmetric_key cr a (rk_dh_public_key rk) salt_a (rk_key_salt rk) = Ok (send, recv) \<and>
    derive_symmetric_key cr (pr_local_dh_private_key pending) (x25519_public cr a) (pr_local_salt pending) salt_a
      = Ok (recv, send)"
  using assms derive_symmetric[OF assms(1)] by (auto simp: pending_rekeys_def split: option.splits)

text \<open>The request of the other end crosses one of our own.\<close>

lemma crossing_rekey:
  assumes laws: "sc_crypto_laws cr" and rk: "pending_rekeys cr B = [rk]" and p: "sc_opt_pending_rekey A = Some p"
  shows "\<exists>A'. handle_incoming_rekey cr rk A r = Ok (A', \<lparr> hio_rekey_occurred = True, hio_opt_send_message = None,
      hio_opt_incoming_message = None \<rparr>, r) \<and>
    moved_keys cr B A A' \<lparr> rk_dh_public_key = x25519_public cr (pr_local_dh_private_key p), rk_key_salt = pr_local_salt p \<rparr>"
proof -
  obtain pB send recv where "sc_opt_pending_rekey B = Some pB"
    "derive_symmetric_key cr (pr_local_dh_private_key p) (rk_dh_public_key rk) (pr_local_salt p) (rk_key_salt rk) = Ok (send, recv)"
    "derive_symmetric_key cr (pr_local_dh_private_key pB) (x25519_public cr (pr_local_dh_private_key p)) (pr_local_salt pB)
       (pr_local_salt p) = Ok (recv, send)"
    using derive_from_pending[OF laws rk] by blast
  then show ?thesis using p by (simp add: handle_incoming_rekey_def moved_keys_def encryptor_new_def)
qed

text \<open>The request of the other end is answered.\<close>

lemma answered_rekey:
  assumes laws: "sc_crypto_laws cr" and rk: "pending_rekeys cr B = [rk]" and p: "sc_opt_pending_rekey A = None"
  shows "\<exists>A' c r' rk'. handle_incoming_rekey cr rk A r = Ok (A', \<lparr> hio_rekey_occurred = True, hio_opt_send_message = Some c,
      hio_opt_incoming_message = None \<rparr>, r') \<and>
    sealed cr (en_key (sc_sender A)) (en_nonce (sc_sender A)) (ContentRekey rk') c \<and> moved_keys cr B A A' rk'"
proof -
  obtain a r0 where a: "x25519_new_secret cr r = (a, r0)" by fastforce
  obtain salt r1 where salt: "rand_gen r0 = (salt :: salt, r1)" by fastforce
  obtain pB send recv where pB: "sc_opt_pending_rekey B = Some pB"
    "derive_symmetric_key cr a (rk_dh_public_key rk) salt (rk_key_salt rk) = Ok (send, recv)"
    "derive_symmetric_key cr (pr_local_dh_private_key pB) (x25519_public cr a) (pr_local_salt pB) salt = Ok (recv, send)"
    using derive_from_pending[OF laws rk] by blast
  define A1 where "A1 = A \<lparr> sc_opt_old_receiver := Some (sc_receiver A), sc_receiver := encryptor_new recv \<rparr>"
  define rk1 where "rk1 = \<lparr> rk_dh_public_key = x25519_public cr a, rk_key_salt = salt \<rparr>"
  obtain c r' where c: "encrypt_outgoing cr (ContentRekey rk1) A1 r1 =
      (Ok (A1 \<lparr> sc_sender := next_nonce (sc_sender A1) \<rparr>, c, r') :: (sc_state_error, _) result)"
    and sealed: "sealed cr (en_key (sc_sender A)) (en_nonce (sc_sender A)) (ContentRekey rk1) c"
    using encrypt_outgoing_sealed[OF laws, of "ContentRekey rk1" A1 r1] by (auto simp: A1_def)
  have "handle_incoming_rekey cr rk A r = Ok (A1 \<lparr> sc_sender := encryptor_new send \<rparr>,
      \<lparr> hio_rekey_occurred = True, hio_opt_send_message = Some c, hio_opt_incoming_message = None \<rparr>, r')"
    using p pB(2) c by (simp add: handle_incoming_rekey_def a salt A1_def rk1_def)
  moreover have "moved_keys cr B A (A1 \<lparr> sc_sender := encryptor_new send \<rparr>) rk1"
    using pB(1,3) p by (simp add: moved_keys_def A1_def rk1_def encryptor_new_def)
  ultimately show ?thesis using sealed by blast
qed

lemma moved_ahead:
  assumes keys: "moved_keys cr B A' A'' rk" and fresh: "fresh_keys A A''"
    and A': "en_key (sc_receiver A') = en_key (sc_receiver A)"
    and epoch: "olds_ok cr B olds msO" "en_key (sc_sender A) = en_key (sc_receiver B)" "rekeys msM = [rk]"
      "sealed_stream cr (en_key (sc_receiver B)) (en_nonce (sc_receiver B)) mids msM final"
  shows "ahead_sends cr A'' B (olds @ mids) (msO @ msM)"
proof -
  obtain pending where p: "sc_opt_pending_rekey B = Some pending"
    "derive_symmetric_key cr (pr_local_dh_private_key pending) (rk_dh_public_key rk) (pr_local_salt pending)
       (rk_key_salt rk) = Ok (en_key (sc_receiver A''), en_key (sc_sender A''))"
    using keys unfolding moved_keys_def by blast
  have "en_key (sc_sender A'') \<noteq> en_key (sc_receiver B)"
    using keys fresh A' epoch(2) by (auto simp: moved_keys_def fresh_keys_def)
  then show ?thesis
    using ahead_sendsI[OF p(1) epoch(1,4,3) p(2), of "[]" "[]"] keys by (simp add: moved_keys_def pending_rekeys_def)
qed

text \<open>The end that gets the request while both are at the same keys moves ahead.\<close>

lemma move_ahead:
  assumes laws: "sc_crypto_laws cr" and epoch: "same_epoch cr A B qab ab" and rk: "pending_rekeys cr B = [rk]"
    and A': "sc_sender A' = sc_sender A" "sc_opt_pending_rekey A' = sc_opt_pending_rekey A"
      "en_key (sc_receiver A') = en_key (sc_receiver A)"
  shows "\<exists>A'' out r' ab' rk'. handle_incoming_rekey cr rk A' r = Ok (A'', out, r') \<and>
    hio_opt_incoming_message out = None \<and> users ab' = users ab \<and> moved_keys cr B A' A'' rk' \<and>
    (fresh_keys A A'' \<longrightarrow>
      ahead_sends cr A'' B (qab @ (case hio_opt_send_message out of Some m \<Rightarrow> [m] | None \<Rightarrow> [])) ab')"
proof -
  obtain olds news msO msN where q: "qab = olds @ news" "ab = msO @ msN" "olds_ok cr B olds msO"
    "en_key (sc_sender A) = en_key (sc_receiver B)" "rekeys msN = pending_rekeys cr A"
    and news: "sealed_stream cr (en_key (sc_receiver B)) (en_nonce (sc_receiver B)) news msN (en_nonce (sc_sender A))"
    using epoch by (auto simp: same_epoch_def)
  show ?thesis
  proof (cases "sc_opt_pending_rekey A")
    case (Some p)
    then have "rekeys msN = [\<lparr> rk_dh_public_key = x25519_public cr (pr_local_dh_private_key p), rk_key_salt = pr_local_salt p \<rparr>]"
      using q(5) by (simp add: pending_rekeys_def)
    moreover obtain A'' where "handle_incoming_rekey cr rk A' r = Ok (A'', \<lparr> hio_rekey_occurred = True,
        hio_opt_send_message = None, hio_opt_incoming_message = None \<rparr>, r)"
      "moved_keys cr B A' A'' \<lparr> rk_dh_public_key = x25519_public cr (pr_local_dh_private_key p), rk_key_salt = pr_local_salt p \<rparr>"
      using crossing_rekey[OF laws rk] Some A'(2) by metis
    ultimately show ?thesis
      using moved_ahead[OF _ _ A'(3) q(3,4) _ news] q(1,2)
      by (intro exI[of _ A''] exI[of _ "\<lparr> hio_rekey_occurred = True, hio_opt_send_message = None,
        hio_opt_incoming_message = None \<rparr>"] exI[of _ r] exI[of _ ab] exI) auto
  next
    case None
    obtain A'' c r' rk' where h: "handle_incoming_rekey cr rk A' r = Ok (A'', \<lparr> hio_rekey_occurred = True,
        hio_opt_send_message = Some c, hio_opt_incoming_message = None \<rparr>, r')"
      "sealed cr (en_key (sc_sender A)) (en_nonce (sc_sender A)) (ContentRekey rk') c" "moved_keys cr B A' A'' rk'"
      using answered_rekey[OF laws rk, of A' r] None A'(1,2) by auto
    have "sealed_stream cr (en_key (sc_receiver B)) (en_nonce (sc_receiver B)) (news @ [c]) (msN @ [ContentRekey rk'])
        (increase_nonce (en_nonce (sc_sender A)))"
      using sealed_stream_snoc[OF news] h(2) q(4) by simp
    moreover have "rekeys (msN @ [ContentRekey rk']) = [rk']" "users (msO @ msN @ [ContentRekey rk']) = users ab"
      using None q(2,5) by (simp_all add: pending_rekeys_def)
    ultimately show ?thesis
      using h(1,3) moved_ahead[OF h(3) _ A'(3) q(3,4)] q(1)
      by (intro exI[of _ A''] exI[of _ "\<lparr> hio_rekey_occurred = True, hio_opt_send_message = Some c,
        hio_opt_incoming_message = None \<rparr>"] exI[of _ r'] exI[of _ "msO @ msN @ [ContentRekey rk']"] exI[of _ rk']) simp
  qed
qed

text \<open>The end that is behind gets the answer and catches up.\<close>

lemma catch_up:
  assumes behind: "behind_sends cr A B qab ab" and answer: "answer_read cr B A qba ba rk"
  shows "\<exists>A'. handle_incoming_rekey cr rk A r = Ok (A', \<lparr> hio_rekey_occurred = True, hio_opt_send_message = None,
      hio_opt_incoming_message = None \<rparr>, r) \<and>
    same_epoch cr A' B qab ab \<and> same_epoch cr B A' qba ba"
proof -
  obtain pending mids news msM msN final where pending: "sc_opt_pending_rekey A = Some pending"
    and q: "qba = mids @ news" "ba = msM @ msN"
    and olds: "list_all is_user msM" "length (en_nonce (sc_receiver A)) = ENC_NONCE_LEN"
      "en_key (sc_sender B) \<noteq> en_key (sc_receiver A)"
      "sealed_stream cr (en_key (sc_receiver A)) (en_nonce (sc_receiver A)) mids msM final"
    and keys: "derive_symmetric_key cr (pr_local_dh_private_key pending) (rk_dh_public_key rk) (pr_local_salt pending)
          (rk_key_salt rk) = Ok (en_key (sc_receiver B), en_key (sc_sender B))"
    and news: "sealed_stream cr (en_key (sc_sender B)) nonce_counter_new news msN (en_nonce (sc_sender B))"
      "rekeys msN = pending_rekeys cr B"
    using answer unfolding answer_read_def by (elim exE conjE) (rule that)
  define A' where "A' = A \<lparr> sc_opt_pending_rekey := None, sc_sender := encryptor_new (en_key (sc_receiver B)),
    sc_opt_old_receiver := Some (sc_receiver A), sc_receiver := encryptor_new (en_key (sc_sender B)) \<rparr>"
  have "handle_incoming_rekey cr rk A r = Ok (A', \<lparr> hio_rekey_occurred = True, hio_opt_send_message = None,
      hio_opt_incoming_message = None \<rparr>, r)"
    using keys pending by (simp add: handle_incoming_rekey_def A'_def)
  moreover have "olds_ok cr A' mids msM"
    using olds by (auto simp: olds_ok_def A'_def encryptor_new_def)
  then have "same_epoch cr B A' qba ba"
    unfolding q by (rule same_epochI) (use news in \<open>simp_all add: A'_def encryptor_new_def\<close>)
  moreover have "olds_ok cr B qab ab" "en_nonce (sc_receiver B) = nonce_counter_new"
    using behind by (auto simp: behind_sends_def olds_ok_def)
  then have "same_epoch cr A' B qab ab"
    using same_epochI[of cr B qab ab A' "[]" "[]"] by (simp add: A'_def encryptor_new_def pending_rekeys_def)
  ultimately show ?thesis by blast
qed

lemma recv_user:
  assumes "decrypt_incoming cr c A = Ok (A', m)" and "is_user m" and "channel_inv cr A' B qab ab qba ba"
  shows "recv_ok cr A B qab ab c qba (m # ba) r"
proof -
  obtain plain where m: "m = ContentUser plain" using assms(2) by (cases m) auto
  have "handle_incoming cr c A r = Ok (A', \<lparr> hio_rekey_occurred = False, hio_opt_send_message = None,
      hio_opt_incoming_message = Some plain \<rparr>, r)"
    using assms(1) m by (simp add: handle_incoming_def)
  then show ?thesis
    unfolding recv_ok_def using assms(3) m by fastforce
qed

lemma recv_answer:
  assumes "decrypt_incoming cr c A = Ok (A', ContentRekey rk)"
    and "\<exists>A''. handle_incoming_rekey cr rk A' r = Ok (A'', \<lparr> hio_rekey_occurred = True, hio_opt_send_message = None,
      hio_opt_incoming_message = None \<rparr>, r) \<and> same_epoch cr A'' B qab ab \<and> same_epoch cr B A'' qba ba"
  shows "recv_ok cr A B qab ab c qba (ContentRekey rk # ba) r"
proof -
  obtain A'' where "handle_incoming cr c A r = Ok (A'', \<lparr> hio_rekey_occurred = True, hio_opt_send_message = None,
      hio_opt_incoming_message = None \<rparr>, r)" "channel_inv cr A'' B qab ab qba ba"
    using assms by (auto simp: handle_incoming_def channel_inv_def)
  then show ?thesis
    unfolding recv_ok_def by fastforce
qed

lemma recv_request:
  assumes laws: "sc_crypto_laws cr" and epoch: "same_epoch cr A B qab ab" and rk: "request_read cr B A' qba ba rk"
    and A': "decrypt_incoming cr c A = Ok (A', ContentRekey rk)" "sc_sender A' = sc_sender A"
      "sc_opt_pending_rekey A' = sc_opt_pending_rekey A" "en_key (sc_receiver A') = en_key (sc_receiver A)"
  shows "recv_ok cr A B qab ab c qba (ContentRekey rk # ba) r"
proof -
  have "pending_rekeys cr B = [rk]" using rk by (simp add: request_read_def)
  then obtain A'' out r' ab' rk' where h: "handle_incoming_rekey cr rk A' r = Ok (A'', out, r')"
    "hio_opt_incoming_message out = None" "users ab' = users ab" "moved_keys cr B A' A'' rk'"
    and ahead: "fresh_keys A A'' \<longrightarrow>
      ahead_sends cr A'' B (qab @ (case hio_opt_send_message out of Some m \<Rightarrow> [m] | None \<Rightarrow> [])) ab'"
    using move_ahead[OF laws epoch _ A'(2-4), of rk r] by blast
  have "behind_sends cr B A'' qba ba" if "fresh_keys A A''"
    using rk h(4) that by (auto simp: behind_sends_def moved_keys_def fresh_keys_def request_read_def)
  then have "fresh_keys A A'' \<longrightarrow>
      channel_inv cr A'' B (qab @ (case hio_opt_send_message out of Some m \<Rightarrow> [m] | None \<Rightarrow> [])) ab' qba ba"
    using ahead by (simp add: channel_inv_def)
  moreover have "handle_incoming cr c A r = Ok (A'', out, r')"
    using A'(1) h(1) by (simp add: handle_incoming_def)
  ultimately show ?thesis
    unfolding recv_ok_def using h(2,3)
    by (intro exI[of _ "ContentRekey rk"] exI[of _ ba] exI[of _ A''] exI[of _ out] exI[of _ r'] exI[of _ ab']) simp
qed

lemma channel_inv_recv:
  assumes laws: "sc_crypto_laws cr" and inv: "channel_inv cr A B qab ab (c # qba) ba"
  shows "recv_ok cr A B qab ab c qba ba r"
proof -
  consider "same_epoch cr A B qab ab" "same_epoch cr B A (c # qba) ba"
    | "ahead_sends cr A B qab ab" "behind_sends cr B A (c # qba) ba"
    | "ahead_sends cr B A (c # qba) ba" "behind_sends cr A B qab ab"
    using inv by (auto simp: channel_inv_def)
  then show ?thesis
  proof cases
    case 1
    obtain m ba' A' where m: "ba = m # ba'" "decrypt_incoming cr c A = Ok (A', m)" "sc_sender A' = sc_sender A"
      "sc_opt_pending_rekey A' = sc_opt_pending_rekey A" "en_key (sc_receiver A') = en_key (sc_receiver A)"
      and cases: "is_user m \<and> same_epoch cr B A' qba ba' \<or>
        (\<exists>rk. m = ContentRekey rk \<and> request_read cr B A' qba ba' rk)"
      using same_epoch_recv[OF laws 1(2)] by blast
    have "recv_ok cr A B qab ab c qba (m # ba') r" if "is_user m" "same_epoch cr B A' qba ba'"
      using recv_user[OF m(2) that(1)] recv_other_direction(1)[OF m(3,4) 1(1)] that(2) by (simp add: channel_inv_def)
    then show ?thesis
      using cases m recv_request[OF laws 1(1)] by blast
  next
    case 2
    obtain plain ba' old' where m: "ba = ContentUser plain # ba'"
      "decrypt_incoming cr c A = Ok (A \<lparr> sc_opt_old_receiver := Some old' \<rparr>, ContentUser plain)"
      "behind_sends cr B (A \<lparr> sc_opt_old_receiver := Some old' \<rparr>) qba ba'"
      using behind_recv[OF laws 2(2)] by blast
    then show ?thesis
      using recv_user[OF m(2)] recv_other_direction(3)[OF _ _ 2(1)] by (simp add: channel_inv_def)
  next
    case 3
    obtain m ba' A' where m: "ba = m # ba'" "decrypt_incoming cr c A = Ok (A', m)" "sc_sender A' = sc_sender A"
      "sc_opt_pending_rekey A' = sc_opt_pending_rekey A"
      and cases: "is_user m \<and> ahead_sends cr B A' qba ba' \<or>
        (\<exists>rk. m = ContentRekey rk \<and> answer_read cr B A' qba ba' rk)"
      using ahead_recv[OF laws 3(1)] by blast
    note behind = recv_other_direction(2)[OF m(3,4) 3(2)]
    have "recv_ok cr A B qab ab c qba (m # ba') r" if "is_user m" "ahead_sends cr B A' qba ba'"
      using recv_user[OF m(2) that(1)] behind that(2) by (simp add: channel_inv_def)
    moreover have "recv_ok cr A B qab ab c qba (m # ba') r"
      if rk: "m = ContentRekey rk" "answer_read cr B A' qba ba' rk" for rk
      using catch_up[OF behind rk(2), of r] m(2) rk(1) recv_answer[of cr c A A' rk r B qab ab qba ba'] by blast
    ultimately show ?thesis using cases m(1) by blast
  qed
qed

section \<open>The whole system\<close>

lemma system_invI:
  "channel_inv cr (ep_state (sys_a s)) (ep_state (sys_b s)) (queue_ab s) ab (queue_ba s) ba \<Longrightarrow>
     sent_a s = got_b s @ users ab \<Longrightarrow> sent_b s = got_a s @ users ba \<Longrightarrow> system_inv cr s"
  by (auto simp: system_inv_def)

text \<open>Encrypting a message, after the request for a key change has been noted, keeps the invariant.\<close>

lemma channel_inv_encrypt:
  assumes laws: "sc_crypto_laws cr" and inv: "channel_inv cr A B qab ab qba ba"
    and sends: "encrypt_outgoing cr m A1 r = (Ok (A', c, r') :: ('e, _) result)"
    and A1: "sc_sender A1 = sc_sender A" "sc_receiver A1 = sc_receiver A" "sc_opt_old_receiver A1 = sc_opt_old_receiver A"
      "pending_rekeys cr A1 = pending_rekeys cr A @ rekeys [m]"
      "is_user m \<and> sc_opt_pending_rekey A1 = sc_opt_pending_rekey A \<or> sc_opt_pending_rekey A = None"
  shows "channel_inv cr A' B (qab @ [c]) (ab @ [m]) qba ba"
proof -
  obtain c0 r0 where c0: "encrypt_outgoing cr m A1 r =
      (Ok (A1 \<lparr> sc_sender := next_nonce (sc_sender A1) \<rparr>, c0, r0) :: ('e, _) result)"
    "sealed cr (en_key (sc_sender A1)) (en_nonce (sc_sender A1)) m c0"
    using encrypt_outgoing_sealed[OF laws] by blast
  then have "c0 = c" "A' = A1 \<lparr> sc_sender := next_nonce (sc_sender A1) \<rparr>" using sends by auto
  then show ?thesis
    using channel_inv_send[OF inv, of m c A'] c0(2) A1 by (simp add: pending_rekeys_def)
qed

lemma tick_inv:
  assumes laws: "sc_crypto_laws cr" and inv: "channel_inv cr (ep_state ep) B qab ab qba ba"
    and tick: "secure_channel_step cr ticks SC_TimerTick ep = Ok (ep', ws, us)"
  shows "\<exists>ab'. channel_inv cr (ep_state ep') B (qab @ ws) ab' qba ba \<and> users ab' = users ab"
proof (cases "ep_cur_ticks_to_rekey ep \<noteq> 0 \<or> sc_opt_pending_rekey (ep_state ep) \<noteq> None")
  case True
  then have "ep_state ep' = ep_state ep" "ws = []"
    using tick by (auto simp: create_rekey_def fail_if_def split: if_splits)
  then show ?thesis using inv by auto
next
  case False
  obtain a r0 where a: "x25519_new_secret cr (ep_rng ep) = (a, r0)" by fastforce
  obtain salt r1 where salt: "rand_gen r0 = (salt :: salt, r1)" by fastforce
  define A1 where "A1 = ep_state ep \<lparr> sc_opt_pending_rekey := Some \<lparr> pr_local_dh_private_key = a, pr_local_salt = salt \<rparr> \<rparr>"
  define m where "m = ContentRekey \<lparr> rk_dh_public_key = x25519_public cr a, rk_key_salt = salt \<rparr>"
  obtain A' c r' where c: "encrypt_outgoing cr m A1 r1 = (Ok (A', c, r') :: (sc_state_error, _) result)"
    using encrypt_outgoing_sealed[OF laws] by blast
  have "create_rekey cr (ep_state ep) (ep_rng ep) = Ok (A', c, r')"
    using False c by (simp add: create_rekey_def fail_if_def a salt A1_def m_def)
  then have "ep_state ep' = A'" "ws = [c]" using tick False by auto
  moreover have "channel_inv cr A' B (qab @ [c]) (ab @ [m]) qba ba"
    using False by (intro channel_inv_encrypt[OF laws inv c]) (auto simp: A1_def m_def pending_rekeys_def)
  ultimately show ?thesis by (intro exI[of _ "ab @ [m]"]) (simp add: m_def)
qed

lemma reader_inv:
  assumes laws: "sc_crypto_laws cr" and inv: "channel_inv cr (ep_state ep) B qab ab (c # qba) ba"
  shows "\<exists>m ba' ab' ep' ws us. secure_channel_step cr ticks (SC_Reader c) ep = Ok (ep', ws, us) \<and> ba = m # ba' \<and>
    us = users [m] \<and> users ab' = users ab \<and>
    (fresh_keys (ep_state ep) (ep_state ep') \<longrightarrow> channel_inv cr (ep_state ep') B (qab @ ws) ab' qba ba')"
proof -
  obtain m ba' A' out r' ab' where "ba = m # ba'"
    "handle_incoming cr c (ep_state ep) (ep_rng ep) = Ok (A', out, r')"
    "(case hio_opt_incoming_message out of Some x \<Rightarrow> [x] | None \<Rightarrow> []) = users [m]" "users ab' = users ab"
    "fresh_keys (ep_state ep) A' \<longrightarrow>
       channel_inv cr A' B (qab @ (case hio_opt_send_message out of Some x \<Rightarrow> [x] | None \<Rightarrow> [])) ab' qba ba'"
    using channel_inv_recv[OF laws inv, of "ep_rng ep"] unfolding recv_ok_def by (elim exE conjE) (rule that)
  then show ?thesis
    by (intro exI[of _ m] exI[of _ ba'] exI[of _ ab']) simp
qed

lemma a_step_inv:
  assumes laws: "sc_crypto_laws cr" and step: "a_step cr ticks s s'" and inv: "system_inv cr s"
  shows "system_inv cr s'"
proof -
  obtain ab ba where inv: "channel_inv cr (ep_state (sys_a s)) (ep_state (sys_b s)) (queue_ab s) ab (queue_ba s) ba"
    and sent: "sent_a s = got_b s @ users ab" "sent_b s = got_a s @ users ba"
    using inv by (auto simp: system_inv_def)
  from step show ?thesis
  proof cases
    case (a_user d ep ws us)
    obtain A' c r' where c: "encrypt_outgoing cr (ContentUser d) (ep_state (sys_a s)) (ep_rng (sys_a s)) =
        (Ok (A', c, r') :: (secure_channel_error, _) result)"
      using encrypt_outgoing_sealed[OF laws] by blast
    then have ep: "ep_state ep = A'" "ws = [c]" using a_user(2) by (auto simp: create_outgoing_def)
    show ?thesis
      by (rule system_invI[where ab = "ab @ [ContentUser d]" and ba = ba])
        (use a_user(1) ep sent channel_inv_encrypt[OF laws inv c] in simp_all)
  next
    case (a_tick ep ws us)
    then obtain ab' where "channel_inv cr (ep_state ep) (ep_state (sys_b s)) (queue_ab s @ ws) ab' (queue_ba s) ba"
      "users ab' = users ab"
      using tick_inv[OF laws inv] by blast
    then show ?thesis
      using a_tick(1) sent by (intro system_invI[where ab = ab' and ba = ba]) simp_all
  next
    case (a_reader c q ep ws us)
    obtain m ba' ab' where "ba = m # ba'" "us = users [m]" "users ab' = users ab"
      "channel_inv cr (ep_state ep) (ep_state (sys_b s)) (queue_ab s @ ws) ab' q ba'"
      using reader_inv[OF laws inv[unfolded a_reader(2)], of ticks] a_reader(3,4) by auto
    then show ?thesis
      using a_reader(1) sent users_append[of "[m]" ba'] by (intro system_invI[where ab = ab' and ba = ba']) auto
  qed
qed

lemma system_inv_swap [simp]: "system_inv cr (swap_ends s) = system_inv cr s"
  by (auto simp: system_inv_def swap_ends_def channel_inv_def)

lemma system_step_inv: "sc_crypto_laws cr \<Longrightarrow> sc_system_step cr ticks s s' \<Longrightarrow> system_inv cr s \<Longrightarrow> system_inv cr s'"
  using a_step_inv[of cr ticks "swap_ends s" "swap_ends s'"] a_step_inv[of cr ticks s s']
  by (auto simp: sc_system_step_def)

lemma system_steps_inv:
  assumes "sc_crypto_laws cr" and "(sc_system_step cr ticks)\<^sup>*\<^sup>* s s'" and "system_inv cr s"
  shows "system_inv cr s'"
  using assms(2,3) by (induction rule: rtranclp_induct) (use system_step_inv[OF assms(1)] in blast)+

text \<open>What the invariant says about the direction to \<open>B\<close>: nothing is lost, and the next message can be read.\<close>

lemma channel_inv_empty: "channel_inv cr A B [] ab qba ba \<Longrightarrow> ab = []"
  by (auto simp: channel_inv_def same_epoch_def ahead_sends_def behind_sends_def olds_ok_def split: option.splits)

lemma system_inv_delivers:
  assumes "sc_crypto_laws cr" and "system_inv cr s"
  shows "delivers_to_b cr ticks s"
proof -
  obtain ab ba where inv: "channel_inv cr (ep_state (sys_a s)) (ep_state (sys_b s)) (queue_ab s) ab (queue_ba s) ba"
    and sent: "sent_a s = got_b s @ users ab"
    using assms(2) by (auto simp: system_inv_def)
  have swapped: "channel_inv cr (ep_state (sys_b s)) (ep_state (sys_a s)) (queue_ba s) ba (queue_ab s) ab"
    using inv by (auto simp: channel_inv_def)
  show ?thesis
  proof (cases "queue_ab s")
    case Nil
    then show ?thesis using channel_inv_empty inv sent by (fastforce simp: delivers_to_b_def)
  next
    case (Cons c q)
    then show ?thesis
      using reader_inv[OF assms(1) swapped[unfolded Cons], of ticks] sent by (auto simp: delivers_to_b_def)
  qed
qed

text \<open>The exchange at the start gives the two ends the same keys.\<close>

lemma initial_exchange_keys:
  assumes "initial_exchange env cr sign pk opt r ern' ed' = Ok (st, ern, ed)"
  shows "\<exists>a send recv. ed_dh_public_key ed = x25519_public cr a \<and>
    derive_symmetric_key cr a (ed_dh_public_key ed') (ed_key_salt ed) (ed_key_salt ed') = Ok (send, recv) \<and>
    sc_sender st = encryptor_new send \<and> sc_receiver st = encryptor_new recv \<and>
    sc_opt_old_receiver st = None \<and> sc_opt_pending_rekey st = None"
  using assms
  by (auto simp: initial_exchange_def handle_exchange_rand_nonce_def handle_exchange_dh_def Let_def case_prod_beta rust_simps)

lemma initial_exchange_inv:
  assumes laws: "sc_crypto_laws cr"
    and a: "initial_exchange env_a cr sign_a pk_a opt_a r_a ern_b ed_b = Ok (st_a, ern_a, ed_a)"
    and b: "initial_exchange env_b cr sign_b pk_b opt_b r_b ern_a ed_a = Ok (st_b, ern_b, ed_b)"
  shows "channel_inv cr st_a st_b [] [] [] []"
proof -
  obtain a send_a recv_a where a: "ed_dh_public_key ed_a = x25519_public cr a"
    "derive_symmetric_key cr a (ed_dh_public_key ed_b) (ed_key_salt ed_a) (ed_key_salt ed_b) = Ok (send_a, recv_a)"
    "sc_sender st_a = encryptor_new send_a" "sc_receiver st_a = encryptor_new recv_a"
    "sc_opt_old_receiver st_a = None" "sc_opt_pending_rekey st_a = None"
    using initial_exchange_keys[OF a] by blast
  obtain b send_b recv_b where b: "ed_dh_public_key ed_b = x25519_public cr b"
    "derive_symmetric_key cr b (ed_dh_public_key ed_a) (ed_key_salt ed_b) (ed_key_salt ed_a) = Ok (send_b, recv_b)"
    "sc_sender st_b = encryptor_new send_b" "sc_receiver st_b = encryptor_new recv_b"
    "sc_opt_old_receiver st_b = None" "sc_opt_pending_rekey st_b = None"
    using initial_exchange_keys[OF b] by blast
  have keys: "send_b = recv_a" "recv_b = send_a"
    using derive_symmetric[OF laws, of a b "ed_key_salt ed_a" "ed_key_salt ed_b"] a(1,2) b(1,2) by auto
  have "same_epoch cr st_a st_b [] []" "same_epoch cr st_b st_a [] []"
    using same_epochI[of cr st_b "[]" "[]" st_a "[]" "[]"] same_epochI[of cr st_a "[]" "[]" st_b "[]" "[]"] a b keys
    by (simp_all add: olds_ok_def encryptor_new_def pending_rekeys_def)
  then show ?thesis by (simp add: channel_inv_def)
qed

end
