(* ===== verification/Sc_Delivery.thy ===== *)
theory Sc_Delivery
  imports Sc_Protocol
begin

text \<open>
  The two ends of a secure channel deliver what is sent. A concrete key agreement and cipher show that
  the assumptions can hold, and a run of the two ends with a key change shows that the system moves.
\<close>

section \<open>Runs that compute\<close>

datatype sc_move =
    A_Move secure_channel_event
  | B_Move secure_channel_event

fun a_move :: "'k sc_crypto \<Rightarrow> nat \<Rightarrow> secure_channel_event \<Rightarrow> 'k sc_system \<Rightarrow> 'k sc_system option" where
  "a_move cr ticks (SC_User d) s =
     (case secure_channel_step cr ticks (SC_User d) (sys_a s) of
        Ok (ep, ws, us) \<Rightarrow> Some (s \<lparr> sys_a := ep, queue_ab := queue_ab s @ ws, sent_a := sent_a s @ [d] \<rparr>)
      | _ \<Rightarrow> None)"
| "a_move cr ticks SC_TimerTick s =
     (case secure_channel_step cr ticks SC_TimerTick (sys_a s) of
        Ok (ep, ws, us) \<Rightarrow> Some (s \<lparr> sys_a := ep, queue_ab := queue_ab s @ ws \<rparr>)
      | _ \<Rightarrow> None)"
| "a_move cr ticks (SC_Reader c) s =
     (case queue_ba s of
        c' # q \<Rightarrow>
          (case secure_channel_step cr ticks (SC_Reader c') (sys_a s) of
             Ok (ep, ws, us) \<Rightarrow>
               if fresh_keys (ep_state (sys_a s)) (ep_state ep)
               then Some (s \<lparr> sys_a := ep, queue_ba := q, queue_ab := queue_ab s @ ws, got_a := got_a s @ us \<rparr>)
               else None
           | _ \<Rightarrow> None)
      | [] \<Rightarrow> None)"
| "a_move cr ticks SC_ReceiverClosed s = None"

fun sc_run :: "'k sc_crypto \<Rightarrow> nat \<Rightarrow> sc_move list \<Rightarrow> 'k sc_system \<Rightarrow> 'k sc_system option" where
  "sc_run cr ticks [] s = Some s"
| "sc_run cr ticks (A_Move ev # moves) s = Option.bind (a_move cr ticks ev s) (sc_run cr ticks moves)"
| "sc_run cr ticks (B_Move ev # moves) s =
     Option.bind (a_move cr ticks ev (swap_ends s)) (\<lambda>s. sc_run cr ticks moves (swap_ends s))"

section \<open>A concrete key agreement and cipher\<close>

definition sample_serialize :: "channel_message \<Rightarrow> u8 list" where
  "sample_serialize m = concat (map (\<lambda>b. [1, b]) (cm_rand_padding m)) @ 0 #
     (case cm_content m of
        ContentRekey rk \<Rightarrow> 0 # to_be_bytes (rk_dh_public_key rk) @ to_be_bytes (rk_key_salt rk)
      | ContentUser plain \<Rightarrow> 1 # plain)"

fun sample_deserialize :: "u8 list \<Rightarrow> channel_message option" where
  "sample_deserialize [] = None"
| "sample_deserialize [tag] = None"
| "sample_deserialize (tag # b # bytes) =
     (if tag = 1
      then map_option (\<lambda>m. m \<lparr> cm_rand_padding := b # cm_rand_padding m \<rparr>) (sample_deserialize bytes)
      else if b = 0
      then Some \<lparr> cm_rand_padding = [], cm_content = ContentRekey
             \<lparr> rk_dh_public_key = of_be_bytes (take 32 bytes), rk_key_salt = of_be_bytes (drop 32 bytes) \<rparr> \<rparr>
      else Some \<lparr> cm_rand_padding = [], cm_content = ContentUser bytes \<rparr>)"

definition sample_sc_crypto :: "256 word sc_crypto" where
  "sample_sc_crypto =
     \<lparr> x25519_new_secret = rand_gen,
       x25519_public = (\<lambda>k. k),
       x25519_diffie_hellman = (\<lambda>k pk. to_be_bytes (k + pk)),
       hkdf_expand = (\<lambda>salt shared. Some salt),
       chacha_encrypt = (\<lambda>key nonce text. Some (to_be_bytes key @ text)),
       chacha_decrypt = (\<lambda>key nonce text. if take 32 text = to_be_bytes key then Some (drop 32 text) else None),
       channel_message_serialize = sample_serialize,
       channel_message_deserialize = sample_deserialize \<rparr>"

definition sample_rand_nonce_message :: "public_key \<Rightarrow> exchange_rand_nonce" where
  "sample_rand_nonce_message pk = \<lparr> ern_rand_nonce = 0, ern_src_public_key = pk, ern_opt_dest_public_key = None \<rparr>"

definition sample_dh_message :: "public_key \<Rightarrow> exchange_dh" where
  "sample_dh_message pk =
     (let ed = \<lparr> ed_dh_public_key = 0, ed_rand_nonce = 0, ed_key_salt = 0, ed_signature = 0 \<rparr>
      in ed \<lparr> ed_signature := sample_sign pk (exchange_dh_signature_buffer ed) \<rparr>)"

definition sample_endpoint :: "public_key \<Rightarrow> public_key \<Rightarrow> 256 word sc_endpoint" where
  "sample_endpoint local_pk remote_pk =
     \<lparr> ep_state = \<lparr> sc_local_public_key = local_pk, sc_remote_public_key = remote_pk,
         sc_sender = encryptor_new 0, sc_receiver = encryptor_new 0,
         sc_opt_old_receiver = None, sc_opt_pending_rekey = None \<rparr>,
       ep_rng = \<lparr> rng_tape = (\<lambda>n. if n = 63 then ucast local_pk else 0), rng_pos = 0 \<rparr>,
       ep_cur_ticks_to_rekey = 0 \<rparr>"

definition sample_moves :: "sc_move list" where
  "sample_moves = [A_Move SC_TimerTick, A_Move (SC_User [7]), B_Move (SC_Reader []),
     B_Move (SC_Reader []), A_Move (SC_Reader [])]"

section \<open>Words and bytes\<close>

unbundle bit_operations_syntax

lemma foldl_be_bytes:
  "foldl (\<lambda>w b. push_bit 8 w + ucast b) (acc :: 'a::len word) (map (\<lambda>i. ucast (drop_bit (8 * i) v) :: u8) (rev [0..<n])) =
     push_bit (8 * n) acc + take_bit (8 * n) (v :: 'a word)"
proof (induction n arbitrary: acc)
  case (Suc n)
  have byte: "ucast (ucast (drop_bit (8 * n) v) :: u8) = take_bit 8 (drop_bit (8 * n) v)"
    by (rule bit_word_eqI) (simp add: bit_simps)
  have "push_bit (8 * n) (take_bit 8 (drop_bit (8 * n) v)) + take_bit (8 * n) v =
      push_bit (8 * n) (take_bit 8 (drop_bit (8 * n) v)) OR take_bit (8 * n) v"
    by (rule disjunctive_add) (auto simp: bit_simps)
  also have "\<dots> = take_bit (8 + 8 * n) v"
    by (rule bit_word_eqI) (auto simp: bit_simps)
  finally show ?case
    using Suc.IH by (simp add: byte push_bit_add add.assoc add.commute[of 8 "8 * n"])
qed simp

lemma of_be_bytes_to_be_bytes [simp]: "8 dvd LENGTH('a) \<Longrightarrow> of_be_bytes (to_be_bytes w) = (w :: 'a::len word)"
  using foldl_be_bytes[of 0 w "LENGTH('a) div 8"] by (simp add: of_be_bytes_def to_be_bytes_def)

lemma rand_gen_zeros:
  "rand_gen \<lparr> rng_tape = (\<lambda>_. 0), rng_pos = n \<rparr> =
     (0 :: 'a::len word, \<lparr> rng_tape = (\<lambda>_. 0), rng_pos = n + LENGTH('a) div 8 \<rparr>)"
proof -
  have "foldl (\<lambda>w b. push_bit 8 w + ucast b) (0 :: 'a word) (replicate m (0 :: u8)) = 0" for m
    by (induction m) auto
  then show ?thesis by (simp add: rand_gen_def rng_fill_def of_be_bytes_def map_replicate_const)
qed

section \<open>The laws hold for it\<close>

lemma sample_deserialize_serialize: "sample_deserialize (sample_serialize m) = Some m"
proof -
  have "sample_deserialize (sample_serialize \<lparr> cm_rand_padding = padding, cm_content = content \<rparr>) =
      Some \<lparr> cm_rand_padding = padding, cm_content = content \<rparr>" for padding content
    by (induction padding) (auto simp: sample_serialize_def split: channel_content.splits)
  then show ?thesis by (cases m) simp
qed

lemma sample_sc_crypto_laws: "sc_crypto_laws sample_sc_crypto"
proof -
  have "key = key'" if "to_be_bytes key = to_be_bytes key'" for key key' :: symmetric_key
    by (rule to_be_bytes_inj[OF _ that]) simp
  then show ?thesis
    by (auto simp: sc_crypto_laws_def sample_sc_crypto_def sample_deserialize_serialize add.commute)
qed

lemma a_move_step: "a_move cr ticks ev s = Some s' \<Longrightarrow> a_step cr ticks s s'"
  by (cases "(cr, ticks, ev, s)" rule: a_move.cases)
    (auto simp del: secure_channel_step.simps split: result.splits list.splits if_splits intro: a_step.intros)

lemma swap_ends_swap_ends [simp]: "swap_ends (swap_ends s) = s"
  by (simp add: swap_ends_def)

lemma sc_run_steps: "sc_run cr ticks moves s = Some s' \<Longrightarrow> (sc_system_step cr ticks)\<^sup>*\<^sup>* s s'"
proof (induction cr ticks moves s rule: sc_run.induct)
  case (2 cr ticks ev moves s)
  then show ?case
    using a_move_step[of cr ticks ev s] sc_system_step_def[of cr ticks s]
    by (auto simp: bind_eq_Some_conv intro: converse_rtranclp_into_rtranclp)
next
  case (3 cr ticks ev moves s)
  then obtain s1 where "a_step cr ticks (swap_ends s) s1" "(sc_system_step cr ticks)\<^sup>*\<^sup>* (swap_ends s1) s'"
    by (auto simp: bind_eq_Some_conv dest: a_move_step)
  moreover from this(1) have "sc_system_step cr ticks s (swap_ends s1)" by (simp add: sc_system_step_def)
  ultimately show ?case by (blast intro: converse_rtranclp_into_rtranclp)
qed simp

section \<open>The messages arrive\<close>

text \<open>
  C5. Two ends that have made the exchange with each other, and then do anything in any order - send
  messages of the user, start key changes, read what arrives, with bytes in flight in both directions and key
  changes that cross - always can read the next message, and each user has got exactly the first of the
  messages that the other one sent, all of them when nothing is in flight.
\<close>

theorem secure_channel_delivers:
  assumes "sc_crypto_laws cr"
    and "initial_exchange env_a cr sign_a pk_a opt_a r_a ern_b ed_b = Ok (ep_state a, ern_a, ed_a)"
    and "initial_exchange env_b cr sign_b pk_b opt_b r_b ern_a ed_a = Ok (ep_state b, ern_b, ed_b)"
    and "(sc_system_step cr ticks)\<^sup>*\<^sup>* (sc_system_start a b) s"
  shows "delivers_to_b cr ticks s \<and> delivers_to_b cr ticks (swap_ends s)"
proof -
  have "channel_inv cr (ep_state a) (ep_state b) [] [] [] []"
    using initial_exchange_inv[OF assms(1-3)] .
  then have "system_inv cr (sc_system_start a b)"
    by (intro system_invI[where ab = "[]" and ba = "[]"]) (simp_all add: sc_system_start_def)
  then have "system_inv cr s" using system_steps_inv[OF assms(1,4)] by blast
  then show ?thesis using system_inv_delivers[OF assms(1)] by simp
qed

lemma sample_exchange:
  "initial_exchange sample_env sample_sc_crypto (sample_sign local_pk) local_pk None \<lparr> rng_tape = (\<lambda>_. 0), rng_pos = 0 \<rparr>
     (sample_rand_nonce_message remote_pk) (sample_dh_message remote_pk) =
     Ok (ep_state (sample_endpoint local_pk remote_pk), sample_rand_nonce_message local_pk, sample_dh_message local_pk)"
  by (simp add: initial_exchange_def sc_state_initial_new_def handle_exchange_rand_nonce_def handle_exchange_dh_def
      verify_exchange_dh_def derive_symmetric_key_def sample_rand_nonce_message_def sample_dh_message_def
      sample_endpoint_def sample_sc_crypto_def sample_env_def rand_gen_zeros
      verify_signature_def exchange_dh_signature_buffer_def fail_if_def)

theorem secure_channel_delivers_witness:
  "case sc_run sample_sc_crypto 5 sample_moves (sc_system_start (sample_endpoint 1 2) (sample_endpoint 2 1)) of
     Some s \<Rightarrow> got_b s = [[7]] \<and> sc_sender (ep_state (sys_a s)) \<noteq> sc_sender (ep_state (sample_endpoint 1 2)) \<and>
       delivers_to_b sample_sc_crypto 5 s \<and> delivers_to_b sample_sc_crypto 5 (swap_ends s)
   | None \<Rightarrow> False"
proof -
  have "case sc_run sample_sc_crypto 5 sample_moves (sc_system_start (sample_endpoint 1 2) (sample_endpoint 2 1)) of
      Some s \<Rightarrow> got_b s = [[7]] \<and> sc_sender (ep_state (sys_a s)) \<noteq> sc_sender (ep_state (sample_endpoint 1 2))
    | None \<Rightarrow> False"
    by code_simp
  then show ?thesis
    using secure_channel_delivers[OF sample_sc_crypto_laws sample_exchange sample_exchange sc_run_steps]
    by (auto split: option.splits)
qed

end
