(* ===== verification/Sc_Handshake.thy ===== *)
theory Sc_Handshake
  imports Sc_Delivery
begin


text \<open>
  Three facts about the parts of the secure channel: the nonces count, so that none is used twice
  with a key; what the exchange at the start proves about the other end; and what a message that is too
  short does.
\<close>

section \<open>The nonces count\<close>

primrec nonce_value :: "u8 list \<Rightarrow> nat" where
  "nonce_value [] = 0"
| "nonce_value (b # bs) = unat b + 256 * nonce_value bs"

lemma nonce_value_less: "nonce_value bs < 256 ^ length bs"
proof (induction bs)
  case (Cons b bs)
  then show ?case using unsigned_less[where ?'b = 8 and w = b and ?'a = nat] by simp
qed simp

lemma increase_nonce_loop_value:
  "unat c \<le> 1 \<Longrightarrow> nonce_value (increase_nonce_loop c bs) = (nonce_value bs + unat c) mod 256 ^ length bs"
proof (induction bs arbitrary: c)
  case (Cons b bs)
  define s where "s = c + ucast b"
  have s: "unat s = unat c + unat b" and s_le: "unat s \<le> 256"
    using Cons.prems unsigned_less[where ?'b = 8 and w = b and ?'a = nat]
    by (simp_all add: s_def unat_word_ariths unsigned_ucast_eq take_bit_eq_mod)
  have carry: "unat (drop_bit 8 s) = unat s div 256"
    unfolding unat_drop_bit_eq by (simp add: drop_bit_eq_div)
  have byte: "unat (ucast s :: u8) = unat s mod 256"
    by (simp add: unsigned_ucast_eq take_bit_eq_mod)
  have "unat (drop_bit 8 s) \<le> 1" using s_le by (simp add: carry)
  then have "nonce_value (increase_nonce_loop c (b # bs)) =
      unat s mod 256 + 256 * ((nonce_value bs + unat s div 256) mod 256 ^ length bs)"
    using Cons.IH by (simp add: byte carry Let_def flip: s_def)
  also have "\<dots> = (unat s + 256 * nonce_value bs) mod (256 * 256 ^ length bs)"
    by (simp add: mod_mult2_eq add.commute)
  finally show ?case by (simp add: s add_ac)
qed simp

text \<open>
  C38. The byte arithmetic of \<open>increase_nonce\<close> is addition: after i increases the bytes, read as a
  little-endian number of n bytes, have grown by i modulo 256 to the n. With its twelve bytes the counter of a key
  gives a different nonce to each of the first 2 to the 96 messages.
\<close>

theorem increase_nonce_counts:
  "nonce_value ((increase_nonce ^^ i) nonce) = (nonce_value nonce + i) mod 256 ^ length nonce"
proof (induction i)
  case 0
  show ?case using nonce_value_less by simp
next
  case (Suc i)
  have "length ((increase_nonce ^^ i) nonce) = length nonce" by (induction i) auto
  then show ?case
    using Suc increase_nonce_loop_value[of 1 "(increase_nonce ^^ i) nonce"]
    by (simp add: mod_Suc_eq flip: increase_nonce_def)
qed

section \<open>Short messages\<close>

text \<open>
  C40. A message of fewer than twelve bytes from the other side stops the channel with a panic: decryption
  slices the nonce off the message without looking at its length. No key is needed to send one.
\<close>

theorem short_message_panics:
  assumes "length enc_data < ENC_NONCE_LEN"
  shows "secure_channel_step cr ticks (SC_Reader enc_data) ep = Panic"
proof -
  have "decrypt cr enc_data de = Panic" for de
    using assms by (simp add: decrypt_def assert_that_def)
  then show ?thesis
    by (simp add: handle_incoming_def decrypt_incoming_def try_decrypt_def split: option.split)
qed

theorem short_message_panics_witness:
  "secure_channel_step sample_sc_crypto 5 (SC_Reader [1, 2, 3]) (sample_endpoint 1 2) = Panic"
  by (rule short_message_panics) (simp add: ENC_NONCE_LEN_def)

section \<open>What the exchange proves about the other end\<close>

text \<open>
  C39. The signed message of the exchange does not name the end for which it is meant. Let two honest nodes a and
  b be able to exchange their messages. A third node m that relays the messages between them, and puts its own
  key and its own signature on those of b, makes a accept a channel with m, which a expects, while the keys are
  the ones that a shares with b, and b accepts the channel as one with a.
\<close>

theorem exchange_misbinds_identity:
  assumes "\<And>message. verify_signature env message pk_m (sign_m message)"
    and "initial_exchange env cr sign_a pk_a None r_a ern_b ed_b = Ok (st_a, ern_a, ed_a)"
    and "initial_exchange env cr sign_b pk_b opt_b r_b ern_a ed_a = Ok (st_b, ern_b, ed_b)"
  shows "initial_exchange env cr sign_a pk_a (Some pk_m) r_a (ern_b \<lparr> ern_src_public_key := pk_m \<rparr>)
      (ed_b \<lparr> ed_signature := sign_m (exchange_dh_signature_buffer ed_b) \<rparr>) =
        Ok (st_a \<lparr> sc_remote_public_key := pk_m \<rparr>, ern_a \<lparr> ern_opt_dest_public_key := Some pk_m \<rparr>, ed_a) \<and>
    initial_exchange env cr sign_b pk_b opt_b r_b (ern_a \<lparr> ern_opt_dest_public_key := Some pk_m \<rparr>) ed_a =
      Ok (st_b, ern_b, ed_b) \<and> sc_remote_public_key st_b = pk_a"
  using assms
  by (cases opt_b) (auto simp: initial_exchange_def sc_state_initial_new_def handle_exchange_rand_nonce_def handle_exchange_dh_def
      verify_exchange_dh_def exchange_dh_signature_buffer_def Let_def case_prod_beta rust_simps)

theorem exchange_misbinds_identity_witness:
  "initial_exchange sample_env sample_sc_crypto (sample_sign 1) 1 (Some 3) \<lparr> rng_tape = (\<lambda>_. 0), rng_pos = 0 \<rparr>
      (sample_rand_nonce_message 2 \<lparr> ern_src_public_key := 3 \<rparr>)
      (sample_dh_message 2 \<lparr> ed_signature := sample_sign 3 (exchange_dh_signature_buffer (sample_dh_message 2)) \<rparr>) =
        Ok (ep_state (sample_endpoint 1 2) \<lparr> sc_remote_public_key := 3 \<rparr>,
          sample_rand_nonce_message 1 \<lparr> ern_opt_dest_public_key := Some 3 \<rparr>, sample_dh_message 1) \<and>
    sc_remote_public_key (ep_state (sample_endpoint 2 1)) = 1"
proof -
  have "verify_signature sample_env message 3 (sample_sign 3 message)" for message
    by (simp add: verify_signature_def sample_env_def)
  from exchange_misbinds_identity[OF this sample_exchange[of 1 2] sample_exchange[of 2 1]] show ?thesis by blast
qed

end
