(* ===== verification/Seq_Map.thy ===== *)
theory Seq_Map
  imports Index_Messages
begin

text \<open>
  The map that the index client goes around (\<open>index_client/src/seq_map.rs\<close>), and the service that keeps
  the friends of the node in one (\<open>index_client/src/seq_friends.rs\<close>). Between two resets of the
  countdown every entry that is not changed in between is returned.
\<close>

section \<open>The map\<close>

record ('k, 'v) seq_map =
  sm_map :: "('k, 'v) hash_map"
  sm_queue :: "'k list"
  sm_cycle_countdown :: nat

definition seq_map_new :: "('k, 'v) hash_map \<Rightarrow> ('k, 'v) seq_map" where
  "seq_map_new m = \<lparr> sm_map = m, sm_queue = hm_keys m, sm_cycle_countdown = length (hm_keys m) \<rparr>"

definition seq_map_update :: "'k \<Rightarrow> 'v \<Rightarrow> ('k, 'v) seq_map \<Rightarrow> ('k, 'v) seq_map \<times> 'v option" where
  "seq_map_update key value sm =
     (let queue = filter (\<lambda>cur_key. cur_key \<noteq> key) (sm_queue sm)
      in (sm \<lparr> sm_queue := queue @ [key], sm_map := hm_insert key value (sm_map sm) \<rparr>, hm_get (sm_map sm) key))"

definition seq_map_remove :: "'k \<Rightarrow> ('k, 'v) seq_map \<Rightarrow> ('k, 'v) seq_map \<times> 'v option" where
  "seq_map_remove key sm =
     (sm \<lparr> sm_queue := filter (\<lambda>cur_key. cur_key \<noteq> key) (sm_queue sm), sm_map := hm_remove key (sm_map sm) \<rparr>,
      hm_get (sm_map sm) key)"

definition reset_countdown :: "('k, 'v) seq_map \<Rightarrow> ('k, 'v) seq_map" where
  "reset_countdown sm = sm \<lparr> sm_cycle_countdown := length (sm_queue sm) \<rparr>"

definition seq_map_next :: "('k, 'v) seq_map \<Rightarrow> ('e, ('k, 'v) seq_map \<times> (nat \<times> 'k \<times> 'v) option) result" where
  "seq_map_next sm =
     (case sm_queue sm of
        [] \<Rightarrow> Ok (sm, None)
      | key # queue \<Rightarrow>
          (let sm = sm \<lparr> sm_queue := queue @ [key] \<rparr> in
           and_then (unwrap (hm_get (sm_map sm) key)) (\<lambda>value.
           let sm = sm \<lparr> sm_cycle_countdown := sm_cycle_countdown sm - 1 \<rparr>
           in Ok (sm, Some (sm_cycle_countdown sm, key, value)))))"

section \<open>The friends of the node\<close>

record friend_info =
  fi_recv_capacity :: u128
  fi_rate :: rate

type_synonym seq_friends = "(public_key \<times> currency, friend_info) seq_map"

datatype seq_friends_request =
    SF_Mutate index_mutation
  | SF_ResetCountdown
  | SF_NextUpdate

fun seq_apply_index_mutation :: "index_mutation \<Rightarrow> seq_friends \<Rightarrow> seq_friends" where
  "seq_apply_index_mutation (UpdateFriendCurrency u) sf =
     fst (seq_map_update (ufc_public_key u, ufc_currency u)
       \<lparr> fi_recv_capacity = ufc_recv_capacity u, fi_rate = ufc_rate u \<rparr> sf)"
| "seq_apply_index_mutation (RemoveFriendCurrency r) sf =
     fst (seq_map_remove (rfc_public_key r, rfc_currency r) sf)"

definition next_update :: "seq_friends \<Rightarrow> ('e, seq_friends \<times> (nat \<times> update_friend_currency) option) result" where
  "next_update sf =
     and_then (seq_map_next sf) (\<lambda>(sf, opt_next).
     Ok (sf, map_option (\<lambda>(cycle_countdown, (public_key, currency), friend_info).
       (cycle_countdown,
        \<lparr> ufc_public_key = public_key, ufc_currency = currency,
          ufc_recv_capacity = fi_recv_capacity friend_info, ufc_rate = fi_rate friend_info \<rparr>)) opt_next))"

text \<open>
  The loop of the service over the requests, with the answers to the requests for the next friend. An
  answer that nobody waits for any more is dropped.
\<close>

fun seq_friends_loop ::
  "seq_friends_request list \<Rightarrow> seq_friends \<Rightarrow>
     ('e, seq_friends \<times> (nat \<times> update_friend_currency) option list) result" where
  "seq_friends_loop [] sf = Ok (sf, [])"
| "seq_friends_loop (SF_Mutate index_mutation # requests) sf =
     seq_friends_loop requests (seq_apply_index_mutation index_mutation sf)"
| "seq_friends_loop (SF_ResetCountdown # requests) sf = seq_friends_loop requests (reset_countdown sf)"
| "seq_friends_loop (SF_NextUpdate # requests) sf =
     and_then (next_update sf) (\<lambda>(sf, answer).
     and_then (seq_friends_loop requests sf) (\<lambda>(sf, answers). Ok (sf, answer # answers)))"

section \<open>Going around\<close>

definition seq_map_ok :: "('k, 'v) seq_map \<Rightarrow> bool" where
  "seq_map_ok sm \<longleftrightarrow> distinct (sm_queue sm) \<and> set (sm_queue sm) = set (hm_keys (sm_map sm))"

fun mutation_key :: "index_mutation \<Rightarrow> public_key \<times> currency" where
  "mutation_key (UpdateFriendCurrency u) = (ufc_public_key u, ufc_currency u)"
| "mutation_key (RemoveFriendCurrency r) = (rfc_public_key r, rfc_currency r)"

text \<open>Requests that neither change the entry nor start the countdown anew.\<close>

fun spares :: "public_key \<times> currency \<Rightarrow> seq_friends_request \<Rightarrow> bool" where
  "spares key (SF_Mutate m) \<longleftrightarrow> mutation_key m \<noteq> key"
| "spares key SF_ResetCountdown \<longleftrightarrow> False"
| "spares key SF_NextUpdate \<longleftrightarrow> True"

text \<open>How many calls it takes until the entry is returned.\<close>

definition calls_until :: "'k \<Rightarrow> 'k list \<Rightarrow> nat" where
  "calls_until key queue = Suc (length (takeWhile (\<lambda>cur_key. cur_key \<noteq> key) queue))"

definition announcement :: "public_key \<times> currency \<Rightarrow> friend_info \<Rightarrow> update_friend_currency" where
  "announcement key info = \<lparr> ufc_public_key = fst key, ufc_currency = snd key,
     ufc_recv_capacity = fi_recv_capacity info, ufc_rate = fi_rate info \<rparr>"

lemma calls_until_le: "key \<in> set queue \<Longrightarrow> calls_until key queue \<le> length queue"
  by (induction queue) (auto simp: calls_until_def)

lemma calls_until_filter: "calls_until key (filter (\<lambda>k. k \<noteq> other) queue) \<le> calls_until key queue" if "other \<noteq> key"
  using that by (induction queue) (auto simp: calls_until_def)

lemma calls_until_append: "key \<in> set queue \<Longrightarrow> calls_until key (queue @ queue') = calls_until key queue"
  by (induction queue) (auto simp: calls_until_def)

lemma seq_map_new_ok: "hm_wf m \<Longrightarrow> seq_map_ok (seq_map_new m)"
  by (simp add: seq_map_ok_def seq_map_new_def hm_wf_def)

lemma seq_map_ok_mutate: "seq_map_ok sf \<Longrightarrow> seq_map_ok (seq_apply_index_mutation m sf)"
  by (cases m) (auto simp: seq_map_ok_def seq_map_update_def seq_map_remove_def hm_keys_insert hm_keys_remove)

lemma seq_map_next_ok:
  assumes "seq_map_ok sm"
  shows "seq_map_next sm = (Ok (sm, None) :: ('e, _) result) \<and> sm_queue sm = [] \<or>
    (\<exists>key queue val. sm_queue sm = key # queue \<and> hm_get (sm_map sm) key = Some val \<and>
      seq_map_next sm = (Ok (sm \<lparr> sm_queue := queue @ [key], sm_cycle_countdown := sm_cycle_countdown sm - 1 \<rparr>,
        Some (sm_cycle_countdown sm - 1, key, val)) :: ('e, _) result) \<and>
      seq_map_ok (sm \<lparr> sm_queue := queue @ [key], sm_cycle_countdown := sm_cycle_countdown sm - 1 \<rparr>))"
proof (cases "sm_queue sm")
  case (Cons key queue)
  then obtain val where "hm_get (sm_map sm) key = Some val"
    using assms in_hm_keys_iff[of key "sm_map sm"] by (auto simp: seq_map_ok_def)
  then show ?thesis using Cons assms by (auto simp: seq_map_next_def seq_map_ok_def)
qed (simp add: seq_map_next_def)

lemma mutate_keeps_entry:
  assumes "mutation_key m \<noteq> key" and "key \<in> set (sm_queue sf)"
  shows "hm_get (sm_map (seq_apply_index_mutation m sf)) key = hm_get (sm_map sf) key"
    and "sm_cycle_countdown (seq_apply_index_mutation m sf) = sm_cycle_countdown sf"
    and "key \<in> set (sm_queue (seq_apply_index_mutation m sf))"
    and "calls_until key (sm_queue (seq_apply_index_mutation m sf)) \<le> calls_until key (sm_queue sf)"
  using assms calls_until_filter[of "mutation_key m" key "sm_queue sf"]
  by (cases m; auto simp: seq_map_update_def seq_map_remove_def hm_simps calls_until_append)+

lemma next_update_ok:
  "seq_map_ok sf \<Longrightarrow> \<exists>sf' answer. next_update sf = (Ok (sf', answer) :: ('e, _) result) \<and> seq_map_ok sf'"
  using seq_map_next_ok[of sf, where 'e = 'e] by (fastforce simp: next_update_def)

lemma seq_friends_loop_ok:
  "seq_map_ok sf \<Longrightarrow> \<exists>sf' answers. seq_friends_loop requests sf = (Ok (sf', answers) :: ('e, _) result) \<and> seq_map_ok sf'"
proof (induction requests arbitrary: sf)
  case (Cons request requests)
  show ?case
  proof (cases request)
    case (SF_Mutate m)
    then show ?thesis using Cons.IH[OF seq_map_ok_mutate[OF Cons.prems]] by simp
  next
    case SF_ResetCountdown
    then show ?thesis using Cons.IH[of "reset_countdown sf"] Cons.prems by (simp add: reset_countdown_def seq_map_ok_def)
  next
    case SF_NextUpdate
    obtain sf' answer where "next_update sf = (Ok (sf', answer) :: ('e, _) result)" "seq_map_ok sf'"
      using next_update_ok[OF Cons.prems] by blast
    then show ?thesis using SF_NextUpdate Cons.IH[of sf'] by auto
  qed
qed simp

lemma seq_friends_loop_covers:
  assumes "seq_map_ok sf" and "hm_get (sm_map sf) key = Some info" and "list_all (spares key) requests"
    and "calls_until key (sm_queue sf) \<le> sm_cycle_countdown sf"
  shows "\<exists>sf' answers. seq_friends_loop requests sf = (Ok (sf', answers) :: ('e, _) result) \<and>
    (sm_cycle_countdown sf' = 0 \<longrightarrow> (\<exists>countdown. Some (countdown, announcement key info) \<in> set answers))"
  using assms
proof (induction requests arbitrary: sf)
  case Nil
  then show ?case by (simp add: calls_until_def)
next
  case (Cons request requests)
  have queued: "key \<in> set (sm_queue sf)"
    using Cons.prems(1,2) by (auto simp: seq_map_ok_def in_hm_keys_iff)
  show ?case
  proof (cases request)
    case (SF_Mutate m)
    then have m: "mutation_key m \<noteq> key" using Cons.prems(3) by simp
    have "\<exists>sf' answers. seq_friends_loop requests (seq_apply_index_mutation m sf) = (Ok (sf', answers) :: ('e, _) result) \<and>
        (sm_cycle_countdown sf' = 0 \<longrightarrow> (\<exists>countdown. Some (countdown, announcement key info) \<in> set answers))"
      using Cons.IH[OF seq_map_ok_mutate[OF Cons.prems(1)]] Cons.prems(2-4) mutate_keeps_entry[OF m queued] by simp
    then show ?thesis using SF_Mutate by simp
  next
    case SF_NextUpdate
    obtain key' queue val where q: "sm_queue sf = key' # queue" "hm_get (sm_map sf) key' = Some val"
      and step: "seq_map_next sf = (Ok (sf \<lparr> sm_queue := queue @ [key'], sm_cycle_countdown := sm_cycle_countdown sf - 1 \<rparr>,
        Some (sm_cycle_countdown sf - 1, key', val)) :: ('e, _) result)"
      and ok: "seq_map_ok (sf \<lparr> sm_queue := queue @ [key'], sm_cycle_countdown := sm_cycle_countdown sf - 1 \<rparr>)"
      using seq_map_next_ok[OF Cons.prems(1), where 'e = 'e] queued by auto
    have ann: "next_update sf = (Ok (sf \<lparr> sm_queue := queue @ [key'], sm_cycle_countdown := sm_cycle_countdown sf - 1 \<rparr>,
        Some (sm_cycle_countdown sf - 1, announcement key' val)) :: ('e, _) result)"
      using step by (simp add: next_update_def announcement_def case_prod_beta)
    show ?thesis
    proof (cases "key' = key")
      case True
      then show ?thesis
        using seq_friends_loop_ok[OF ok, of requests, where 'e = 'e] SF_NextUpdate ann q(2) Cons.prems(2)
        by auto
    next
      case False
      then have "key \<in> set queue" using queued q(1) by simp
      then have "calls_until key (queue @ [key']) \<le> sm_cycle_countdown sf - 1"
        using Cons.prems(4) q(1) False calls_until_append[of key queue] by (simp add: calls_until_def)
      then show ?thesis
        using Cons.IH[OF ok] Cons.prems(2,3) SF_NextUpdate ann by auto
    qed
  next
    case SF_ResetCountdown
    then show ?thesis using Cons.prems(3) by simp
  qed
qed


definition sample_info :: friend_info where
  "sample_info = \<lparr> fi_recv_capacity = 5, fi_rate = \<lparr> rate_mul = 0, rate_add = 1 \<rparr> \<rparr>"

definition sample_friends :: "(public_key \<times> currency, friend_info) hash_map" where
  "sample_friends = [((1, Currency ''FST''), sample_info), ((2, Currency ''FST''), sample_info)]"

definition sample_requests :: "seq_friends_request list" where
  "sample_requests = [SF_NextUpdate, SF_Mutate (UpdateFriendCurrency (announcement (3, Currency ''FST'') sample_info)), SF_NextUpdate]"


end
