(* ===== verification/Single_Client.thy ===== *)
theory Single_Client
  imports Seq_Map Time_Verifier "HOL-Library.Sublist"
begin

text \<open>
  One connection of the index client to an index server (\<open>index_client/src/single_client.rs\<close>). The
  updates that it sends verify, carry the last time hash of the server, and are numbered without gaps, so that
  the verifier of the server accepts them.
\<close>

section \<open>State and messages\<close>

text \<open>The senders on which answers are given back are of any type \<open>'r\<close>.\<close>

datatype 'r single_client_control =
    RequestRoutesControl request_routes 'r
  | SendMutations "index_mutation list"

datatype single_client_error =
    ControlClosed
  | ServerClosed
  | SendToServerError
  | RequestSignatureFailed
  | CounterOverflow

datatype 'r single_client_event =
    SingleFromServer index_server_to_client
  | SingleServerClosed
  | SingleControl "'r single_client_control"
  | SingleControlClosed

record 'r single_client =
  sgc_local_public_key :: public_key
  sgc_rng :: rng
  sgc_session_id :: uid
  sgc_counter :: u64
  sgc_server_time_hash :: hash_result
  sgc_open_requests :: "(uid, 'r) hash_map"

definition single_client_new :: "public_key \<Rightarrow> rng \<Rightarrow> uid \<Rightarrow> hash_result \<Rightarrow> 'r single_client" where
  "single_client_new local_public_key r session server_time_hash =
     \<lparr> sgc_local_public_key = local_public_key, sgc_rng = r, sgc_session_id = session, sgc_counter = 0,
       sgc_server_time_hash = server_time_hash, sgc_open_requests = [] \<rparr>"

section \<open>Handlers\<close>

text \<open>The answer, if there is one, goes to the sender that waits for it.\<close>

fun handle_server_message :: "index_server_to_client \<Rightarrow> 'r single_client \<Rightarrow> 'r single_client \<times> ('r \<times> multi_route list) list" where
  "handle_server_message (ClientTimeHash time_hash) sgc = (sgc \<lparr> sgc_server_time_hash := time_hash \<rparr>, [])"
| "handle_server_message (ClientResponseRoutes response) sgc =
     (case hm_get (sgc_open_requests sgc) (rsr_request_id response) of
        None \<Rightarrow> (sgc, [])
      | Some request_sender \<Rightarrow>
          (sgc \<lparr> sgc_open_requests := hm_remove (rsr_request_id response) (sgc_open_requests sgc) \<rparr>,
           [(request_sender, rsr_multi_routes response)]))"

text \<open>\<open>send_ok\<close> says whether the connection takes the message, \<open>sign\<close> is the identity service.\<close>

fun handle_single_control_message ::
  "'b env \<Rightarrow> (u8 list \<Rightarrow> signature) \<Rightarrow> bool \<Rightarrow> 'r single_client_control \<Rightarrow> 'r single_client \<Rightarrow>
     (single_client_error, 'r single_client \<times> index_client_to_server) result" where
  "handle_single_control_message env sign send_ok (RequestRoutesControl request response_sender) sgc =
     (let sgc = sgc \<lparr> sgc_open_requests := hm_insert (rr_request_id request) response_sender (sgc_open_requests sgc) \<rparr> in
      and_then (fail_if (\<not> send_ok) SendToServerError) (\<lambda>_.
      Ok (sgc, ClientRequestRoutes request)))"
| "handle_single_control_message env sign send_ok (SendMutations index_mutations) sgc =
     (let (rand_nonce, r) = rand_gen (sgc_rng sgc);
          sgc = sgc \<lparr> sgc_rng := r \<rparr>;
          mutations_update = \<lparr> mu_node_public_key = sgc_local_public_key sgc, mu_index_mutations = index_mutations,
            mu_time_hash = sgc_server_time_hash sgc, mu_session_id = sgc_session_id sgc, mu_counter = sgc_counter sgc,
            mu_rand_nonce = rand_nonce, mu_signature = 0 \<rparr>;
          mutations_update = mutations_update \<lparr> mu_signature :=
            sign (create_mutations_update_signature_buff env mutations_update) \<rparr> in
      and_then (ok_or (u_checked_add (sgc_counter sgc) 1) CounterOverflow) (\<lambda>next_counter.
      let sgc = sgc \<lparr> sgc_counter := next_counter \<rparr> in
      and_then (fail_if (\<not> send_ok) SendToServerError) (\<lambda>_.
      Ok (sgc, ClientMutations mutations_update))))"

text \<open>The first time hash among the messages of the server, with the messages after it.\<close>

fun first_server_time_hash ::
  "index_server_to_client list \<Rightarrow> (single_client_error, hash_result \<times> index_server_to_client list) result" where
  "first_server_time_hash [] = Err ServerClosed"
| "first_server_time_hash (ClientTimeHash time_hash # messages) = Ok (time_hash, messages)"
| "first_server_time_hash (message # messages) = first_server_time_hash messages"

text \<open>
  The loop over the events, each with the fate of the message that it sends. The result are the
  messages that the server got, the answers to requests, and the error that ended the loop, if any.
\<close>

fun single_client_events ::
  "'b env \<Rightarrow> (u8 list \<Rightarrow> signature) \<Rightarrow> (bool \<times> 'r single_client_event) list \<Rightarrow> 'r single_client \<Rightarrow>
     index_client_to_server list \<times> ('r \<times> multi_route list) list \<times> (single_client_error, 'r single_client) result" where
  "single_client_events env sign [] sgc = ([], [], Ok sgc)"
| "single_client_events env sign ((send_ok, SingleFromServer message) # events) sgc =
     (let (sgc, answers) = handle_server_message message sgc;
          (sent, answers', res) = single_client_events env sign events sgc
      in (sent, answers @ answers', res))"
| "single_client_events env sign ((send_ok, SingleServerClosed) # events) sgc = ([], [], Err ServerClosed)"
| "single_client_events env sign ((send_ok, SingleControl control) # events) sgc =
     (case handle_single_control_message env sign send_ok control sgc of
        Ok (sgc, message) \<Rightarrow>
          (let (sent, answers, res) = single_client_events env sign events sgc in (message # sent, answers, res))
      | Err e \<Rightarrow> ([], [], Err e)
      | Panic \<Rightarrow> ([], [], Panic))"
| "single_client_events env sign ((send_ok, SingleControlClosed) # events) sgc = ([], [], Err ControlClosed)"

definition single_client_loop ::
  "'b env \<Rightarrow> (u8 list \<Rightarrow> signature) \<Rightarrow> public_key \<Rightarrow> rng \<Rightarrow> hash_result \<Rightarrow> (bool \<times> 'r single_client_event) list \<Rightarrow>
     index_client_to_server list \<times> ('r \<times> multi_route list) list \<times> (single_client_error, 'r single_client) result" where
  "single_client_loop env sign local_public_key r time_hash events =
     (let (session, r) = rand_gen r
      in single_client_events env sign events (single_client_new local_public_key r session time_hash))"

section \<open>The updates of a session\<close>

fun sent_updates :: "index_client_to_server list \<Rightarrow> mutations_update list" where
  "sent_updates [] = []"
| "sent_updates (ClientMutations mu # messages) = mu # sent_updates messages"
| "sent_updates (ClientRequestRoutes request # messages) = sent_updates messages"

text \<open>The time hashes that the client has at each update.\<close>

fun last_time_hashes :: "hash_result \<Rightarrow> (bool \<times> 'r single_client_event) list \<Rightarrow> hash_result list" where
  "last_time_hashes h [] = []"
| "last_time_hashes h ((_, SingleFromServer (ClientTimeHash h')) # events) = last_time_hashes h' events"
| "last_time_hashes h ((_, SingleControl (SendMutations ms)) # events) = h # last_time_hashes h events"
| "last_time_hashes h (_ # events) = last_time_hashes h events"

text \<open>The server that checks the updates of its client one after the other, and accepts every one.\<close>

fun accepts_updates ::
  "'b env \<Rightarrow> mutations_update list \<Rightarrow> (public_key, 'n, uid) simple_verifier \<Rightarrow> bool" where
  "accepts_updates env [] sv \<longleftrightarrow> True"
| "accepts_updates env (mu # mus) sv \<longleftrightarrow>
     verify_mutations_update env mu \<and>
     (case (verify env (mu_time_hash mu) [] (mu_node_public_key mu) (mu_session_id mu) (mu_counter mu) sv
              :: (unit, _) result) of
        Ok (sv, Some _) \<Rightarrow> accepts_updates env mus sv
      | _ \<Rightarrow> False)"

lemma verify_signed_update:
  assumes "\<And>message. verify_signature env message pk (sign message)"
  shows "verify_mutations_update env (mu \<lparr> mu_node_public_key := pk,
    mu_signature := sign (create_mutations_update_signature_buff env (mu \<lparr> mu_node_public_key := pk \<rparr>)) \<rparr>)"
  using assms by (simp add: verify_mutations_update_def create_mutations_update_signature_buff_def)

lemma send_mutations_sent:
  assumes "handle_single_control_message env sign send_ok (SendMutations ms) sgc = Ok (sgc', message)"
    and "\<And>message. verify_signature env message (sgc_local_public_key sgc) (sign message)"
  shows "\<exists>mu. message = ClientMutations mu \<and> verify_mutations_update env mu \<and>
    mu_node_public_key mu = sgc_local_public_key sgc \<and> mu_session_id mu = sgc_session_id sgc \<and>
    mu_counter mu = sgc_counter sgc \<and> mu_time_hash mu = sgc_server_time_hash sgc \<and>
    sgc_local_public_key sgc' = sgc_local_public_key sgc \<and> sgc_session_id sgc' = sgc_session_id sgc \<and>
    sgc_server_time_hash sgc' = sgc_server_time_hash sgc \<and> unat (sgc_counter sgc') = Suc (unat (sgc_counter sgc))"
  using assms
  by (auto simp: rust_simps case_prod_beta Let_def u_checked_add_def unat_word_ariths verify_mutations_update_def
      create_mutations_update_signature_buff_def split: if_splits)

definition updates_in_order :: "'b env \<Rightarrow> 'r single_client \<Rightarrow> hash_result list \<Rightarrow> mutations_update list \<Rightarrow> bool" where
  "updates_in_order env sgc hashes mus \<longleftrightarrow>
     list_all (\<lambda>mu. verify_mutations_update env mu \<and> mu_node_public_key mu = sgc_local_public_key sgc \<and>
       mu_session_id mu = sgc_session_id sgc) mus \<and>
     map (unat \<circ> mu_counter) mus = [unat (sgc_counter sgc)..<unat (sgc_counter sgc) + length mus] \<and>
     prefix (map mu_time_hash mus) hashes"

lemma single_client_events_in_order:
  assumes "single_client_events env sign events sgc = (sent, answers, res)"
    and "\<And>message. verify_signature env message (sgc_local_public_key sgc) (sign message)"
  shows "updates_in_order env sgc (last_time_hashes (sgc_server_time_hash sgc) events) (sent_updates sent)"
  using assms
proof (induction events arbitrary: sgc sent answers)
  case (Cons ev events)
  obtain send_ok event where ev: "ev = (send_ok, event)" by fastforce
  show ?case
  proof (cases event)
    case (SingleFromServer message)
    obtain sgc' as where h: "handle_server_message message sgc = (sgc', as)" by fastforce
    have same: "sgc_local_public_key sgc' = sgc_local_public_key sgc" "sgc_session_id sgc' = sgc_session_id sgc"
      "sgc_counter sgc' = sgc_counter sgc"
      "last_time_hashes (sgc_server_time_hash sgc) (ev # events) = last_time_hashes (sgc_server_time_hash sgc') events"
      using h ev SingleFromServer by (cases message; auto split: option.splits)+
    show ?thesis
      using Cons.IH[of sgc'] Cons.prems ev SingleFromServer h same by (auto simp: updates_in_order_def split: prod.splits)
  next
    case (SingleControl control)
    show ?thesis
    proof (cases "handle_single_control_message env sign send_ok control sgc")
      case (Ok r)
      obtain sgc' message where r: "r = (sgc', message)" by fastforce
      obtain sent' answers' where rest: "single_client_events env sign events sgc' = (sent', answers', res)" "sent = message # sent'"
        using Cons.prems(1) ev SingleControl Ok r by (auto split: prod.splits)
      show ?thesis
      proof (cases control)
        case (RequestRoutesControl request sender)
        then show ?thesis
          using Cons.IH[OF rest(1)] Cons.prems(2) Ok r rest(2) ev SingleControl
          by (auto simp: updates_in_order_def rust_simps Let_def)
      next
        case (SendMutations ms)
        then show ?thesis
          using send_mutations_sent[of env sign send_ok ms sgc sgc' message] Cons.IH[OF rest(1)] Cons.prems(2) Ok r rest(2)
            ev SingleControl by (auto simp: updates_in_order_def upt_conv_Cons simp del: upt_Suc)
      qed
    qed (use Cons.prems(1) ev SingleControl in \<open>auto simp: updates_in_order_def\<close>)
  qed (use Cons.prems(1) ev in \<open>auto simp: updates_in_order_def\<close>)
qed (simp add: updates_in_order_def)

text \<open>
  The ratchet of the server lets the updates of a session pass in the order of their counters.
\<close>

definition ratchet_lets_pass :: "public_key \<Rightarrow> uid \<Rightarrow> nat \<Rightarrow> (public_key, 'n, uid) simple_verifier \<Rightarrow> bool" where
  "ratchet_lets_pass node session n sv \<longleftrightarrow>
     (case hm_get (ratchets (sv_ratchet_pool sv)) node of
        None \<Rightarrow> True
      | Some r \<Rightarrow> session_id r \<noteq> session \<or> unat (counter r) < n)"

lemma known_hash_accepted:
  assumes "hm_contains (last_ticks_map (sv_hash_clock sv)) h" and "ratchet_lets_pass node session (unat c) sv"
  shows "\<exists>sv' hashes. verify env h [] node session c sv = (Ok (sv', Some hashes) :: ('x, _) result) \<and>
    sv_hash_clock sv' = sv_hash_clock sv \<and> ratchet_lets_pass node session (Suc (unat c)) sv'"
proof -
  have "verify_expansion_chain env h [] (sv_hash_clock sv) = Some h"
    using assms(1) by (simp add: verify_expansion_chain_def)
  note verified = verify_ratchet[OF this, of node session c, where 'x = 'x]
  have moved: "snd (ratchet_pool_update node session c (sv_ratchet_pool sv))"
    using assms(2) by (auto simp: ratchet_lets_pass_def ratchet_pool_update_def case_prod_beta ratchet_update_simps
        word_less_nat_alt split: option.splits)
  have "ratchet_lets_pass node session (Suc (unat c))
      (sv \<lparr> sv_ratchet_pool := fst (ratchet_pool_update node session c (sv_ratchet_pool sv)) \<rparr>)"
    using assms(2) by (auto simp: ratchet_lets_pass_def ratchet_pool_update_get ratchet_new_def ratchet_update_simps
        word_less_nat_alt split: option.splits)
  then show ?thesis using verified moved by auto
qed

lemma updates_in_order_accepted:
  assumes "updates_in_order env sgc hashes mus"
    and "list_all (hm_contains (last_ticks_map (sv_hash_clock sv))) hashes"
    and "ratchet_lets_pass (sgc_local_public_key sgc) (sgc_session_id sgc) (unat (sgc_counter sgc)) sv"
  shows "accepts_updates env mus sv"
proof -
  have "accepts_updates env mus sv"
    if "list_all (\<lambda>mu. verify_mutations_update env mu \<and> mu_node_public_key mu = node \<and> mu_session_id mu = session \<and>
          hm_contains (last_ticks_map (sv_hash_clock sv)) (mu_time_hash mu)) mus"
      and "map (unat \<circ> mu_counter) mus = [n..<n + length mus]" and "ratchet_lets_pass node session n sv"
    for node session n
    using that
  proof (induction mus arbitrary: n sv)
    case (Cons mu mus)
    have mu: "unat (mu_counter mu) = n" "map (unat \<circ> mu_counter) mus = [Suc n..<Suc n + length mus]"
      using Cons.prems(2) by (simp_all add: upt_conv_Cons comp_def del: upt_Suc)
    obtain sv' hashes where "verify env (mu_time_hash mu) [] node session (mu_counter mu) sv = (Ok (sv', Some hashes) :: (unit, _) result)"
      "sv_hash_clock sv' = sv_hash_clock sv" "ratchet_lets_pass node session (Suc n) sv'"
      using known_hash_accepted[of sv "mu_time_hash mu" node session "mu_counter mu" env, where 'x = unit] Cons.prems mu(1) by auto
    moreover from this have "accepts_updates env mus sv'"
      using Cons.IH[OF _ mu(2), of sv'] Cons.prems(1) by simp
    ultimately show ?case using Cons.prems(1) by auto
  qed simp
  moreover have "list_all (\<lambda>mu. hm_contains (last_ticks_map (sv_hash_clock sv)) (mu_time_hash mu)) mus"
    using assms(1,2) by (auto simp: updates_in_order_def prefix_def list_all_iff)
  ultimately show ?thesis
    using assms(1,3) by (auto simp: updates_in_order_def list_all_iff)
qed

text \<open>
  C7. The updates that a connection of the index client sends, through any sequence of events, are accepted one after
  the other by the server: the signatures verify, and the counters pass the ratchet of a server that has not
  seen the session before, as long as the server still remembers the time hashes that it has sent.
\<close>

theorem session_updates_accepted:
  fixes sv :: "(public_key, 'n, uid) simple_verifier" and events :: "(bool \<times> 'r single_client_event) list"
  assumes "\<And>message. verify_signature env message pk (sign message)"
    and "single_client_loop env sign pk r time_hash events = (sent, answers, res)"
    and "list_all (hm_contains (last_ticks_map (sv_hash_clock sv))) (last_time_hashes time_hash events)"
    and "\<forall>ratchet. hm_get (ratchets (sv_ratchet_pool sv)) pk = Some ratchet \<longrightarrow> session_id ratchet \<noteq> fst (rand_gen r)"
  shows "accepts_updates env (sent_updates sent) sv"
proof -
  define sgc :: "'r single_client" where "sgc = single_client_new pk (snd (rand_gen r :: uid \<times> rng)) (fst (rand_gen r)) time_hash"
  have "single_client_events env sign events sgc = (sent, answers, res)"
    using assms(2) by (simp add: single_client_loop_def sgc_def case_prod_beta)
  from single_client_events_in_order[OF this] assms(1)
  have "updates_in_order env sgc (last_time_hashes time_hash events) (sent_updates sent)"
    by (simp add: sgc_def single_client_new_def)
  then show ?thesis
    using updates_in_order_accepted[of env sgc _ _ sv] assms(3,4)
    by (auto simp: sgc_def single_client_new_def ratchet_lets_pass_def split: option.splits)
qed

definition sample_server_verifier :: "(public_key, nat, uid) simple_verifier" where
  "sample_server_verifier =
     \<lparr> sv_hash_clock =
         \<lparr> neighbor_hashes = [], last_ticks_max_len = 2, last_ticks = [4, 5], last_ticks_map = [(4, [1]), (5, [2])] \<rparr>,
       sv_ratchet_pool = ratchet_pool_new 2, sv_rng = \<lparr> rng_tape = of_nat, rng_pos = 0 \<rparr> \<rparr>"

definition sample_session :: "(bool \<times> unit single_client_event) list" where
  "sample_session =
     [(True, SingleControl (SendMutations [])), (True, SingleFromServer (ClientTimeHash 5)),
      (True, SingleControl (SendMutations [UpdateFriendCurrency (announcement (3, Currency ''FST'') sample_info)]))]"

theorem session_updates_accepted_witness:
  "case single_client_loop sample_env (sample_sign 7) 7 \<lparr> rng_tape = of_nat, rng_pos = 0 \<rparr> 4 sample_session of
     (sent, answers, res) \<Rightarrow>
       length (sent_updates sent) = 2 \<and> accepts_updates sample_env (sent_updates sent) sample_server_verifier"
proof -
  have signed: "verify_signature sample_env message 7 (sample_sign 7 message)" for message
    by (simp add: verify_signature_def sample_env_def)
  have known: "list_all (hm_contains (last_ticks_map (sv_hash_clock sample_server_verifier))) (last_time_hashes 4 sample_session)"
    by (simp add: sample_server_verifier_def sample_session_def hm_contains_def hm_get_def)
  have "length (sent_updates (fst (single_client_loop sample_env (sample_sign 7) 7 \<lparr> rng_tape = of_nat, rng_pos = 0 \<rparr> 4
      sample_session))) = 2"
    by (simp add: single_client_loop_def sample_session_def single_client_new_def case_prod_beta Let_def u_checked_add_def
        fail_if_def)
  moreover have "accepts_updates sample_env (sent_updates sent) sample_server_verifier"
    if "single_client_loop sample_env (sample_sign 7) 7 \<lparr> rng_tape = of_nat, rng_pos = 0 \<rparr> 4 sample_session =
      (sent, answers, res)" for sent answers res
    by (rule session_updates_accepted[OF signed that known]) (simp add: sample_server_verifier_def ratchet_pool_new_def)
  ultimately show ?thesis by (auto split: prod.splits)
qed

end
