(* ===== verification/Index_Client.thy ===== *)
theory Index_Client
  imports Single_Client Funder_Loop "HOL-Library.Multiset"
begin

text \<open>
  The index client (\<open>index_client/src/index_client.rs\<close>): it keeps a connection to one of the index
  servers, passes on the mutations of the node and the requests for routes, and keeps the list of servers
  in the database. The tasks that it starts are part of the system in which it runs.
\<close>

section \<open>Messages\<close>

record 'b index_server_address =
  isa_public_key :: public_key
  isa_address :: 'b

definition index_server_address_from :: "'b named_index_server_address \<Rightarrow> 'b index_server_address" where
  "index_server_address_from named = \<lparr> isa_public_key = nis_public_key named, isa_address = nis_address named \<rparr>"

datatype 'b index_client_report_mutation =
    ReportAddIndexServer "'b named_index_server_address"
  | ReportRemoveIndexServer public_key
  | ReportSetConnectedServer "public_key option"

datatype response_routes_result =
    RoutesSuccess "multi_route list"
  | RoutesFailure

datatype 'b index_client_to_app_server =
    AppReportMutations "uid option" "'b index_client_report_mutation list"
  | AppResponseRoutes uid response_routes_result

datatype 'b index_client_request =
    RequestAddIndexServer "'b named_index_server_address"
  | RequestRemoveIndexServer public_key
  | RequestRequestRoutes request_routes

datatype 'b app_server_to_index_client =
    AppRequest uid "'b index_client_request"
  | ApplyMutations "index_mutation list"

section \<open>State\<close>

text \<open>
  A control sender is of any type \<open>'c\<close>. Of a cancel sender only matters whether it is still there.
\<close>

record 'b server_connecting =
  scg_index_server :: "'b index_server_address"
  scg_opt_cancel_sender :: bool

record ('b, 'c) server_connected =
  scd_index_server :: "'b index_server_address"
  scd_opt_control_sender :: "'c option"
  scd_opt_cancel_sender :: bool
  scd_ticks_to_send_keepalive :: nat

datatype ('b, 'c) conn_status =
    ConnEmpty nat
  | ConnConnecting "'b server_connecting"
  | ConnConnected "('b, 'c) server_connected"

datatype index_client_error =
    IC_AppServerClosed
  | IC_SendToAppServerFailed
  | IC_SpawnError
  | IC_RequestTimerStreamError
  | IC_SeqFriendsError
  | IC_DatabaseError

datatype ('b, 'c) index_client_event =
    FromAppServer "'b app_server_to_index_client"
  | AppServerClosed
  | IndexServerConnected 'c
  | IndexServerClosed
  | ResponseRoutesEvent uid response_routes_result
  | ClientTimerTick

record ('b, 'c) index_client =
  ic_index_servers :: "'b index_server_address list"
  ic_seq_friends :: seq_friends
  ic_max_open_requests :: nat
  ic_num_open_requests :: nat
  ic_keepalive_ticks :: nat
  ic_backoff_ticks :: nat
  ic_conn_status :: "('b, 'c) conn_status"

text \<open>What a handler does to the outside, in order.\<close>

datatype ('b, 'c) ic_effect =
    MutateDatabase "'b index_client_config_mutation"
  | ToAppServer "'b index_client_to_app_server"
  | SpawnConnect "'b index_server_address"
  | CancelConnection
  | SpawnRequest uid
  | ControlMutations 'c "index_mutation list"
  | ControlRequestRoutes 'c request_routes

text \<open>Which of the operations on the outside succeed. The messages to the application server are counted.\<close>

record ic_io =
  io_database :: bool
  io_app_server :: "nat \<Rightarrow> bool"
  io_spawn :: bool
  io_control :: bool
  io_seq_friends :: bool

type_synonym ('b, 'c) ic_result =
  "(index_client_error, ('b, 'c) index_client \<times> ('b, 'c) ic_effect list) result"

definition index_client_new ::
  "'b index_client_config \<Rightarrow> seq_friends \<Rightarrow> nat \<Rightarrow> nat \<Rightarrow> nat \<Rightarrow> ('b, 'c) index_client" where
  "index_client_new config seq_friends max_open_requests keepalive_ticks backoff_ticks =
     \<lparr> ic_index_servers = map index_server_address_from (icc_index_servers config), ic_seq_friends = seq_friends,
       ic_max_open_requests = max_open_requests, ic_num_open_requests = 0, ic_keepalive_ticks = keepalive_ticks,
       ic_backoff_ticks = backoff_ticks, ic_conn_status = ConnEmpty backoff_ticks \<rparr>"

section \<open>Handlers\<close>

definition to_app_server :: "ic_io \<Rightarrow> nat \<Rightarrow> (index_client_error, unit) result" where
  "to_app_server io n = fail_if (\<not> io_app_server io n) IC_SendToAppServerFailed"

definition try_connect_to_server :: "ic_io \<Rightarrow> ('b, 'c) index_client \<Rightarrow> ('b, 'c) ic_result" where
  "try_connect_to_server io ic =
     (case ic_conn_status ic of
        ConnEmpty _ \<Rightarrow>
          (case ic_index_servers ic of
             [] \<Rightarrow> Ok (ic \<lparr> ic_conn_status := ConnEmpty 0 \<rparr>, [])
           | index_server # index_servers \<Rightarrow>
               (let ic = ic \<lparr> ic_index_servers := index_servers @ [index_server],
                      ic_conn_status := ConnConnecting
                        \<lparr> scg_index_server = index_server, scg_opt_cancel_sender = True \<rparr> \<rparr> in
                and_then (fail_if (\<not> io_spawn io) IC_SpawnError) (\<lambda>_.
                Ok (ic, [SpawnConnect index_server]))))
      | _ \<Rightarrow> Panic)"

definition return_response_routes_failure :: "ic_io \<Rightarrow> nat \<Rightarrow> uid \<Rightarrow> (index_client_error, ('b, 'c) ic_effect) result" where
  "return_response_routes_failure io n request_id =
     and_then (to_app_server io n) (\<lambda>_. Ok (ToAppServer (AppResponseRoutes request_id RoutesFailure)))"

definition handle_add_index_server ::
  "ic_io \<Rightarrow> uid \<Rightarrow> 'b named_index_server_address \<Rightarrow> ('b, 'c) index_client \<Rightarrow> ('b, 'c) ic_result" where
  "handle_add_index_server io app_request_id named ic =
     and_then (fail_if (\<not> io_database io) IC_DatabaseError) (\<lambda>_.
     let ic = ic \<lparr> ic_index_servers :=
           filter (\<lambda>index_server. isa_public_key index_server \<noteq> nis_public_key named) (ic_index_servers ic) @
             [index_server_address_from named] \<rparr>;
         effects = [MutateDatabase (AddIndexServer named),
           ToAppServer (AppReportMutations (Some app_request_id) [ReportAddIndexServer named])] in
     and_then (to_app_server io 0) (\<lambda>_.
     case ic_conn_status ic of
       ConnEmpty _ \<Rightarrow> and_then (try_connect_to_server io ic) (\<lambda>(ic, more). Ok (ic, effects @ more))
     | _ \<Rightarrow> Ok (ic, effects)))"

definition handle_remove_index_server ::
  "ic_io \<Rightarrow> uid \<Rightarrow> public_key \<Rightarrow> ('b, 'c) index_client \<Rightarrow> ('b, 'c) ic_result" where
  "handle_remove_index_server io app_request_id public_key ic =
     and_then (fail_if (\<not> io_database io) IC_DatabaseError) (\<lambda>_.
     let ic = ic \<lparr> ic_index_servers :=
           filter (\<lambda>index_server. isa_public_key index_server \<noteq> public_key) (ic_index_servers ic) \<rparr>;
         effects = [MutateDatabase (RemoveIndexServer public_key),
           ToAppServer (AppReportMutations (Some app_request_id) [ReportRemoveIndexServer public_key])] in
     and_then (to_app_server io 0) (\<lambda>_.
     case ic_conn_status ic of
       ConnEmpty _ \<Rightarrow> Ok (ic, effects)
     | ConnConnecting c \<Rightarrow>
         (if isa_public_key (scg_index_server c) = public_key
          then Ok (ic \<lparr> ic_conn_status := ConnConnecting (c \<lparr> scg_opt_cancel_sender := False \<rparr>) \<rparr>,
                   effects @ (if scg_opt_cancel_sender c then [CancelConnection] else []))
          else Ok (ic, effects))
     | ConnConnected c \<Rightarrow>
         (if isa_public_key (scd_index_server c) = public_key
          then Ok (ic \<lparr> ic_conn_status := ConnConnected
                     (c \<lparr> scd_opt_control_sender := None, scd_opt_cancel_sender := False \<rparr>) \<rparr>,
                   effects @ (if scd_opt_cancel_sender c then [CancelConnection] else []))
          else Ok (ic, effects))))"

definition handle_request_routes ::
  "ic_io \<Rightarrow> uid \<Rightarrow> request_routes \<Rightarrow> ('b, 'c) index_client \<Rightarrow> ('b, 'c) ic_result" where
  "handle_request_routes io app_request_id request ic =
     (let report = ToAppServer (AppReportMutations (Some app_request_id) []);
          failure = (\<lambda>ic. and_then (return_response_routes_failure io 1 (rr_request_id request)) (\<lambda>effect.
            Ok (ic, [report, effect]))) in
      and_then (to_app_server io 0) (\<lambda>_.
      if ic_max_open_requests ic \<le> ic_num_open_requests ic then failure ic
      else
        (case ic_conn_status ic of
           ConnConnected c \<Rightarrow>
             (case scd_opt_control_sender c of
                Some control_sender \<Rightarrow>
                  (if \<not> io_control io
                   then failure (ic \<lparr> ic_conn_status := ConnConnected (c \<lparr> scd_opt_control_sender := None \<rparr>) \<rparr>)
                   else
                     (let ic = ic \<lparr> ic_num_open_requests := ic_num_open_requests ic + 1 \<rparr> in
                      and_then (fail_if (\<not> io_spawn io) IC_SpawnError) (\<lambda>_.
                      Ok (ic, [report, ControlRequestRoutes control_sender request,
                               SpawnRequest (rr_request_id request)]))))
              | None \<Rightarrow> failure ic)
         | _ \<Rightarrow> failure ic)))"

text \<open>The mutations with the state of a friend that is chosen in turn; then they are sent.\<close>

definition send_with_next_update ::
  "ic_io \<Rightarrow> 'c \<Rightarrow> index_mutation list \<Rightarrow> ('b, 'c) server_connected \<Rightarrow> ('b, 'c) index_client \<Rightarrow> ('b, 'c) ic_result" where
  "send_with_next_update io control_sender mutations c ic =
     and_then (fail_if (\<not> io_seq_friends io) IC_SeqFriendsError) (\<lambda>_.
     and_then (next_update (ic_seq_friends ic)) (\<lambda>(seq_friends, opt_next).
     let mutations = mutations @ (case opt_next of Some (_, update) \<Rightarrow> [UpdateFriendCurrency update] | None \<Rightarrow> []);
         c = c \<lparr> scd_opt_control_sender := if io_control io then Some control_sender else None,
                 scd_ticks_to_send_keepalive := ic_keepalive_ticks ic \<rparr>
     in Ok (ic \<lparr> ic_seq_friends := seq_friends, ic_conn_status := ConnConnected c \<rparr>,
            if io_control io then [ControlMutations control_sender mutations] else [])))"

definition handle_apply_mutations ::
  "ic_io \<Rightarrow> index_mutation list \<Rightarrow> ('b, 'c) index_client \<Rightarrow> ('b, 'c) ic_result" where
  "handle_apply_mutations io mutations ic =
     and_then (fail_if (mutations \<noteq> [] \<and> \<not> io_seq_friends io) IC_SeqFriendsError) (\<lambda>_.
     let ic = ic \<lparr> ic_seq_friends := fold seq_apply_index_mutation mutations (ic_seq_friends ic) \<rparr> in
     case ic_conn_status ic of
       ConnConnected c \<Rightarrow>
         (case scd_opt_control_sender c of
            Some control_sender \<Rightarrow> send_with_next_update io control_sender mutations c ic
          | None \<Rightarrow> Ok (ic, []))
     | _ \<Rightarrow> Ok (ic, []))"

fun handle_from_app_server ::
  "ic_io \<Rightarrow> 'b app_server_to_index_client \<Rightarrow> ('b, 'c) index_client \<Rightarrow> ('b, 'c) ic_result" where
  "handle_from_app_server io (AppRequest app_request_id (RequestAddIndexServer named)) ic =
     handle_add_index_server io app_request_id named ic"
| "handle_from_app_server io (AppRequest app_request_id (RequestRemoveIndexServer public_key)) ic =
     handle_remove_index_server io app_request_id public_key ic"
| "handle_from_app_server io (AppRequest app_request_id (RequestRequestRoutes request)) ic =
     handle_request_routes io app_request_id request ic"
| "handle_from_app_server io (ApplyMutations mutations) ic = handle_apply_mutations io mutations ic"

definition handle_index_server_connected :: "ic_io \<Rightarrow> 'c \<Rightarrow> ('b, 'c) index_client \<Rightarrow> ('b, 'c) ic_result" where
  "handle_index_server_connected io control_sender ic =
     (case ic_conn_status ic of
        ConnConnecting c \<Rightarrow>
          (let ic = ic \<lparr> ic_conn_status := ConnConnected
                 \<lparr> scd_index_server = scg_index_server c, scd_opt_control_sender = Some control_sender,
                   scd_opt_cancel_sender = scg_opt_cancel_sender c,
                   scd_ticks_to_send_keepalive = ic_keepalive_ticks ic \<rparr> \<rparr> in
           and_then (to_app_server io 0) (\<lambda>_.
           Ok (ic, [ToAppServer (AppReportMutations None
             [ReportSetConnectedServer (Some (isa_public_key (scg_index_server c)))])])))
      | _ \<Rightarrow> Ok (ic, []))"

definition handle_index_server_closed :: "ic_io \<Rightarrow> ('b, 'c) index_client \<Rightarrow> ('b, 'c) ic_result" where
  "handle_index_server_closed io ic =
     (let closed = ic \<lparr> ic_conn_status := ConnEmpty (ic_backoff_ticks ic) \<rparr> in
      case ic_conn_status ic of
        ConnConnected _ \<Rightarrow>
          and_then (to_app_server io 0) (\<lambda>_.
          Ok (closed, [ToAppServer (AppReportMutations None [ReportSetConnectedServer None])]))
      | _ \<Rightarrow> Ok (closed, []))"

definition handle_response_routes ::
  "ic_io \<Rightarrow> uid \<Rightarrow> response_routes_result \<Rightarrow> ('b, 'c) index_client \<Rightarrow> ('b, 'c) ic_result" where
  "handle_response_routes io request_id res ic =
     and_then (assert_that (ic_num_open_requests ic \<noteq> 0)) (\<lambda>_.
     let ic = ic \<lparr> ic_num_open_requests := ic_num_open_requests ic - 1 \<rparr> in
     and_then (to_app_server io 0) (\<lambda>_.
     Ok (ic, [ToAppServer (AppResponseRoutes request_id res)])))"

definition handle_client_timer_tick :: "ic_io \<Rightarrow> ('b, 'c) index_client \<Rightarrow> ('b, 'c) ic_result" where
  "handle_client_timer_tick io ic =
     (case ic_conn_status ic of
        ConnEmpty ticks_to_reconnect \<Rightarrow>
          (let ticks_to_reconnect = ticks_to_reconnect - 1;
               ic = ic \<lparr> ic_conn_status := ConnEmpty ticks_to_reconnect \<rparr>
           in if ticks_to_reconnect = 0 then try_connect_to_server io ic else Ok (ic, []))
      | ConnConnecting _ \<Rightarrow> Ok (ic, [])
      | ConnConnected c \<Rightarrow>
          (case scd_opt_control_sender c of
             None \<Rightarrow> Ok (ic, [])
           | Some control_sender \<Rightarrow>
               (let c = c \<lparr> scd_ticks_to_send_keepalive := scd_ticks_to_send_keepalive c - 1 \<rparr>
                in if scd_ticks_to_send_keepalive c \<noteq> 0 then Ok (ic \<lparr> ic_conn_status := ConnConnected c \<rparr>, [])
                   else send_with_next_update io control_sender [] c ic)))"

fun index_client_step :: "ic_io \<Rightarrow> ('b, 'c) index_client_event \<Rightarrow> ('b, 'c) index_client \<Rightarrow> ('b, 'c) ic_result" where
  "index_client_step io (FromAppServer message) ic = handle_from_app_server io message ic"
| "index_client_step io AppServerClosed ic = Err IC_AppServerClosed"
| "index_client_step io (IndexServerConnected control_sender) ic = handle_index_server_connected io control_sender ic"
| "index_client_step io IndexServerClosed ic = handle_index_server_closed io ic"
| "index_client_step io (ResponseRoutesEvent request_id res) ic = handle_response_routes io request_id res ic"
| "index_client_step io ClientTimerTick ic = handle_client_timer_tick io ic"

text \<open>The loop connects to a server and then handles the events, each with the fate of its operations.\<close>

fun index_client_events ::
  "(ic_io \<times> ('b, 'c) index_client_event) list \<Rightarrow> ('b, 'c) index_client \<Rightarrow> ('b, 'c) ic_result" where
  "index_client_events [] ic = Ok (ic, [])"
| "index_client_events ((io, event) # events) ic =
     and_then (index_client_step io event ic) (\<lambda>(ic, effects).
     and_then (index_client_events events ic) (\<lambda>(ic, more). Ok (ic, effects @ more)))"

definition index_client_loop ::
  "ic_io \<Rightarrow> (ic_io \<times> ('b, 'c) index_client_event) list \<Rightarrow> 'b index_client_config \<Rightarrow> seq_friends \<Rightarrow>
     nat \<Rightarrow> nat \<Rightarrow> nat \<Rightarrow> ('b, 'c) ic_result" where
  "index_client_loop io events config seq_friends max_open_requests keepalive_ticks backoff_ticks =
     and_then (try_connect_to_server io
       (index_client_new config seq_friends max_open_requests keepalive_ticks backoff_ticks)) (\<lambda>(ic, effects).
     and_then (index_client_events events ic) (\<lambda>(ic, more). Ok (ic, effects @ more)))"

text \<open>
  The task that sends the full state to a new server: it restarts the countdown and sends the friends in turn,
  until the countdown is over, there is no friend, or the connection takes no more. Here no other request comes in
  between; \<open>n\<close> is the number of messages that the connection takes.
\<close>

fun send_full_state_loop :: "nat \<Rightarrow> seq_friends \<Rightarrow> ('e, seq_friends \<times> index_mutation list list) result" where
  "send_full_state_loop 0 sf = and_then (next_update sf) (\<lambda>(sf, _). Ok (sf, []))"
| "send_full_state_loop (Suc n) sf =
     and_then (next_update sf) (\<lambda>(sf, opt_next).
     case opt_next of
       None \<Rightarrow> Ok (sf, [])
     | Some (cyclic_countdown, update) \<Rightarrow>
         (if cyclic_countdown = 0 then Ok (sf, [[UpdateFriendCurrency update]])
          else and_then (send_full_state_loop n sf) (\<lambda>(sf, sent).
            Ok (sf, [UpdateFriendCurrency update] # sent))))"

definition send_full_state :: "nat \<Rightarrow> seq_friends \<Rightarrow> ('e, seq_friends \<times> index_mutation list list) result" where
  "send_full_state n sf = send_full_state_loop n (reset_countdown sf)"

section \<open>The client among its tasks\<close>

datatype conn_task = NoTask | TaskConnecting | TaskConnected

record ('b, 'c) ic_system =
  ics_client :: "('b, 'c) index_client"
  ics_config :: "'b index_client_config"
  ics_task :: conn_task
  ics_outstanding :: "uid list"
  ics_requested :: "uid list"
  ics_answered :: "uid list"

fun apply_effect :: "('b, 'c) ic_effect \<Rightarrow> ('b, 'c) ic_system \<Rightarrow> ('b, 'c) ic_system" where
  "apply_effect (MutateDatabase mutation) s =
     (case index_client_config_mutate mutation (ics_config s) of
        Ok config \<Rightarrow> s \<lparr> ics_config := config \<rparr>
      | Err () \<Rightarrow> s
      | Panic \<Rightarrow> s)"
| "apply_effect (ToAppServer (AppResponseRoutes request_id _)) s =
     s \<lparr> ics_answered := ics_answered s @ [request_id] \<rparr>"
| "apply_effect (SpawnConnect _) s = s \<lparr> ics_task := TaskConnecting \<rparr>"
| "apply_effect (SpawnRequest request_id) s = s \<lparr> ics_outstanding := ics_outstanding s @ [request_id] \<rparr>"
| "apply_effect _ s = s"

text \<open>
  Which events can come: a connection task announces its connection once and its end once, and each
  task that waits for an answer ends with one event.
\<close>

fun event_enabled :: "('b, 'c) index_client_event \<Rightarrow> ('b, 'c) ic_system \<Rightarrow> bool" where
  "event_enabled (IndexServerConnected _) s \<longleftrightarrow> ics_task s = TaskConnecting"
| "event_enabled IndexServerClosed s \<longleftrightarrow> ics_task s \<noteq> NoTask"
| "event_enabled (ResponseRoutesEvent request_id _) s \<longleftrightarrow> request_id \<in> set (ics_outstanding s)"
| "event_enabled _ s \<longleftrightarrow> True"

fun take_event :: "('b, 'c) index_client_event \<Rightarrow> ('b, 'c) ic_system \<Rightarrow> ('b, 'c) ic_system" where
  "take_event (IndexServerConnected _) s = s \<lparr> ics_task := TaskConnected \<rparr>"
| "take_event IndexServerClosed s = s \<lparr> ics_task := NoTask \<rparr>"
| "take_event (ResponseRoutesEvent request_id _) s = s \<lparr> ics_outstanding := remove1 request_id (ics_outstanding s) \<rparr>"
| "take_event (FromAppServer (AppRequest _ (RequestRequestRoutes request))) s =
     s \<lparr> ics_requested := ics_requested s @ [rr_request_id request] \<rparr>"
| "take_event _ s = s"

definition ic_system_step ::
  "ic_io \<Rightarrow> ('b, 'c) index_client_event \<Rightarrow> ('b, 'c) ic_system \<Rightarrow> (index_client_error, ('b, 'c) ic_system) result" where
  "ic_system_step io event s =
     and_then (index_client_step io event (ics_client s)) (\<lambda>(ic, effects).
     Ok (fold apply_effect effects ((take_event event s) \<lparr> ics_client := ic \<rparr>)))"

definition ic_system_start ::
  "ic_io \<Rightarrow> 'b index_client_config \<Rightarrow> seq_friends \<Rightarrow> nat \<Rightarrow> nat \<Rightarrow> nat \<Rightarrow>
     (index_client_error, ('b, 'c) ic_system) result" where
  "ic_system_start io config seq_friends max_open_requests keepalive_ticks backoff_ticks =
     and_then (try_connect_to_server io
       (index_client_new config seq_friends max_open_requests keepalive_ticks backoff_ticks)) (\<lambda>(ic, effects).
     Ok (fold apply_effect effects \<lparr> ics_client = ic, ics_config = config, ics_task = NoTask, ics_outstanding = [],
           ics_requested = [], ics_answered = [] \<rparr>))"

inductive ic_reachable :: "'b index_client_config \<Rightarrow> seq_friends \<Rightarrow> nat \<Rightarrow> ('b, 'c) ic_system \<Rightarrow> bool"
  for config sf max_open_requests where
  ic_start: "ic_system_start io config sf max_open_requests keepalive_ticks backoff_ticks = Ok s \<Longrightarrow>
    ic_reachable config sf max_open_requests s"
| ic_step: "ic_reachable config sf max_open_requests s \<Longrightarrow> event_enabled event s \<Longrightarrow>
    ic_system_step io event s = Ok s' \<Longrightarrow> ic_reachable config sf max_open_requests s'"

fun ic_system_run ::
  "(ic_io \<times> ('b, 'c) index_client_event) list \<Rightarrow> ('b, 'c) ic_system \<Rightarrow> ('b, 'c) ic_system option" where
  "ic_system_run [] s = Some s"
| "ic_system_run ((io, event) # events) s =
     (if event_enabled event s
      then (case ic_system_step io event s of Ok s \<Rightarrow> ic_system_run events s | _ \<Rightarrow> None)
      else None)"

section \<open>The invariant\<close>

fun conn_matches :: "('b, 'c) conn_status \<Rightarrow> conn_task \<Rightarrow> bool" where
  "conn_matches (ConnEmpty _) task \<longleftrightarrow> task = NoTask"
| "conn_matches (ConnConnecting _) task \<longleftrightarrow> task = TaskConnecting"
| "conn_matches (ConnConnected _) task \<longleftrightarrow> task = TaskConnected"

definition same_servers :: "'b index_client_config \<Rightarrow> 'b index_server_address list \<Rightarrow> bool" where
  "same_servers config servers \<longleftrightarrow>
     set servers = index_server_address_from ` set (icc_index_servers config) \<and>
     distinct (map isa_public_key servers)"

definition ic_inv :: "nat \<Rightarrow> ('b, 'c) ic_system \<Rightarrow> bool" where
  "ic_inv max_open_requests s \<longleftrightarrow>
     conn_matches (ic_conn_status (ics_client s)) (ics_task s) \<and> seq_map_ok (ic_seq_friends (ics_client s)) \<and>
     ic_max_open_requests (ics_client s) = max_open_requests \<and>
     ic_num_open_requests (ics_client s) = length (ics_outstanding s) \<and>
     length (ics_outstanding s) \<le> max_open_requests \<and>
     mset (ics_requested s) = mset (ics_answered s) + mset (ics_outstanding s) \<and>
     same_servers (ics_config s) (ic_index_servers (ics_client s))"

lemma same_servers_add:
  "same_servers config servers \<Longrightarrow>
     same_servers (config \<lparr> icc_index_servers :=
         filter (\<lambda>s. nis_public_key s \<noteq> nis_public_key named) (icc_index_servers config) @ [named] \<rparr>)
       (filter (\<lambda>s. isa_public_key s \<noteq> nis_public_key named) servers @ [index_server_address_from named])"
  by (auto simp: same_servers_def index_server_address_from_def distinct_map_filter)

lemma same_servers_remove:
  "same_servers config servers \<Longrightarrow>
     same_servers (config \<lparr> icc_index_servers := filter (\<lambda>s. nis_public_key s \<noteq> pk) (icc_index_servers config) \<rparr>)
       (filter (\<lambda>s. isa_public_key s \<noteq> pk) servers)"
  by (auto simp: same_servers_def index_server_address_from_def distinct_map_filter)

lemma same_servers_rotate: "same_servers config (s # servers) \<Longrightarrow> same_servers config (servers @ [s])"
  by (auto simp: same_servers_def)

lemma seq_map_ok_mutations: "seq_map_ok sf \<Longrightarrow> seq_map_ok (fold seq_apply_index_mutation mutations sf)"
  by (induction mutations arbitrary: sf) (auto intro: seq_map_ok_mutate)

text \<open>The task that sends the full state sends each friend once, in the order of the queue, which is left as it was.\<close>

lemma send_full_state_loop_queue:
  assumes "seq_map_ok sf" and "sm_queue sf = xs @ ys" and "xs \<noteq> []" and "sm_cycle_countdown sf = length xs"
    and "length xs \<le> n"
  shows "send_full_state_loop n sf =
    (Ok (sf \<lparr> sm_queue := ys @ xs, sm_cycle_countdown := 0 \<rparr>,
      map (\<lambda>key. [UpdateFriendCurrency (announcement key (the (hm_get (sm_map sf) key)))]) xs) :: ('e, _) result)"
  using assms
proof (induction xs arbitrary: n ys sf)
  case (Cons x xs)
  obtain m where n: "n = Suc m" using Cons.prems(5) by (cases n) auto
  define sf1 where "sf1 = sf \<lparr> sm_queue := xs @ ys @ [x], sm_cycle_countdown := length xs \<rparr>"
  obtain info where info: "hm_get (sm_map sf) x = Some info"
    and step: "seq_map_next sf = (Ok (sf1, Some (length xs, x, info)) :: ('e, _) result)" and ok: "seq_map_ok sf1"
    using seq_map_next_ok[OF Cons.prems(1), where 'e = 'e] Cons.prems(2,4) by (auto simp: sf1_def)
  have next1: "next_update sf = (Ok (sf1, Some (length xs, announcement x info)) :: ('e, _) result)"
    using step by (simp add: next_update_def announcement_def case_prod_beta)
  show ?case
  proof (cases "xs = []")
    case True
    then show ?thesis using n next1 info by (simp add: sf1_def)
  next
    case False
    then have "send_full_state_loop m sf1 = (Ok (sf1 \<lparr> sm_queue := (ys @ [x]) @ xs, sm_cycle_countdown := 0 \<rparr>,
        map (\<lambda>key. [UpdateFriendCurrency (announcement key (the (hm_get (sm_map sf1) key)))]) xs) :: ('e, _) result)"
      using Cons.IH[OF ok, of "ys @ [x]" m] Cons.prems(5) n by (simp add: sf1_def)
    then show ?thesis using n next1 info False by (simp add: sf1_def)
  qed
qed simp

lemma send_full_state_sends_all:
  assumes "seq_map_ok sf" and "length (sm_queue sf) \<le> n"
  shows "\<exists>sf'. send_full_state n sf =
    (Ok (sf', map (\<lambda>key. [UpdateFriendCurrency (announcement key (the (hm_get (sm_map sf) key)))]) (sm_queue sf)) :: ('e, _) result) \<and>
    sm_map sf' = sm_map sf \<and> sm_queue sf' = sm_queue sf"
proof (cases "sm_queue sf = []")
  case True
  then show ?thesis
    by (cases n) (simp_all add: send_full_state_def reset_countdown_def next_update_def seq_map_next_def)
next
  case False
  then show ?thesis
    using send_full_state_loop_queue[of "reset_countdown sf" "sm_queue sf" "[]" n, where 'e = 'e] assms
    by (simp add: send_full_state_def reset_countdown_def seq_map_ok_def)
qed

text \<open>What the result of a handler does to the system keeps the invariant, and it is no panic.\<close>

definition ic_fine :: "nat \<Rightarrow> ('b, 'c) ic_result \<Rightarrow> ('b, 'c) ic_system \<Rightarrow> bool" where
  "ic_fine n res s \<longleftrightarrow>
     (case res of
        Ok (ic, effects) \<Rightarrow> ic_inv n (fold apply_effect effects (s \<lparr> ics_client := ic \<rparr>))
      | Err _ \<Rightarrow> True
      | Panic \<Rightarrow> False)"

lemma ic_fine_connect:
  assumes "ic_inv n (s \<lparr> ics_client := ic \<rparr>)" and "ic_conn_status ic = ConnEmpty ticks"
  shows "ic_fine n (try_connect_to_server io ic) s"
  using assms same_servers_rotate
  by (auto simp: ic_fine_def try_connect_to_server_def ic_inv_def fail_if_def split: list.splits)

lemma ic_fine_send:
  assumes inv: "ic_inv n (s \<lparr> ics_client := ic \<rparr>)" and "ics_task s = TaskConnected"
  shows "ic_fine n (send_with_next_update io control_sender mutations c ic) s"
proof -
  obtain sf answer where "next_update (ic_seq_friends ic) = (Ok (sf, answer) :: (index_client_error, _) result)"
    "seq_map_ok sf"
    using next_update_ok[of "ic_seq_friends ic", where 'e = index_client_error] inv by (auto simp: ic_inv_def)
  then show ?thesis
    using assms by (auto simp: ic_fine_def send_with_next_update_def ic_inv_def fail_if_def)
qed

lemma apply_effect_client: "apply_effect e (s \<lparr> ics_client := ic \<rparr>) = (apply_effect e s) \<lparr> ics_client := ic \<rparr>"
proof (cases e)
  case (MutateDatabase m)
  then show ?thesis by (cases m) simp_all
next
  case (ToAppServer m)
  then show ?thesis by (cases m) simp_all
qed simp_all

lemma apply_effects_client:
  "fold apply_effect es (s \<lparr> ics_client := ic \<rparr>) = (fold apply_effect es s) \<lparr> ics_client := ic \<rparr>"
  by (induction es arbitrary: s) (simp_all add: apply_effect_client)

lemma ic_fine_effects:
  assumes "ic_fine n res (fold apply_effect es s)"
  shows "ic_fine n (and_then res (\<lambda>(ic, more). Ok (ic, es @ more))) s"
  using assms by (cases res) (auto simp: ic_fine_def apply_effects_client)

lemma ic_fine_add:
  assumes "ic_inv n s"
  shows "ic_fine n (handle_add_index_server io app_request_id named (ics_client s)) s"
proof -
  define ic where "ic = ics_client s \<lparr> ic_index_servers :=
    filter (\<lambda>index_server. isa_public_key index_server \<noteq> nis_public_key named) (ic_index_servers (ics_client s)) @
      [index_server_address_from named] \<rparr>"
  define es :: "('a, 'b) ic_effect list" where "es = [MutateDatabase (AddIndexServer named),
    ToAppServer (AppReportMutations (Some app_request_id) [ReportAddIndexServer named])]"
  have inv: "ic_inv n ((fold apply_effect es s) \<lparr> ics_client := ic \<rparr>)"
    using assms same_servers_add by (auto simp: ic_inv_def ic_def es_def)
  then have "ic_fine n (case ic_conn_status ic of
      ConnEmpty _ \<Rightarrow> and_then (try_connect_to_server io ic) (\<lambda>(ic, more). Ok (ic, es @ more))
    | _ \<Rightarrow> Ok (ic, es)) s"
    using ic_fine_effects[OF ic_fine_connect[OF inv]]
    by (auto simp: apply_effects_client ic_fine_def[of n "Ok _"] split: conn_status.split)
  then show ?thesis
    by (simp add: handle_add_index_server_def to_app_server_def fail_if_def ic_fine_def[of n "Err _"] Let_def
        flip: ic_def es_def)
qed

lemma ic_fine_remove:
  assumes "ic_inv n s"
  shows "ic_fine n (handle_remove_index_server io app_request_id pk (ics_client s)) s"
  using assms same_servers_remove
  by (auto simp: handle_remove_index_server_def to_app_server_def fail_if_def ic_fine_def ic_inv_def Let_def
      split: conn_status.split)

lemma ic_fine_request:
  assumes "ic_inv n s"
  shows "ic_fine n (handle_request_routes io app_request_id request (ics_client s))
    (s \<lparr> ics_requested := ics_requested s @ [rr_request_id request] \<rparr>)"
  using assms
  by (auto simp: handle_request_routes_def return_response_routes_failure_def to_app_server_def fail_if_def ic_fine_def
      ic_inv_def Let_def split: conn_status.split option.split)

lemma ic_fine_mutations:
  assumes "ic_inv n s"
  shows "ic_fine n (handle_apply_mutations io mutations (ics_client s)) s"
proof -
  define ic where "ic = ics_client s \<lparr> ic_seq_friends := fold seq_apply_index_mutation mutations (ic_seq_friends (ics_client s)) \<rparr>"
  have inv: "ic_inv n (s \<lparr> ics_client := ic \<rparr>)"
    using assms seq_map_ok_mutations by (auto simp: ic_inv_def ic_def)
  have "ic_fine n (case ic_conn_status ic of
       ConnConnected c \<Rightarrow>
         (case scd_opt_control_sender c of
            Some control_sender \<Rightarrow> send_with_next_update io control_sender mutations c ic
          | None \<Rightarrow> Ok (ic, []))
     | _ \<Rightarrow> Ok (ic, [])) s"
    using inv ic_fine_send[OF inv]
    by (auto simp: ic_fine_def[of n "Ok _"] split: conn_status.split option.split) (auto simp: ic_inv_def)
  then show ?thesis
    by (simp add: handle_apply_mutations_def fail_if_def ic_fine_def[of n "Err _"] Let_def flip: ic_def)
qed

lemma ic_fine_connected:
  assumes "ic_inv n s" and "ics_task s = TaskConnecting"
  shows "ic_fine n (handle_index_server_connected io control_sender (ics_client s)) (s \<lparr> ics_task := TaskConnected \<rparr>)"
  using assms
  by (auto simp: handle_index_server_connected_def to_app_server_def fail_if_def ic_fine_def ic_inv_def
      split: conn_status.splits)

lemma ic_fine_closed:
  assumes "ic_inv n s"
  shows "ic_fine n (handle_index_server_closed io (ics_client s)) (s \<lparr> ics_task := NoTask \<rparr>)"
  using assms
  by (auto simp: handle_index_server_closed_def to_app_server_def fail_if_def ic_fine_def ic_inv_def Let_def
      split: conn_status.splits)

lemma ic_fine_response:
  assumes "ic_inv n s" and "request_id \<in> set (ics_outstanding s)"
  shows "ic_fine n (handle_response_routes io request_id res (ics_client s))
    (s \<lparr> ics_outstanding := remove1 request_id (ics_outstanding s) \<rparr>)"
proof -
  have "mset (ics_outstanding s) = add_mset request_id (mset (remove1 request_id (ics_outstanding s)))"
    using assms(2) by simp
  then show ?thesis
    using assms
    by (auto simp: handle_response_routes_def to_app_server_def fail_if_def assert_that_def ic_fine_def ic_inv_def
        length_remove1)
qed

lemma ic_fine_tick:
  assumes "ic_inv n s"
  shows "ic_fine n (handle_client_timer_tick io (ics_client s)) s"
proof (cases "ic_conn_status (ics_client s)")
  case (ConnEmpty ticks)
  define ic where "ic = ics_client s \<lparr> ic_conn_status := ConnEmpty (ticks - 1) \<rparr>"
  have inv: "ic_inv n (s \<lparr> ics_client := ic \<rparr>)"
    using assms ConnEmpty by (simp add: ic_inv_def ic_def)
  have "ic_fine n (if ticks - 1 = 0 then try_connect_to_server io ic else Ok (ic, [])) s"
    using inv ic_fine_connect[OF inv, of "ticks - 1"] by (auto simp: ic_def ic_fine_def[of n "Ok _"])
  then show ?thesis
    using ConnEmpty by (auto simp: handle_client_timer_tick_def ic_def Let_def split: if_splits)
next
  case (ConnConnecting c)
  then show ?thesis using assms by (simp add: handle_client_timer_tick_def ic_fine_def)
next
  case (ConnConnected c)
  then have inv: "ic_inv n (s \<lparr> ics_client := ics_client s \<rparr>)" "ics_task s = TaskConnected"
    using assms by (auto simp: ic_inv_def)
  have "ic_inv n (s \<lparr> ics_client := ics_client s \<lparr> ic_conn_status := ConnConnected c' \<rparr> \<rparr>)" for c'
    using assms ConnConnected by (simp add: ic_inv_def)
  then show ?thesis
    using ConnConnected ic_fine_send[OF inv] assms
    by (auto simp: handle_client_timer_tick_def Let_def ic_fine_def[of n "Ok _"] split: option.split)
qed

lemma ic_fine_step:
  assumes "ic_inv n s" and "event_enabled event s"
  shows "ic_fine n (index_client_step io event (ics_client s)) (take_event event s)"
proof (cases event)
  case (FromAppServer message)
  then show ?thesis
    using ic_fine_add ic_fine_remove ic_fine_request ic_fine_mutations assms
    by (cases "(io, message, ics_client s)" rule: handle_from_app_server.cases) auto
next
  case AppServerClosed
  then show ?thesis by (simp add: ic_fine_def)
qed (use assms ic_fine_connected ic_fine_closed ic_fine_response ic_fine_tick in auto)

lemma ic_system_step_inv:
  assumes "ic_inv n s" and "event_enabled event s" and "ic_system_step io event s = Ok s'"
  shows "ic_inv n s'"
  using ic_fine_step[OF assms(1,2), of io] assms(3) by (auto simp: ic_fine_def ic_system_step_def rust_simps)

lemma ic_system_start_inv:
  assumes "seq_map_ok sf" and "distinct (map nis_public_key (icc_index_servers config))"
    and "ic_system_start io config sf n keepalive_ticks backoff_ticks = Ok s"
  shows "ic_inv n s"
proof -
  define ic :: "('a, 'b) index_client" where "ic = index_client_new config sf n keepalive_ticks backoff_ticks"
  define s0 where "s0 = \<lparr> ics_client = ic, ics_config = config, ics_task = NoTask, ics_outstanding = [],
    ics_requested = [], ics_answered = [] \<rparr>"
  have "ic_inv n (s0 \<lparr> ics_client := ic \<rparr>)"
    using assms(1,2)
    by (simp add: ic_inv_def s0_def ic_def index_client_new_def same_servers_def index_server_address_from_def comp_def)
  from ic_fine_connect[OF this, of backoff_ticks io] assms(3) show ?thesis
    by (auto simp: ic_fine_def ic_system_start_def rust_simps s0_def apply_effects_client
        ic_def index_client_new_def)
qed

text \<open>
  C6. The index client among the tasks that it starts: whatever the application server asks for, whatever the
  connections do and whichever operations fail, no handler panics as long as the loop runs; the open requests stay
  within their bound and each request for routes has been answered once or is being waited for; and the list of
  servers in memory, which the client rotates and changes on its own, holds the servers of the database.
\<close>

theorem index_client_sound:
  assumes "seq_map_ok sf" and "distinct (map nis_public_key (icc_index_servers config))"
    and "ic_reachable config sf max_open_requests s" and "event_enabled event s"
  shows "index_client_step io event (ics_client s) \<noteq> Panic \<and>
    ic_num_open_requests (ics_client s) = length (ics_outstanding s) \<and> length (ics_outstanding s) \<le> max_open_requests \<and>
    mset (ics_requested s) = mset (ics_answered s) + mset (ics_outstanding s) \<and>
    set (ic_index_servers (ics_client s)) = index_server_address_from ` set (icc_index_servers (ics_config s))"
proof -
  have inv: "ic_inv max_open_requests s"
    using assms(3)
    by (induction rule: ic_reachable.induct) (use ic_system_start_inv[OF assms(1,2)] ic_system_step_inv in blast)+
  then show ?thesis
    using ic_fine_step[OF inv assms(4), of io] by (auto simp: ic_inv_def same_servers_def ic_fine_def)
qed

lemma ic_system_run_reachable:
  "ic_system_run events s = Some s' \<Longrightarrow> ic_reachable config sf n s \<Longrightarrow> ic_reachable config sf n s'"
  by (induction events s rule: ic_system_run.induct) (auto intro: ic_step split: if_splits result.splits)

definition sample_io :: ic_io where
  "sample_io = \<lparr> io_database = True, io_app_server = (\<lambda>_. True), io_spawn = True, io_control = True, io_seq_friends = True \<rparr>"

definition sample_config :: "nat index_client_config" where
  "sample_config = \<lparr> icc_index_servers = [\<lparr> nis_public_key = 1, nis_address = 10, nis_name = ''a'' \<rparr>] \<rparr>"

definition sample_request :: request_routes where
  "sample_request = \<lparr> rr_request_id = 9, rr_currency = Currency ''FST'', rr_capacity = 1, rr_source = 2, rr_destination = 3,
     rr_opt_exclude = None \<rparr>"

definition sample_client_events :: "(ic_io \<times> (nat, unit) index_client_event) list" where
  "sample_client_events =
     [(sample_io, IndexServerConnected ()),
      (sample_io, FromAppServer (AppRequest 5 (RequestAddIndexServer \<lparr> nis_public_key = 2, nis_address = 20, nis_name = ''b'' \<rparr>))),
      (sample_io, FromAppServer (AppRequest 6 (RequestRequestRoutes sample_request)))]"

theorem index_client_sound_witness:
  "case ic_system_start sample_io sample_config (seq_map_new sample_friends) 1 4 4 of
     Ok s0 \<Rightarrow>
       (case ic_system_run sample_client_events s0 of
          Some s \<Rightarrow> ics_outstanding s = [9] \<and>
            index_client_step sample_io (ResponseRoutesEvent 9 RoutesFailure) (ics_client s) \<noteq> Panic \<and>
            set (ic_index_servers (ics_client s)) = index_server_address_from ` set (icc_index_servers (ics_config s))
        | None \<Rightarrow> False)
   | _ \<Rightarrow> False"
proof -
  obtain s0 s where s0: "ic_system_start sample_io sample_config (seq_map_new sample_friends) 1 4 4 = Ok s0"
    and s: "ic_system_run sample_client_events s0 = Some s" "ics_outstanding s = [9]"
    by (simp add: ic_system_start_def sample_config_def index_client_new_def try_connect_to_server_def fail_if_def sample_io_def
        sample_client_events_def ic_system_step_def handle_index_server_connected_def to_app_server_def
        handle_add_index_server_def handle_request_routes_def sample_request_def index_server_address_from_def)
  have "hm_wf sample_friends" by (simp add: sample_friends_def hm_wf_def hm_keys_def)
  then have "seq_map_ok (seq_map_new sample_friends)" by (rule seq_map_new_ok)
  from index_client_sound[OF this _ ic_system_run_reachable[OF s(1) ic_start[OF s0]],
      of "ResponseRoutesEvent 9 RoutesFailure" sample_io] s0 s show ?thesis
    by (simp add: sample_config_def)
qed

end
