(* ===== verification/Spec2Isabelle.thy ===== *)
theory Spec2Isabelle
  imports Reset_Protocol Handler_Errors Index_Server Sc_Handshake Index_Client
begin

text \<open>
  A verification library for the Offset credit node (crates under \<open>src/components\<close>).

  \<^bold>\<open>The program.\<close> A node keeps mutual credit with friends. The \<^emph>\<open>funder\<close> is its core: with every
  friend it shares a \<^emph>\<open>token channel\<close>, in which the two sides alternate in sending signed move
  token messages; a message carries batches of operations on one \<^emph>\<open>mutual credit\<close> per currency.
  Operations request a payment along a route, respond to it, collect it or cancel it. The
  \<^emph>\<open>handlers\<close> of the funder turn one incoming message (of the user, of a friend, about
  liveness) into mutations of the stored state and into outgoing messages; the \<^emph>\<open>loop\<close> of the
  funder applies the mutations in memory and in the database file.

  \<^bold>\<open>The theories\<close>, in the order of the imports:

  \<^item> \<open>Offset_Prelude\<close>: results with panics, hash maps and sets, loops, the simplification
    collections, the locale \<open>finite_map_store\<close>.
  \<^item> \<open>Safe_Arithmetic\<close> (\<open>common/src/safe_arithmetic.rs\<close>): checked and saturating arithmetic
    between signed and unsigned words, with its exact meaning on integers.
  \<^item> \<open>Funder_Messages\<close> (\<open>proto/src/funder/messages.rs\<close>), \<open>Funder_Types\<close> (\<open>funder/src/types.rs\<close>,
    \<open>handler/prepare.rs\<close>): messages, routes, rates, receipts.
  \<^item> \<open>Canonical\<close>, \<open>Signatures\<close> (crates \<open>signature\<close>, \<open>crypto\<close>): the bytes that are signed, the
    locales \<open>prefix_code\<close> and \<open>fixed_width_code\<close> for their unambiguity, and verification.
  \<^item> \<open>Mutable_State\<close> (\<open>common/src/mutable_state.rs\<close>): the journal idiom, as a locale with four
    instances: mutual credit, token channel, friend, funder.
  \<^item> \<open>Mutual_Credit\<close>, \<open>Mc_Outgoing\<close>, \<open>Mc_Incoming\<close>, \<open>Mc_Agreement\<close> (\<open>funder/src/mutual_credit\<close>):
    the operations of both sides, and that they agree (locale \<open>two_party\<close>).
  \<^item> \<open>Token_Channel\<close>, \<open>Tc_Agreement\<close>, \<open>Tc_Protocol\<close> (\<open>funder/src/token_channel.rs\<close>): move token
    messages, resets, and that the two ends of a channel mirror each other through all rounds.
  \<^item> \<open>Funder_State\<close> (\<open>friend.rs\<close>, \<open>state.rs\<close>, \<open>liveness.rs\<close>, \<open>ephemeral.rs\<close>): the stored state.
  \<^item> \<open>Handler_State\<close>, \<open>Canceler\<close>, \<open>Handle_Control\<close>, \<open>Handle_Friend\<close>, \<open>Sender\<close>, \<open>Funder_Handler\<close>
    (\<open>funder/src/handler\<close>): one function per handler, threading an \<open>hstate\<close>.
  \<^item> \<open>Handler_Steps\<close>: the handlers as sequences of steps of the relation \<open>fstep\<close>, and the locale
    \<open>step_invariant\<close>.
  \<^item> \<open>Funder_Loop\<close> (\<open>funder.rs\<close>, \<open>node/src/types.rs\<close>, \<open>database/src/file_db.rs\<close>): the loop, the node
    state and its database.
  \<^item> \<open>Funder_Invariants\<close>: journal and payments through every message and every run.

  \<^bold>\<open>How code corresponds to definitions.\<close> A Rust function that may fail returns a \<open>result\<close>:
  \<open>Ok\<close>, \<open>Err\<close> with the error of the source, or \<open>Panic\<close> where the source would panic (\<open>unwrap\<close>,
  \<open>assert!\<close>, \<open>unreachable!\<close>, overflow of an unchecked operation). A mutable reference is an
  argument and a component of the result. Machine integers are words of their width. A
  \<open>HashMap\<close> is an association list and a \<open>HashSet\<close> a list, whose order stands for the order of
  iteration; no theorem depends on it. Keys, hashes, locks and nonces of a fixed number of bytes
  are words. Hash and signature functions, which are third-party code, are the fields of an
  environment \<open>env\<close>; theorems that need more than their type say so in a hypothesis.

  \<^bold>\<open>Bounds and termination.\<close> Every loop of the modelled source runs over a finite collection, so
  the definitions are total and no fuel is used.

  \<^bold>\<open>Not modelled.\<close> Reports for the user interface (\<open>funder/src/report.rs\<close>), the index server and
  its client, secure channels, channeler, relay, application server, the compact node and the
  command line programs. The streams, timers and sockets that connect these parts are
  asynchronous input and output.
\<close>

end
